(* ===== verification/Prelude.thy ===== *)
theory Prelude
  imports Main "HOL-Library.Word" "HOL-Library.Sublist"
begin

text \<open>
  Shared vocabulary of the development: Go's error values (sentinels, \<open>fmt.Errorf\<close> with
  and without a wrapped operand, \<open>errors.Join\<close>), the outcome of a Go call that may
  return an error or panic, and the generic facts on lists and maps the components use.

  Strings are Go strings: lists of bytes (\<open>char\<close>), so \<open>length\<close> is Go's \<open>len\<close>.
\<close>

named_theorems go_simps \<open>unfolding rules of the modelled Go operations\<close>
named_theorems path_simps \<open>facts on filepath operations over proper components\<close>

type_synonym u8 = "8 word"
type_synonym u16 = "16 word"
type_synonym u32 = "32 word"
type_synonym u64 = "64 word"

section \<open>Go errors\<close>

text \<open>
  The sentinels the code compares with or returns, and the three ways it builds an error.
  \<open>Errorf fmt args\<close> is \<open>fmt.Errorf\<close> whose operands are only printed (\<open>%v\<close>);
  \<open>Wrapf fmt args e\<close> is \<open>fmt.Errorf\<close> with a \<open>%w\<close> operand, \<open>None\<close> where that
  operand is \<open>nil\<close>; \<open>Joined es\<close> is a non-nil result of \<open>errors.Join\<close>. \<open>Opaque\<close>
  is any error made by code outside the repository, told apart by its text.
\<close>

datatype goerror =
    ErrNotExist | ErrExist | ErrInvalid | ErrPermission | EOF_err
  | ENOSYS | ELOOP | EAGAIN | ErrSyntax | ErrRange
  | Opaque string
  | Errorf string "string list"
  | Wrapf string "string list" "goerror option"
  | Joined "goerror list"

text \<open>\<open>errors.Is\<close>: the error itself, or one it wraps.\<close>

fun errors_is :: "goerror \<Rightarrow> goerror \<Rightarrow> bool" where
  "errors_is (Wrapf f as (Some e)) t = (Wrapf f as (Some e) = t \<or> errors_is e t)"
| "errors_is (Joined es) t = (Joined es = t \<or> list_ex (\<lambda>e. errors_is e t) es)"
| "errors_is e t = (e = t)"

text \<open>\<open>errors.Join\<close>: nil operands are dropped, and the result is nil if all are.\<close>

definition errors_join :: "goerror option list \<Rightarrow> goerror option" where
  "errors_join es = (case List.map_filter id es of [] \<Rightarrow> None | e # r \<Rightarrow> Some (Joined (e # r)))"

lemma errors_join_None [simp]: "errors_join [None, None] = None"
  by (simp add: errors_join_def List.map_filter_def)

lemma errors_join_first [simp]: "errors_join [Some e, None] = Some (Joined [e])"
  by (simp add: errors_join_def List.map_filter_def)

lemma errors_join_second [simp]: "errors_join [None, Some e] = Some (Joined [e])"
  by (simp add: errors_join_def List.map_filter_def)

lemma errors_join_both [simp]: "errors_join [Some e, Some e'] = Some (Joined [e, e'])"
  by (simp add: errors_join_def List.map_filter_def)

lemma errors_join_last [simp]: "errors_join [e0, Some e] \<noteq> None"
  by (cases e0) simp_all

lemma errors_join_nil_iff: "errors_join es = None \<longleftrightarrow> (\<forall>e \<in> set es. e = None)"
  by (induction es) (auto simp: errors_join_def List.map_filter_def split: list.splits option.splits)

section \<open>Outcomes of a call\<close>

text \<open>
  A Go call returns normally, returns a non-nil error (whose accompanying values the caller
  ignores), or panics. Calls whose values matter beside an error return them as a pair
  inside \<open>Ok\<close>.
\<close>

datatype 'a res = Ok 'a | Fail goerror | Panic string

fun bind_res :: "'a res \<Rightarrow> ('a \<Rightarrow> 'b res) \<Rightarrow> 'b res" where
  "bind_res (Ok x) f = f x"
| "bind_res (Fail e) f = Fail e"
| "bind_res (Panic s) f = Panic s"

definition panics :: "'a res \<Rightarrow> bool" where
  "panics r = (case r of Panic _ \<Rightarrow> True | _ \<Rightarrow> False)"

lemma panics_simps [simp]:
  "\<not> panics (Ok x)" "\<not> panics (Fail e)" "panics (Panic s)"
  by (simp_all add: panics_def)

lemma bind_res_Ok_iff: "bind_res r f = Ok y \<longleftrightarrow> (\<exists>x. r = Ok x \<and> f x = Ok y)"
  by (cases r) auto

lemma bind_res_no_panic:
  "\<not> panics r \<Longrightarrow> (\<And>x. r = Ok x \<Longrightarrow> \<not> panics (f x)) \<Longrightarrow> \<not> panics (bind_res r f)"
  by (cases r) auto

text \<open>Go's slice index \<open>xs[i]\<close>, with the run-time check.\<close>

definition index_slice :: "'a list \<Rightarrow> nat \<Rightarrow> 'a res" where
  "index_slice xs i =
     (if i < length xs then Ok (xs ! i) else Panic ''index out of range'')"

lemma index_slice_in [simp]: "i < length xs \<Longrightarrow> index_slice xs i = Ok (xs ! i)"
  by (simp add: index_slice_def)

lemma index_slice_out [simp]: "length xs \<le> i \<Longrightarrow> index_slice xs i = Panic ''index out of range''"
  by (simp add: index_slice_def)

section \<open>Tables filled by a loop\<close>

text \<open>
  \<open>for i, r := range recs { m[key r] = i }\<close>: later entries overwrite earlier ones.
\<close>

definition index_map :: "string list \<Rightarrow> string \<Rightarrow> nat option" where
  "index_map ks = map_of (rev (zip ks [0..<length ks]))"

lemma index_map_bound: "index_map ks k = Some i \<Longrightarrow> i < length ks \<and> ks ! i = k"
  unfolding index_map_def
  by (drule map_of_SomeD) (auto simp: set_zip)

lemma index_map_None: "index_map ks k = None \<longleftrightarrow> k \<notin> set ks"
proof -
  have "fst ` set (zip ks [0..<length ks]) = set ks"
    by (metis length_map length_upt map_fst_zip minus_nat.diff_0 set_map)
  then show ?thesis
    by (simp add: index_map_def map_of_eq_None_iff)
qed

lemma index_map_distinct: "distinct ks \<Longrightarrow> i < length ks \<Longrightarrow> index_map ks (ks ! i) = Some i"
  by (metis index_map_None index_map_bound not_None_eq nth_eq_iff_index_eq nth_mem)

section \<open>Signed counters\<close>

lemma sint_small:
  assumes "k < 2 ^ 31"
  shows "sint (of_nat k :: u32) = int k"
proof -
  have "sint (word_of_int (int k) :: u32) = (int k + 2 ^ 31) mod 2 ^ 32 - 2 ^ 31"
    using int_word_sint [of "int k", where 'a = 32] by simp
  moreover have "(int k + 2 ^ 31) mod 2 ^ 32 = int k + 2 ^ 31"
    using assms by (intro mod_pos_pos_trivial) auto
  ultimately show ?thesis by simp
qed
end
