(* ===== verification/GoStrings.thy ===== *)
theory GoStrings
  imports Prelude
begin

text \<open>
  The operations of Go's \<open>strings\<close>, \<open>strconv\<close> and \<open>bufio\<close> packages that the
  repository calls, on byte strings. White space is ASCII white space: the non-ASCII spaces
  \<open>strings.Fields\<close> also recognises are multi-byte sequences and are not white space here.
\<close>

abbreviation NL :: char where "NL \<equiv> CHR 0x0A"
abbreviation CR :: char where "CR \<equiv> CHR 0x0D"
abbreviation QUOTE :: char where "QUOTE \<equiv> CHR 0x27"
abbreviation DQUOTE :: char where "DQUOTE \<equiv> CHR 0x22"

unbundle bit_operations_syntax

section \<open>Split and Join\<close>

text \<open>\<open>strings.Split(s, sep)\<close> for a one-byte separator: never empty.\<close>

fun split_on :: "char \<Rightarrow> string \<Rightarrow> string list" where
  "split_on c [] = [[]]"
| "split_on c (x # xs) =
     (if x = c then [] # split_on c xs
      else case split_on c xs of [] \<Rightarrow> [[x]] | y # ys \<Rightarrow> (x # y) # ys)"

text \<open>\<open>strings.Join\<close>.\<close>

fun join_with :: "string \<Rightarrow> string list \<Rightarrow> string" where
  "join_with s [] = []"
| "join_with s [x] = x"
| "join_with s (x # y # ys) = x @ s @ join_with s (y # ys)"

lemma split_on_nonempty [simp]: "split_on c s \<noteq> []"
  by (induction s) (auto split: list.splits)

lemma split_on_no_sep: "c \<notin> set s \<Longrightarrow> split_on c s = [s]"
  by (induction s) auto

lemma split_on_append_sep: "c \<notin> set a \<Longrightarrow> split_on c (a @ c # b) = a # split_on c b"
  by (induction a) auto

lemma set_split_on: "w \<in> set (split_on c s) \<Longrightarrow> c \<notin> set w \<and> set w \<subseteq> set s"
proof (induction s arbitrary: w)
  case Nil
  then show ?case by simp
next
  case (Cons x s)
  obtain y ys where ys: "split_on c s = y # ys"
    by (meson neq_Nil_conv split_on_nonempty)
  with Cons.IH [of y] Cons.IH [of w] Cons.prems show ?case
    by (auto split: if_splits)
qed

lemma join_with_Cons: "ys \<noteq> [] \<Longrightarrow> join_with s (x # ys) = x @ s @ join_with s ys"
  by (cases ys) auto

lemma join_split [simp]: "join_with [c] (split_on c s) = s"
proof (induction s)
  case Nil
  show ?case by simp
next
  case (Cons x s)
  obtain y ys where ys: "split_on c s = y # ys"
    by (meson neq_Nil_conv split_on_nonempty)
  with Cons show ?case by (cases ys) auto
qed

lemma split_join:
  assumes "xs \<noteq> []" and "\<And>x. x \<in> set xs \<Longrightarrow> c \<notin> set x"
  shows "split_on c (join_with [c] xs) = xs"
  using assms
proof (induction xs rule: induct_list012)
  case 1
  then show ?case by simp
next
  case (2 x)
  then show ?case by (simp add: split_on_no_sep)
next
  case (3 x y zs)
  then show ?case by (simp add: split_on_append_sep)
qed

lemma split_join_iff: "xs \<noteq> [] \<Longrightarrow> split_on c (join_with [c] xs) = xs \<longleftrightarrow> (\<forall>x \<in> set xs. c \<notin> set x)"
  by (metis set_split_on split_join)

lemma join_with_append:
  "xs \<noteq> [] \<Longrightarrow> ys \<noteq> [] \<Longrightarrow> join_with s (xs @ ys) = join_with s xs @ s @ join_with s ys"
  by (induction xs rule: induct_list012) (auto simp: join_with_Cons)

lemma join_with_eq_Nil_iff:
  "(\<forall>x \<in> set xs. x \<noteq> []) \<Longrightarrow> join_with s xs = [] \<longleftrightarrow> xs = []"
  by (cases xs rule: remdups_adj.cases) auto

lemma set_join_with: "set (join_with s xs) \<subseteq> set s \<union> \<Union> (set ` set xs)"
  by (induction s xs rule: join_with.induct) auto

section \<open>Cutting at the first separator\<close>

text \<open>
  \<open>strings.Cut(s, sep)\<close> for a one-byte separator, and \<open>strings.SplitN(s, sep, 2)\<close>
  built on it.
\<close>

fun cut :: "char \<Rightarrow> string \<Rightarrow> (string \<times> string) option" where
  "cut c [] = None"
| "cut c (x # xs) = (if x = c then Some ([], xs) else map_option (\<lambda>(a, b). (x # a, b)) (cut c xs))"

definition splitn2 :: "char \<Rightarrow> string \<Rightarrow> string list" where
  "splitn2 c s = (case cut c s of None \<Rightarrow> [s] | Some (a, b) \<Rightarrow> [a, b])"

lemma cut_None_iff: "cut c s = None \<longleftrightarrow> c \<notin> set s"
  by (induction s) auto

lemma cut_Some: "cut c s = Some (a, b) \<Longrightarrow> s = a @ c # b \<and> c \<notin> set a"
  by (induction s arbitrary: a) (auto split: if_splits)

lemma cut_append: "c \<notin> set a \<Longrightarrow> cut c (a @ c # b) = Some (a, b)"
  by (induction a) auto

section \<open>Prefixes, substrings, trimming, fields\<close>

definition has_prefix :: "string \<Rightarrow> string \<Rightarrow> bool" where
  "has_prefix s p = prefix p s"

definition contains :: "string \<Rightarrow> string \<Rightarrow> bool" where
  "contains s sub = list_ex (\<lambda>t. prefix sub t) (suffixes s)"

definition trim_left :: "char \<Rightarrow> string \<Rightarrow> string" where
  "trim_left c s = dropWhile (\<lambda>x. x = c) s"

definition trim_right :: "char \<Rightarrow> string \<Rightarrow> string" where
  "trim_right c s = rev (dropWhile (\<lambda>x. x = c) (rev s))"

definition is_space :: "char \<Rightarrow> bool" where
  "is_space c = (c \<in> {CHR 0x09, CHR 0x0A, CHR 0x0B, CHR 0x0C, CHR 0x0D, CHR '' ''})"

definition trim_space :: "string \<Rightarrow> string" where
  "trim_space s = rev (dropWhile is_space (rev (dropWhile is_space s)))"

text \<open>\<open>strings.Fields\<close>: the maximal runs of non-space bytes.\<close>

fun fields_acc :: "string \<Rightarrow> string \<Rightarrow> string list" where
  "fields_acc w [] = (if w = [] then [] else [rev w])"
| "fields_acc w (x # xs) =
     (if is_space x then (if w = [] then fields_acc [] xs else rev w # fields_acc [] xs)
      else fields_acc (x # w) xs)"

definition fields :: "string \<Rightarrow> string list" where
  "fields s = fields_acc [] s"

text \<open>\<open>strings.ReplaceAll\<close> of a one-byte pattern.\<close>

definition replace_all :: "string \<Rightarrow> char \<Rightarrow> string \<Rightarrow> string" where
  "replace_all s c r = concat (map (\<lambda>x. if x = c then r else [x]) s)"

lemma contains_iff: "contains s sub \<longleftrightarrow> (\<exists>a b. s = a @ sub @ b)"
proof
  show "contains s sub \<Longrightarrow> \<exists>a b. s = a @ sub @ b"
    by (fastforce simp: contains_def list_ex_iff suffix_def prefix_def)
next
  assume "\<exists>a b. s = a @ sub @ b"
  then obtain a b where s: "s = a @ sub @ b" by blast
  then have "sub @ b \<in> set (suffixes s)" by (simp add: suffix_def)
  then show "contains s sub"
    unfolding contains_def list_ex_iff by (rule bexI [rotated]) simp
qed

lemma fields_acc_word:
  "(\<And>x. x \<in> set u \<Longrightarrow> \<not> is_space x) \<Longrightarrow> fields_acc w (u @ v) = fields_acc (rev u @ w) v"
  by (induction u arbitrary: w) auto

definition word_like :: "string \<Rightarrow> bool" where
  "word_like w = (w \<noteq> [] \<and> list_all (\<lambda>x. \<not> is_space x) w)"

lemma fields_cons_word:
  "word_like w \<Longrightarrow> is_space c \<Longrightarrow> fields (w @ c # s) = w # fields s"
  by (simp add: fields_def word_like_def list_all_iff fields_acc_word)

lemma fields_word: "word_like w \<Longrightarrow> fields w = [w]"
  using fields_acc_word [of w "[]" "[]"]
  by (auto simp: fields_def word_like_def list_all_iff)

lemma trim_left_id: "s = [] \<or> hd s \<noteq> c \<Longrightarrow> trim_left c s = s"
  by (cases s) (auto simp: trim_left_def)

lemma trim_right_id: "s = [] \<or> last s \<noteq> c \<Longrightarrow> trim_right c s = s"
  by (cases s rule: rev_cases) (auto simp: trim_right_def)

section \<open>Lines of a buffer\<close>

text \<open>
  \<open>bufio.Scanner\<close> with \<open>ScanLines\<close> over a string. A line ends at a newline or at the
  end of the input (an empty last line is not produced) and loses one trailing carriage
  return. The scanner's buffer holds 65536 bytes: a line of that many bytes or more stops
  the scan without an error visible to the loop \<open>for s.Scan()\<close>.
\<close>

definition max_scan_token :: nat where
  "max_scan_token = 65536"

definition drop_cr :: "string \<Rightarrow> string" where
  "drop_cr l = (if l \<noteq> [] \<and> last l = CR then butlast l else l)"

definition raw_lines :: "string \<Rightarrow> string list" where
  "raw_lines s = (let ls = split_on NL s in if last ls = [] then butlast ls else ls)"

definition scan_lines :: "string \<Rightarrow> string list" where
  "scan_lines s = map drop_cr (takeWhile (\<lambda>l. length l < max_scan_token) (raw_lines s))"

lemma raw_lines_concat:
  assumes "\<And>l. l \<in> set ls \<Longrightarrow> NL \<notin> set l"
  shows "raw_lines (concat (map (\<lambda>l. l @ [NL]) ls)) = ls"
proof -
  have "split_on NL (concat (map (\<lambda>l. l @ [NL]) ls)) = ls @ [[]]"
    using assms by (induction ls) (simp_all add: split_on_append_sep)
  then show ?thesis by (simp add: raw_lines_def)
qed

section \<open>Unsigned numbers\<close>

text \<open>
  \<open>strconv.ParseUint(s, 0, bits)\<close>. Base 0 takes the base from the prefix
  (\<open>0b\<close>, \<open>0o\<close>, \<open>0x\<close>, in either case, and a plain leading \<open>0\<close> for octal) and allows
  underscores between digits or after the prefix. The result is \<open>ErrSyntax\<close> for anything that is
  not a number and \<open>ErrRange\<close> for one that does not fit, both wrapped in a \<open>NumError\<close>.
\<close>

definition lower :: "char \<Rightarrow> nat" where
  "lower c = of_char c OR 0x20"

definition digit_val :: "char \<Rightarrow> nat option" where
  "digit_val c =
     (if 48 \<le> (of_char c :: nat) \<and> (of_char c :: nat) \<le> 57 then Some (of_char c - 48)
      else if 97 \<le> lower c \<and> lower c \<le> 122 then Some (lower c - 97 + 10)
      else None)"

text \<open>The digit loop. \<open>us\<close> records whether an underscore was seen.\<close>

fun uint_digits :: "nat \<Rightarrow> nat \<Rightarrow> string \<Rightarrow> nat \<Rightarrow> bool \<Rightarrow> goerror + (nat \<times> bool)" where
  "uint_digits base maxv [] n us = Inr (n, us)"
| "uint_digits base maxv (c # cs) n us =
     (if c = CHR ''_'' then uint_digits base maxv cs n True
      else case digit_val c of
        None \<Rightarrow> Inl ErrSyntax
      | Some d \<Rightarrow>
          if base \<le> d then Inl ErrSyntax
          else if maxv < n * base + d then Inl ErrRange
          else uint_digits base maxv cs (n * base + d) us)"

text \<open>
  \<open>underscoreOK\<close>: the last byte seen is the start of the number, a digit (or the base
  prefix), an underscore or something else.
\<close>

datatype saw = SawStart | SawDigit | SawUnderscore | SawOther

fun underscore_scan :: "bool \<Rightarrow> saw \<Rightarrow> string \<Rightarrow> bool" where
  "underscore_scan hex sw [] = (sw \<noteq> SawUnderscore)"
| "underscore_scan hex sw (c # cs) =
     (if (48 \<le> (of_char c :: nat) \<and> (of_char c :: nat) \<le> 57) \<or> (hex \<and> 97 \<le> lower c \<and> lower c \<le> 102)
      then underscore_scan hex SawDigit cs
      else if c = CHR ''_'' then (sw = SawDigit \<and> underscore_scan hex SawUnderscore cs)
      else if sw = SawUnderscore then False
      else underscore_scan hex SawOther cs)"

definition base_letter :: "string \<Rightarrow> nat option" where
  "base_letter s =
     (case s of
        z # x # _ \<Rightarrow>
          if z = CHR ''0'' \<and> lower x \<in> {98, 111, 120} then Some (lower x) else None
      | _ \<Rightarrow> None)"

definition underscore_ok :: "string \<Rightarrow> bool" where
  "underscore_ok s0 =
     (let s = (case s0 of x # r \<Rightarrow> if x = CHR ''-'' \<or> x = CHR ''+'' then r else s0 | [] \<Rightarrow> []) in
      case base_letter s of
        None \<Rightarrow> underscore_scan False SawStart s
      | Some l \<Rightarrow> underscore_scan (l = 120) SawDigit (drop 2 s))"

text \<open>The base and the digits that base 0 selects.\<close>

definition uint_base0 :: "string \<Rightarrow> nat \<times> string" where
  "uint_base0 s =
     (if hd s = CHR ''0'' then
        (case (if 3 \<le> length s then base_letter s else None) of
           None \<Rightarrow> (8, drop 1 s)
         | Some l \<Rightarrow> ((if l = 98 then 2 else if l = 111 then 8 else 16), drop 2 s))
      else (10, s))"

definition num_error :: "string \<Rightarrow> goerror \<Rightarrow> goerror" where
  "num_error s e = Wrapf ''strconv.ParseUint: parsing %q: %w'' [s] (Some e)"

definition parse_uint :: "string \<Rightarrow> nat \<Rightarrow> goerror + nat" where
  "parse_uint s bits =
     (if s = [] then Inl (num_error s ErrSyntax)
      else (case uint_base0 s of (base, ds) \<Rightarrow>
        (case uint_digits base (2 ^ bits - 1) ds 0 False of
           Inl e \<Rightarrow> Inl (num_error s e)
         | Inr (n, us) \<Rightarrow>
             if us \<and> \<not> underscore_ok s then Inl (num_error s ErrSyntax) else Inr n)))"

lemma uint_digits_le: "uint_digits base maxv cs n us = Inr (m, us') \<Longrightarrow> n \<le> maxv \<Longrightarrow> m \<le> maxv"
  by (induction base maxv cs n us rule: uint_digits.induct)
     (auto split: if_splits option.splits)

lemma parse_uint_bound: "parse_uint s bits = Inr n \<Longrightarrow> n < 2 ^ bits"
proof -
  assume "parse_uint s bits = Inr n"
  then obtain base ds us where "uint_digits base (2 ^ bits - 1) ds 0 False = Inr (n, us)"
    by (auto simp: parse_uint_def split: if_splits prod.splits sum.splits)
  then have "n \<le> 2 ^ bits - 1" by (rule uint_digits_le) simp
  moreover have "(0::nat) < 2 ^ bits" by simp
  ultimately show ?thesis by linarith
qed

text \<open>Printing a number in base 10 (\<open>%d\<close>, \<open>%v\<close>, \<open>strconv.Itoa\<close> of a non-negative value).\<close>

definition digit_char :: "nat \<Rightarrow> char" where
  "digit_char d = char_of (48 + d)"

fun show_nat :: "nat \<Rightarrow> string" where
  "show_nat n = (if n < 10 then [digit_char n] else show_nat (n div 10) @ [digit_char (n mod 10)])"

declare show_nat.simps [simp del]

lemma of_char_digit_char: "d < 10 \<Longrightarrow> (of_char (digit_char d) :: nat) = 48 + d"
  by (simp add: digit_char_def)

lemma digit_val_digit_char: "d < 10 \<Longrightarrow> digit_val (digit_char d) = Some d"
  by (simp add: digit_val_def of_char_digit_char)

lemma digit_char_not_underscore: "d < 10 \<Longrightarrow> digit_char d \<noteq> CHR ''_''"
  using of_char_digit_char [of d] by auto

lemma show_nat_nonempty [simp]: "show_nat n \<noteq> []"
  by (subst show_nat.simps) simp

lemma set_show_nat: "c \<in> set (show_nat n) \<Longrightarrow> \<exists>d < 10. c = digit_char d"
proof (induction n rule: show_nat.induct)
  case (1 n)
  then show ?case
    by (subst (asm) (2) show_nat.simps)
       (auto split: if_splits intro: exI [of _ n] exI [of _ "n mod 10"])
qed

lemma hd_show_nat: "0 < n \<Longrightarrow> \<exists>d. 0 < d \<and> d < 10 \<and> hd (show_nat n) = digit_char d"
proof (induction n rule: show_nat.induct)
  case (1 n)
  show ?case
  proof (cases "n < 10")
    case True
    with 1 show ?thesis by (subst show_nat.simps) auto
  next
    case False
    then have "0 < n div 10" by (simp add: div_greater_zero_iff)
    with 1 False obtain d where "0 < d" "d < 10" "hd (show_nat (n div 10)) = digit_char d"
      by blast
    with False show ?thesis
      by (subst show_nat.simps) auto
  qed
qed

lemma uint_digits_append:
  "uint_digits b m (xs @ ys) n us =
     (case uint_digits b m xs n us of Inl e \<Rightarrow> Inl e | Inr (k, us') \<Rightarrow> uint_digits b m ys k us')"
  by (induction b m xs n us rule: uint_digits.induct) (auto split: option.splits)

lemma uint_digits_show: "n \<le> m \<Longrightarrow> uint_digits 10 m (show_nat n) 0 us = Inr (n, us)"
proof (induction n rule: show_nat.induct)
  case (1 n)
  show ?case
  proof (cases "n < 10")
    case True
    with 1 show ?thesis
      by (subst show_nat.simps) (simp add: digit_val_digit_char digit_char_not_underscore)
  next
    case False
    with 1 have "uint_digits 10 m (show_nat (n div 10)) 0 us = Inr (n div 10, us)"
      by simp
    moreover have "n div 10 * 10 + n mod 10 = n" by simp
    ultimately show ?thesis
      using False 1(2)
      by (subst show_nat.simps)
         (simp add: uint_digits_append digit_val_digit_char digit_char_not_underscore)
  qed
qed

lemma parse_uint_show: "n < 2 ^ bits \<Longrightarrow> parse_uint (show_nat n) bits = Inr n"
proof (cases "n = 0")
  case True
  have "show_nat 0 = [CHR ''0'']"
    by code_simp
  with True show ?thesis
    by (simp add: parse_uint_def uint_base0_def)
next
  case False
  assume n: "n < 2 ^ bits"
  from False obtain d where d: "0 < d" "d < 10" "hd (show_nat n) = digit_char d"
    using hd_show_nat by blast
  then have "hd (show_nat n) \<noteq> CHR ''0''"
    using of_char_digit_char [of d] by auto
  with n show ?thesis
    by (simp add: parse_uint_def uint_base0_def uint_digits_show)
qed

end
