(* ===== verification/GoPath.thy ===== *)
theory GoPath
  imports GoStrings
begin

text \<open>
  Go's \<open>path\<close> and \<open>path/filepath\<close> packages on Unix, as far as the repository calls them:
  \<open>Clean\<close>, \<open>Join\<close>, \<open>Rel\<close>, \<open>Split\<close>, \<open>Base\<close>, \<open>Dir\<close>, \<open>IsAbs\<close>. Each is defined on
  the slash-separated elements of the byte string. The second half shows what they do on
  canonical paths, those made of proper elements (non-empty, no slash, neither dot nor
  dot-dot), and that a path joined below a root from proper elements stays below it.
\<close>

abbreviation SLASH :: char where "SLASH \<equiv> CHR ''/''"
abbreviation DOT :: string where "DOT \<equiv> ''.''"
abbreviation DOTDOT :: string where "DOTDOT \<equiv> ''..''"

section \<open>The operations\<close>

text \<open>
  \<open>Clean\<close>: the elements are pushed on a stack; empty elements and dots vanish, a dot-dot
  pops the element before it, and a leading dot-dot stays in a relative path and vanishes
  in a rooted one.
\<close>

fun clean_elems :: "bool \<Rightarrow> string list \<Rightarrow> string list \<Rightarrow> string list" where
  "clean_elems rooted st [] = rev st"
| "clean_elems rooted st (c # cs) =
     (if c = [] \<or> c = DOT then clean_elems rooted st cs
      else if c = DOTDOT then
        (case st of
           [] \<Rightarrow> clean_elems rooted (if rooted then [] else [DOTDOT]) cs
         | s # st' \<Rightarrow> if s = DOTDOT then clean_elems rooted (DOTDOT # st) cs
                     else clean_elems rooted st' cs)
      else clean_elems rooted (c # st) cs)"

definition is_abs :: "string \<Rightarrow> bool" where
  "is_abs p = (p \<noteq> [] \<and> hd p = SLASH)"

definition path_clean :: "string \<Rightarrow> string" where
  "path_clean p =
     (let cs = clean_elems (is_abs p) [] (split_on SLASH p) in
      if is_abs p then SLASH # join_with [SLASH] cs
      else if cs = [] then DOT else join_with [SLASH] cs)"

text \<open>\<open>Join\<close>: leading empty elements are dropped, the rest is joined and cleaned.\<close>

definition path_join :: "string list \<Rightarrow> string" where
  "path_join elems =
     (case dropWhile (\<lambda>e. e = []) elems of [] \<Rightarrow> [] | es \<Rightarrow> path_clean (join_with [SLASH] es))"

text \<open>\<open>Split\<close>: the directory part, with its final slash, and the file part.\<close>

definition path_split :: "string \<Rightarrow> string \<times> string" where
  "path_split p =
     (rev (dropWhile (\<lambda>x. x \<noteq> SLASH) (rev p)), rev (takeWhile (\<lambda>x. x \<noteq> SLASH) (rev p)))"

definition path_base :: "string \<Rightarrow> string" where
  "path_base p =
     (if p = [] then DOT
      else let q = trim_right SLASH p in
           if q = [] then [SLASH] else snd (path_split q))"

definition path_dir :: "string \<Rightarrow> string" where
  "path_dir p = path_clean (fst (path_split p))"

text \<open>
  \<open>Rel\<close>: the elements both cleaned paths begin with are dropped; what is left of the base
  becomes dot-dots. It fails between a rooted and a relative path, and where the base would have
  to leave a directory it reached through a dot-dot.
\<close>

fun strip_common :: "'a list \<Rightarrow> 'a list \<Rightarrow> 'a list \<times> 'a list" where
  "strip_common (x # xs) (y # ys) = (if x = y then strip_common xs ys else (x # xs, y # ys))"
| "strip_common xs ys = (xs, ys)"

definition path_elems :: "string \<Rightarrow> string list" where
  "path_elems p = (if p = [] \<or> p = [SLASH] then []
                   else split_on SLASH (if hd p = SLASH then tl p else p))"

definition rel_error :: "string \<Rightarrow> string \<Rightarrow> goerror" where
  "rel_error base targ = Errorf ''Rel: can not make %s relative to %s'' [targ, base]"

definition path_rel :: "string \<Rightarrow> string \<Rightarrow> goerror + string" where
  "path_rel base targ =
     (let b0 = path_clean base; t = path_clean targ in
      if t = b0 then Inr DOT
      else let b = (if b0 = DOT then [] else b0) in
        if is_abs b \<noteq> is_abs t then Inl (rel_error base targ)
        else case strip_common (path_elems b) (path_elems t) of (bs, ts) \<Rightarrow>
          if bs \<noteq> [] \<and> hd bs = DOTDOT then Inl (rel_error base targ)
          else Inr (join_with [SLASH] (map (\<lambda>_. DOTDOT) bs @ ts)))"

section \<open>Proper elements and canonical paths\<close>

definition proper :: "string \<Rightarrow> bool" where
  "proper c = (c \<noteq> [] \<and> SLASH \<notin> set c \<and> c \<noteq> DOT \<and> c \<noteq> DOTDOT)"

abbreviation all_proper :: "string list \<Rightarrow> bool" where
  "all_proper cs \<equiv> list_all proper cs"

text \<open>The relative canonical path of a list of proper elements.\<close>

definition rel_path :: "string list \<Rightarrow> string" where
  "rel_path cs = (if cs = [] then DOT else join_with [SLASH] cs)"

lemma all_proper_no_slash: "all_proper cs \<Longrightarrow> c \<in> set cs \<Longrightarrow> SLASH \<notin> set c"
  by (auto simp: list_all_iff proper_def)

lemma split_join_proper [path_simps]:
  "all_proper cs \<Longrightarrow> cs \<noteq> [] \<Longrightarrow> split_on SLASH (join_with [SLASH] cs) = cs"
  by (rule split_join) (auto simp: all_proper_no_slash)

lemma clean_elems_proper [path_simps]:
  "all_proper cs \<Longrightarrow> clean_elems r st cs = rev st @ cs"
  by (induction cs arbitrary: st) (auto simp: proper_def)

lemma clean_elems_append:
  "all_proper cs \<Longrightarrow> clean_elems r st (cs @ ds) = clean_elems r (rev cs @ st) ds"
  by (induction cs arbitrary: st) (auto simp: proper_def)

lemma join_proper_ne:
  assumes "all_proper cs" and "cs \<noteq> []"
  shows "join_with [SLASH] cs \<noteq> []" and "hd (join_with [SLASH] cs) \<noteq> SLASH"
    and "join_with [SLASH] cs \<noteq> DOT" and "join_with [SLASH] cs \<noteq> DOTDOT"
proof -
  from assms obtain c ds where cs: "cs = c # ds" and c: "proper c"
    by (cases cs) auto
  then obtain x xs where x: "c = x # xs" by (cases c) (auto simp: proper_def)
  show "join_with [SLASH] cs \<noteq> []" "hd (join_with [SLASH] cs) \<noteq> SLASH"
    using cs c x by (cases ds; auto simp: proper_def join_with_Cons)+
  have "split_on SLASH (join_with [SLASH] cs) = cs"
    using assms by (rule split_join_proper)
  moreover have "split_on SLASH DOT = [DOT]" "split_on SLASH DOTDOT = [DOTDOT]"
    by simp_all
  ultimately show "join_with [SLASH] cs \<noteq> DOT" "join_with [SLASH] cs \<noteq> DOTDOT"
    using cs c by (auto simp: proper_def)
qed

lemma is_abs_join_proper [path_simps]: "all_proper cs \<Longrightarrow> \<not> is_abs (join_with [SLASH] cs)"
  by (cases "cs = []") (auto simp: is_abs_def join_proper_ne)

lemma rel_path_inject:
  assumes "all_proper cs" and "all_proper ds" and "rel_path cs = rel_path ds"
  shows "cs = ds"
proof (cases "cs = [] \<or> ds = []")
  case True
  with assms join_proper_ne(3) [of cs] join_proper_ne(3) [of ds] show ?thesis
    by (auto simp: rel_path_def split: if_splits)
next
  case False
  with assms(3) have "join_with [SLASH] cs = join_with [SLASH] ds"
    by (simp add: rel_path_def)
  with False assms(1,2) show ?thesis
    by (metis split_join_proper)
qed

lemma rel_path_eq_DOT [simp]: "all_proper cs \<Longrightarrow> rel_path cs = DOT \<longleftrightarrow> cs = []"
  by (auto simp: rel_path_def join_proper_ne)

lemma path_clean_rel_path [path_simps]: "all_proper cs \<Longrightarrow> path_clean (rel_path cs) = rel_path cs"
proof (cases "cs = []")
  case True
  then show ?thesis by (simp add: rel_path_def path_clean_def is_abs_def)
next
  case False
  assume "all_proper cs"
  with False show ?thesis
    by (simp add: rel_path_def path_clean_def path_simps)
qed

text \<open>\<open>filepath.Join(full, name)\<close> as a directory walk uses it, the root being the empty string.\<close>

lemma path_join_step [path_simps]:
  assumes "all_proper cs" and "proper c"
  shows "path_join [join_with [SLASH] cs, c] = join_with [SLASH] (cs @ [c])"
proof -
  have c: "c \<noteq> []" using assms(2) by (auto simp: proper_def)
  have ap: "all_proper (cs @ [c])" using assms by simp
  have "path_clean (join_with [SLASH] (cs @ [c])) = join_with [SLASH] (cs @ [c])"
    using path_clean_rel_path [OF ap] by (simp add: rel_path_def)
  then show ?thesis
    using assms c join_proper_ne(1) [of cs]
    by (cases "cs = []") (simp_all add: path_join_def join_with_append)
qed

text \<open>
  Joining a cleaned absolute root with a path whose elements are proper stays below the
  root, whatever slashes the path begins, ends or is interspersed with.
\<close>

definition no_dotdot :: "string \<Rightarrow> bool" where
  "no_dotdot p = (DOTDOT \<notin> set (split_on SLASH p))"

lemma clean_elems_no_dotdot:
  "DOTDOT \<notin> set cs \<Longrightarrow> clean_elems r st cs = rev st @ filter (\<lambda>c. c \<noteq> [] \<and> c \<noteq> DOT) cs"
  by (induction cs arbitrary: st) auto

lemma split_on_append_list:
  "split_on c (a @ c # b) = split_on c a @ split_on c b"
proof (induction a)
  case Nil
  show ?case by simp
next
  case (Cons x a)
  obtain y ys where "split_on c a = y # ys"
    by (meson neq_Nil_conv split_on_nonempty)
  with Cons show ?case by simp
qed

lemma path_join_below:
  assumes root: "all_proper rs" "rs \<noteq> []" and p: "no_dotdot p" "p \<noteq> []"
  shows "path_join [SLASH # join_with [SLASH] rs, p] =
         SLASH # join_with [SLASH] (rs @ filter (\<lambda>c. c \<noteq> [] \<and> c \<noteq> DOT) (split_on SLASH p))"
proof -
  have sp: "split_on SLASH (SLASH # join_with [SLASH] rs @ SLASH # p) = [] # rs @ split_on SLASH p"
    using root by (simp add: split_on_append_list split_join_proper)
  have "DOTDOT \<notin> set rs" using root by (auto simp: list_all_iff proper_def)
  moreover have "filter (\<lambda>c. c \<noteq> [] \<and> c \<noteq> DOT) rs = rs"
    using root by (auto simp: filter_id_conv list_all_iff proper_def)
  ultimately have "clean_elems True [] ([] # rs @ split_on SLASH p) =
      rs @ filter (\<lambda>c. c \<noteq> [] \<and> c \<noteq> DOT) (split_on SLASH p)"
    using p by (subst clean_elems_no_dotdot) (auto simp: no_dotdot_def)
  then show ?thesis
    using sp p by (simp add: path_join_def path_clean_def is_abs_def)
qed

section \<open>Relative paths between canonical paths\<close>

lemma path_elems_join [path_simps]:
  "all_proper cs \<Longrightarrow> path_elems (join_with [SLASH] cs) = cs"
proof (cases "cs = []")
  case False
  assume "all_proper cs"
  with False show ?thesis
    using join_proper_ne(2) [of cs] join_proper_ne(1) [of cs]
    by (auto simp: path_elems_def split_join_proper)
qed (simp add: path_elems_def)

lemma strip_common_append [simp]: "strip_common (a @ xs) (a @ ys) = strip_common xs ys"
  by (induction a) auto

lemma strip_common_Nil [simp]: "strip_common xs [] = (xs, [])" "strip_common [] ys = ([], ys)"
  by (cases xs; simp) (cases ys; simp)

lemma strip_common_decomp:
  "strip_common xs ys = (u, v) \<Longrightarrow> \<exists>p. xs = p @ u \<and> ys = p @ v"
proof (induction xs ys arbitrary: u v rule: strip_common.induct)
  case (1 x xs y ys)
  show ?case
  proof (cases "x = y")
    case True
    with 1 obtain p where "xs = p @ u" "ys = p @ v" by auto
    with True show ?thesis by (intro exI [of _ "x # p"]) simp
  next
    case False
    with 1 show ?thesis by (intro exI [of _ "[]"]) auto
  qed
qed auto

lemma strip_common_fst_Nil: "fst (strip_common xs ys) = [] \<longleftrightarrow> prefix xs ys"
proof (induction xs ys rule: strip_common.induct)
  case (1 x xs y ys)
  then show ?case by auto
qed auto

lemma path_rel_canonical:
  assumes "all_proper as" and "all_proper bs" and "bs \<noteq> []"
  shows "path_rel (rel_path as) (rel_path bs) =
     (if as = bs then Inr DOT
      else case strip_common as bs of (us, vs) \<Rightarrow>
        Inr (join_with [SLASH] (map (\<lambda>_. DOTDOT) us @ vs)))"
proof (cases "as = bs")
  case True
  with assms show ?thesis by (simp add: path_rel_def path_simps)
next
  case False
  obtain us vs where sc: "strip_common as bs = (us, vs)" by force
  then obtain p where p: "as = p @ us" using strip_common_decomp [OF sc] by blast
  have us: "us = [] \<or> hd us \<noteq> DOTDOT"
    using assms(1) p by (cases us) (auto simp: proper_def)
  have ne: "rel_path bs \<noteq> rel_path as"
    using rel_path_inject [OF assms(2,1)] False by blast
  define b where "b = (if rel_path as = DOT then [] else rel_path as)"
  have b: "b = join_with [SLASH] as"
    using assms(1) by (auto simp: b_def rel_path_def join_proper_ne)
  have t: "rel_path bs = join_with [SLASH] bs" using assms(3) by (simp add: rel_path_def)
  have "path_rel (rel_path as) (rel_path bs) =
     (if is_abs b \<noteq> is_abs (rel_path bs) then Inl (rel_error (rel_path as) (rel_path bs))
      else case strip_common (path_elems b) (path_elems (rel_path bs)) of (us, vs) \<Rightarrow>
        if us \<noteq> [] \<and> hd us = DOTDOT then Inl (rel_error (rel_path as) (rel_path bs))
        else Inr (join_with [SLASH] (map (\<lambda>_. DOTDOT) us @ vs)))"
    unfolding path_rel_def path_clean_rel_path [OF assms(1)] path_clean_rel_path [OF assms(2)]
      Let_def b_def by (simp only: ne if_False)
  also have "\<dots> = Inr (join_with [SLASH] (map (\<lambda>_. DOTDOT) us @ vs))"
    using us by (simp add: b t is_abs_join_proper path_elems_join assms(1,2) sc)
  finally show ?thesis using False sc by simp
qed

lemma path_split_dir_Nil: "fst (path_split p) = [] \<longleftrightarrow> SLASH \<notin> set p"
  by (auto simp: path_split_def)

lemma join_slash_free:
  assumes "\<And>c. c \<in> set cs \<Longrightarrow> SLASH \<notin> set c"
  shows "SLASH \<notin> set (join_with [SLASH] cs) \<longleftrightarrow> length cs \<le> 1"
  using assms by (induction cs rule: induct_list012) auto

text \<open>
  \<open>Rel\<close> followed by \<open>Split\<close> is the test the directory listings use for "is an entry of":
  the directory part is empty for a child, for the directory itself and for its parent
  only.
\<close>

lemma rel_split_child:
  assumes "all_proper as" and "all_proper bs" and "bs \<noteq> []"
    and "as \<noteq> bs" and "\<not> strict_prefix bs as"
    and "path_rel (rel_path as) (rel_path bs) = Inr r"
  shows "fst (path_split r) = [] \<longleftrightarrow> (\<exists>c. bs = as @ [c])"
proof -
  obtain us vs where sc: "strip_common as bs = (us, vs)" by force
  then obtain p where p: "as = p @ us" "bs = p @ vs" using strip_common_decomp [OF sc] by blast
  have r: "r = join_with [SLASH] (map (\<lambda>_. DOTDOT) us @ vs)"
    using assms(4,6) sc unfolding path_rel_canonical [OF assms(1-3)] by simp
  have pv: "all_proper vs" using assms(2) p(2) by simp
  have "\<And>c. c \<in> set (map (\<lambda>_. DOTDOT) us @ vs) \<Longrightarrow> SLASH \<notin> set c"
    using all_proper_no_slash [OF pv] by (auto split: if_splits)
  then have eq: "fst (path_split r) = [] \<longleftrightarrow> length us + length vs \<le> 1"
    using join_slash_free [of "map (\<lambda>_. DOTDOT) us @ vs"] by (simp add: path_split_dir_Nil r)
  have vs: "vs \<noteq> []"
    using assms(4,5) unfolding p by (auto simp: strict_prefix_def)
  have "length us + length vs \<le> 1 \<longleftrightarrow> us = [] \<and> (\<exists>c. vs = [c])"
    using vs by (cases us; cases vs) simp_all
  also have "\<dots> \<longleftrightarrow> (\<exists>c. bs = as @ [c])"
  proof
    assume "us = [] \<and> (\<exists>c. vs = [c])"
    then show "\<exists>c. bs = as @ [c]" using p by auto
  next
    assume "\<exists>c. bs = as @ [c]"
    then obtain c where "bs = as @ [c]" by blast
    then have "strip_common as bs = ([], [c])"
      using strip_common_append [of as "[]" "[c]"] by simp
    then show "us = [] \<and> (\<exists>c. vs = [c])" using sc by simp
  qed
  finally show ?thesis using eq by simp
qed

lemma path_rel_canonical_Inr:
  assumes "all_proper as" and "all_proper bs" and "bs \<noteq> []"
  obtains r where "path_rel (rel_path as) (rel_path bs) = Inr r"
  using path_rel_canonical [OF assms] that
  by (cases "as = bs"; cases "strip_common as bs") simp_all

lemma path_rel_self [simp]: "path_rel p p = Inr DOT"
  by (simp add: path_rel_def)

lemma rev_takeWhile_free: "c \<notin> set f \<Longrightarrow> rev (takeWhile (\<lambda>x. x \<noteq> c) (rev f)) = f"
  by (subst takeWhile_eq_all_conv [THEN iffD2]) auto

lemma path_split_append:
  "SLASH \<notin> set f \<Longrightarrow> path_split (d @ SLASH # f) = (d @ [SLASH], f)"
  by (auto simp: path_split_def dropWhile_append3 takeWhile_tail rev_takeWhile_free)

lemma path_base_join [path_simps]:
  assumes "all_proper cs" and "cs \<noteq> []"
  shows "path_base (join_with [SLASH] cs) = last cs"
proof -
  obtain ds c where cs: "cs = ds @ [c]" using assms(2) by (metis append_butlast_last_id)
  with assms(1) have c: "c \<noteq> []" "SLASH \<notin> set c" by (auto simp: proper_def)
  have lst: "last c \<noteq> SLASH" using c by (metis last_in_set)
  show ?thesis
  proof (cases "ds = []")
    case True
    have "path_split c = ([], c)" using c by (auto simp: path_split_def rev_takeWhile_free)
    with True cs c lst show ?thesis by (simp add: path_base_def trim_right_id)
  next
    case False
    then have j: "join_with [SLASH] cs = join_with [SLASH] ds @ SLASH # c"
      by (simp add: cs join_with_append)
    have "last (join_with [SLASH] ds @ SLASH # c) \<noteq> SLASH" using c lst by simp
    then have "trim_right SLASH (join_with [SLASH] cs) = join_with [SLASH] ds @ SLASH # c"
      unfolding j by (intro trim_right_id) simp
    with c show ?thesis unfolding j by (simp add: path_base_def path_split_append cs)
  qed
qed

end
