(* ===== verification/P9.thy ===== *)
theory P9
  imports GoPath
begin

text \<open>
  The vocabulary of the 9P servers: QIDs, attributes and directory entries as the
  \<open>p9\<close> package declares them, with the fields the repository uses, and the interface
  \<open>p9.File\<close> as a record of operations over a world of type \<open>'w\<close>.

  The \<open>p9\<close> package is not part of the repository. What the servers take from it is the
  record \<open>p9lib\<close>, an argument of every definition that uses it: the QID type it computes
  for a file mode, the test that open flags ask for reading only, and its directory mode
  bit. QID types are named, not numbered; \<open>uint64\<close> paths and offsets are natural numbers,
  because every one of them is an index that fits.
\<close>

datatype qid_type = TypeDir | TypeSymlink | QType u8

record qid =
  q_type :: qid_type
  q_version :: u32
  q_path :: nat

definition zero_qid :: qid where
  "zero_qid = \<lparr>q_type = QType 0, q_version = 0, q_path = 0\<rparr>"

record attr_mask =
  am_mode :: bool
  am_uid :: bool
  am_gid :: bool
  am_nlink :: bool
  am_rdev :: bool
  am_size :: bool
  am_blocks :: bool
  am_atime :: bool
  am_mtime :: bool
  am_ctime :: bool

definition mask_none :: attr_mask where
  "mask_none = \<lparr>am_mode = False, am_uid = False, am_gid = False, am_nlink = False,
     am_rdev = False, am_size = False, am_blocks = False, am_atime = False,
     am_mtime = False, am_ctime = False\<rparr>"

definition mask_all :: attr_mask where
  "mask_all = \<lparr>am_mode = True, am_uid = True, am_gid = True, am_nlink = True,
     am_rdev = True, am_size = True, am_blocks = True, am_atime = True,
     am_mtime = True, am_ctime = True\<rparr>"

record attr =
  a_mode :: u32
  a_uid :: u32
  a_gid :: u32
  a_nlink :: u64
  a_rdev :: u64
  a_size :: u64
  a_blocksize :: u64
  a_blocks :: u64
  a_atime_sec :: u64
  a_atime_nsec :: u64
  a_mtime_sec :: u64
  a_mtime_nsec :: u64
  a_ctime_sec :: u64
  a_ctime_nsec :: u64

record dirent =
  de_qid :: qid
  de_type :: qid_type
  de_name :: string
  de_offset :: nat

record p9lib =
  qid_type_of_os :: "u32 \<Rightarrow> qid_type"
  mode_is_read_only :: "u32 \<Rightarrow> bool"
  mode_directory :: u32

text \<open>An instance of the package's part, for evaluation.\<close>

definition sample_p9 :: p9lib where
  "sample_p9 = \<lparr>qid_type_of_os = (\<lambda>m. QType 0), mode_is_read_only = (\<lambda>m. m = 0),
     mode_directory = 0x4000\<rparr>"

section \<open>The file interface\<close>

text \<open>
  The operations of \<open>p9.File\<close> that one server calls on another's files. A file is a
  handle of type \<open>'f\<close>; what a call changes is in the world \<open>'w\<close>. \<open>Open\<close> and
  \<open>Readdir\<close> return their values beside the error, as their callers look at both.
\<close>

record ('w, 'f) p9_ops =
  op_walk :: "'f \<Rightarrow> string list \<Rightarrow> 'w \<Rightarrow> (qid list \<times> 'f) res \<times> 'w"
  op_getattr :: "'f \<Rightarrow> attr_mask \<Rightarrow> 'w \<Rightarrow> (qid \<times> attr_mask \<times> attr) res \<times> 'w"
  op_open :: "'f \<Rightarrow> u32 \<Rightarrow> 'w \<Rightarrow> (qid \<times> nat \<times> goerror option) res \<times> 'w"
  op_readdir :: "'f \<Rightarrow> nat \<Rightarrow> nat \<Rightarrow> 'w \<Rightarrow> (dirent list \<times> goerror option) res \<times> 'w"
  op_close :: "'f \<Rightarrow> 'w \<Rightarrow> goerror option \<times> 'w"

text \<open>
  What a server of a union relies on to walk, to look at attributes and to open: a handle stays
  valid in every later world, a walk gives a valid handle and one QID per name (one for the
  clone walk), and none of these calls panics on a valid handle.
\<close>

locale p9_walker =
  fixes ops :: "('w, 'f) p9_ops"
    and valid :: "'f \<Rightarrow> bool"
  assumes walk_valid: "valid f \<Longrightarrow> op_walk ops f ns w = (Ok (qs, g), w') \<Longrightarrow> valid g"
    and walk_qids: "valid f \<Longrightarrow> op_walk ops f ns w = (Ok (qs, g), w') \<Longrightarrow>
          length qs = max 1 (length ns)"
    and walk_safe: "valid f \<Longrightarrow> \<not> panics (fst (op_walk ops f ns w))"
    and getattr_safe: "valid f \<Longrightarrow> \<not> panics (fst (op_getattr ops f am w))"
    and open_safe: "valid f \<Longrightarrow> \<not> panics (fst (op_open ops f fl w))"
begin

text \<open>Walking to a file and asking for its attributes, as 9P's combined request does.\<close>

lemma walk_getattr_safe:
  assumes "valid f" and "op_walk ops f ns w = (Ok (qs, g), w')"
  shows "\<not> panics (fst (op_getattr ops g am w'))"
  using walk_valid [OF assms] by (rule getattr_safe)

end

text \<open>A server that can list its directories from every offset below a limit.\<close>

locale p9_lister = p9_walker ops valid
  for ops :: "('w, 'f) p9_ops" and valid :: "'f \<Rightarrow> bool" +
  fixes lim :: nat
  assumes readdir_below: "valid f \<Longrightarrow> off < lim \<Longrightarrow> \<not> panics (fst (op_readdir ops f off cnt w))"

text \<open>A server that can list them from every offset.\<close>

locale p9_server = p9_walker ops valid
  for ops :: "('w, 'f) p9_ops" and valid :: "'f \<Rightarrow> bool" +
  assumes readdir_safe: "valid f \<Longrightarrow> \<not> panics (fst (op_readdir ops f off cnt w))"

sublocale p9_server \<subseteq> lister: p9_lister ops valid lim for lim
  by unfold_locales (rule readdir_safe)

text \<open>A server none of whose calls changes anything, such as one over an archive.\<close>

locale stateless_server = p9_server ops valid
  for ops :: "('w, 'f) p9_ops" and valid :: "'f \<Rightarrow> bool" +
  assumes walk_world: "snd (op_walk ops f ns w) = w"
    and getattr_world: "snd (op_getattr ops f am w) = w"
    and open_world: "snd (op_open ops f fl w) = w"
    and readdir_world: "snd (op_readdir ops f off cnt w) = w"
    and close_world: "snd (op_close ops f w) = w"
begin

lemmas worlds = walk_world getattr_world open_world readdir_world close_world

lemma call_pairs:
  "op_walk ops f ns w = (fst (op_walk ops f ns w), w)"
  "op_open ops f fl w = (fst (op_open ops f fl w), w)"
  "op_readdir ops f off cnt w = (fst (op_readdir ops f off cnt w), w)"
  using worlds by (simp_all add: prod_eq_iff)

end

end
