(* ===== verification/CpioArchive.thy ===== *)
theory CpioArchive
  imports GoPath
begin

text \<open>
  CPIO archives as both file servers hold them: the records in archive order and the table
  from names to record numbers. The record type is that of u-root's \<open>cpio\<close> package with
  the fields the servers read; a record's content is its \<open>io.ReaderAt\<close>, a function of
  the buffer length and the offset that gives the bytes read and an error.

  \<open>well_formed\<close> states what the servers assume of an archive (canonical distinct names,
  the root first, every directory before its entries); under it the directory scan both
  servers share returns exactly the entries of the directory.
\<close>

record cpio_info =
  i_name :: string
  i_mode :: u64
  i_uid :: u64
  i_gid :: u64
  i_nlink :: u64
  i_mtime :: u64
  i_filesize :: u64
  i_dev :: u64

type_synonym reader_at = "nat \<Rightarrow> int \<Rightarrow> string \<times> goerror option"

record cpio_rec =
  r_info :: cpio_info
  r_readat :: reader_at

abbreviation rec_name :: "cpio_rec \<Rightarrow> string" where
  "rec_name r \<equiv> i_name (r_info r)"

definition rec_table :: "cpio_rec list \<Rightarrow> string \<Rightarrow> nat option" where
  "rec_table recs = index_map (map rec_name recs)"

text \<open>
  The directory scan: from record \<open>k\<close> on, the numbers of the records whose name relative to
  \<open>dn\<close> has no directory part; it ends at the first name that has no relative name.
\<close>

fun scan_children :: "string \<Rightarrow> nat \<Rightarrow> cpio_rec list \<Rightarrow> nat list" where
  "scan_children dn k [] = []"
| "scan_children dn k (r # rs) =
     (case path_rel dn (rec_name r) of
        Inl _ \<Rightarrow> []
      | Inr b \<Rightarrow> if fst (path_split b) \<noteq> [] then scan_children dn (Suc k) rs
                  else k # scan_children dn (Suc k) rs)"

section \<open>Well-formed archives\<close>

definition name_elems :: "string \<Rightarrow> string list" where
  "name_elems n = (if n = DOT then [] else split_on SLASH n)"

abbreviation rec_elems :: "cpio_rec list \<Rightarrow> nat \<Rightarrow> string list" where
  "rec_elems recs i \<equiv> name_elems (rec_name (recs ! i))"

definition well_formed :: "cpio_rec list \<Rightarrow> bool" where
  "well_formed recs =
     (recs \<noteq> [] \<and> rec_name (hd recs) = DOT
      \<and> distinct (map rec_name recs)
      \<and> list_all (\<lambda>r. all_proper (name_elems (rec_name r))) recs
      \<and> list_all (\<lambda>i. rel_path (butlast (rec_elems recs i)) \<in> set (map rec_name (take i recs)))
          [1..<length recs])"

text \<open>Record \<open>j\<close> is an entry of the directory that is record \<open>i\<close>.\<close>

definition is_child :: "cpio_rec list \<Rightarrow> nat \<Rightarrow> nat \<Rightarrow> bool" where
  "is_child recs i j = (rec_elems recs j \<noteq> [] \<and> butlast (rec_elems recs j) = rec_elems recs i)"

lemma rel_path_name_elems [simp]: "rel_path (name_elems n) = n"
  by (simp add: name_elems_def rel_path_def)

lemma name_elems_rel_path [path_simps]: "all_proper cs \<Longrightarrow> name_elems (rel_path cs) = cs"
  by (cases "cs = []") (simp_all add: name_elems_def rel_path_def join_proper_ne split_join_proper)

lemma wf_proper: "well_formed recs \<Longrightarrow> i < length recs \<Longrightarrow> all_proper (rec_elems recs i)"
  by (auto simp: well_formed_def list_all_iff)

lemma wf_distinct: "well_formed recs \<Longrightarrow> distinct (map rec_name recs)"
  by (simp add: well_formed_def)

lemma wf_root: "well_formed recs \<Longrightarrow> rec_elems recs 0 = []"
  by (auto simp: well_formed_def name_elems_def hd_conv_nth)

lemma wf_nonroot:
  assumes "well_formed recs" and "i < length recs" and "0 < i"
  shows "rec_elems recs i \<noteq> []"
proof
  assume "rec_elems recs i = []"
  then have "rec_name (recs ! i) = rec_name (recs ! 0)"
    using wf_root [OF assms(1)] by (metis rel_path_name_elems)
  moreover have "0 < length recs" using assms(2) by linarith
  ultimately have "map rec_name recs ! i = map rec_name recs ! 0"
    using assms(2) by simp
  then have "i = 0"
    using wf_distinct [OF assms(1)] assms(2,3) by (subst (asm) nth_eq_iff_index_eq) auto
  with assms(3) show False by simp
qed

lemma wf_inject:
  assumes "well_formed recs" and "i < length recs" and "j < length recs"
    and "rec_elems recs i = rec_elems recs j"
  shows "i = j"
proof -
  have "rec_name (recs ! i) = rec_name (recs ! j)"
    using assms(4) by (metis rel_path_name_elems)
  then have "map rec_name recs ! i = map rec_name recs ! j"
    using assms(2,3) by simp
  then show ?thesis
    using wf_distinct [OF assms(1)] assms(2,3) by (subst (asm) nth_eq_iff_index_eq) auto
qed

lemma wf_parent:
  assumes "well_formed recs" and "i < length recs" and "0 < i"
  obtains j where "j < i" and "rec_elems recs j = butlast (rec_elems recs i)"
proof -
  have "i \<in> set [1..<length recs]" using assms by simp
  then have "rel_path (butlast (rec_elems recs i)) \<in> set (map rec_name (take i recs))"
    using assms(1) by (simp only: well_formed_def list_all_iff)
  then obtain j where j: "j < i" "rec_name (recs ! j) = rel_path (butlast (rec_elems recs i))"
    using assms(2) by (fastforce simp: in_set_conv_nth)
  have "all_proper (butlast (rec_elems recs i))"
    using wf_proper [OF assms(1,2)] by (auto simp: list_all_iff dest: in_set_butlastD)
  then have "rec_elems recs j = butlast (rec_elems recs i)"
    using j(2) by (simp add: name_elems_rel_path)
  with j(1) show thesis by (rule that)
qed

text \<open>A directory comes before everything below it.\<close>

lemma wf_ancestor_before:
  "well_formed recs \<Longrightarrow> i < length recs \<Longrightarrow> j < length recs \<Longrightarrow>
     strict_prefix (rec_elems recs j) (rec_elems recs i) \<Longrightarrow> j < i"
proof (induction i rule: less_induct)
  case (less i)
  have "0 < i"
    using less.prems wf_root [of recs] by (cases i) auto
  with less.prems obtain k where k: "k < i" "rec_elems recs k = butlast (rec_elems recs i)"
    by (metis wf_parent)
  have "prefix (rec_elems recs j) (butlast (rec_elems recs i))"
    using less.prems(4) by (metis append_butlast_last_id prefix_snoc strict_prefix_def strict_prefix_simps(1))
  then consider "rec_elems recs j = rec_elems recs k" | "strict_prefix (rec_elems recs j) (rec_elems recs k)"
    unfolding k(2) strict_prefix_def by blast
  then show ?case
  proof cases
    case 1
    then have "j = k" using less.prems k(1) by (intro wf_inject [of recs]) auto
    with k(1) show ?thesis by simp
  next
    case 2
    then have "j < k" using less.IH [OF k(1)] less.prems k(1) by auto
    with k(1) show ?thesis by simp
  qed
qed

lemma wf_ancestor_present:
  assumes "well_formed recs"
  shows "i < length recs \<Longrightarrow> prefix cs (rec_elems recs i) \<Longrightarrow> \<exists>j < length recs. rec_elems recs j = cs"
proof (induction i rule: less_induct)
  case (less i)
  show ?case
  proof (cases "cs = rec_elems recs i")
    case False
    then have "0 < i" using less.prems wf_root [OF assms] by (cases i) auto
    then obtain k where k: "k < i" "rec_elems recs k = butlast (rec_elems recs i)"
      using assms less.prems(1) by (metis wf_parent)
    have "prefix cs (rec_elems recs k)"
      using less.prems(2) False unfolding k(2)
      by (metis append_butlast_last_id butlast.simps(1) prefix_snoc)
    with less.IH [OF k(1)] k(1) less.prems(1) show ?thesis by auto
  qed (use less.prems in blast)
qed

lemma is_child_after:
  assumes "well_formed recs" and "i < length recs" and "j < length recs" and "is_child recs i j"
  shows "i < j"
proof -
  have "rec_elems recs j = rec_elems recs i @ [last (rec_elems recs j)]"
    using assms(4) by (metis append_butlast_last_id is_child_def)
  then have "strict_prefix (rec_elems recs i) (rec_elems recs j)"
    by (metis prefix_order.le_less prefixI self_append_conv not_Cons_self2)
  with assms show ?thesis by (intro wf_ancestor_before [of recs j i])
qed

section \<open>The scan is the directory\<close>

lemma scan_step:
  assumes wf: "well_formed recs" and i: "i < length recs" and j: "i < j" "j < length recs"
  obtains b where "path_rel (rec_name (recs ! i)) (rec_name (recs ! j)) = Inr b"
    and "fst (path_split b) = [] \<longleftrightarrow> is_child recs i j"
proof -
  let ?a = "rec_elems recs i" and ?b = "rec_elems recs j"
  have pa: "all_proper ?a" "all_proper ?b" using wf i j by (auto intro: wf_proper)
  have nb: "?b \<noteq> []" using wf j by (intro wf_nonroot) auto
  have ne: "?a \<noteq> ?b" using wf_inject [OF wf i j(2)] j(1) by blast
  have ns: "\<not> strict_prefix ?b ?a" using wf_ancestor_before [OF wf i j(2)] j(1) by auto
  obtain b where b: "path_rel (rel_path ?a) (rel_path ?b) = Inr b"
    using path_rel_canonical_Inr [OF pa nb] by blast
  have "fst (path_split b) = [] \<longleftrightarrow> (\<exists>c. ?b = ?a @ [c])"
    using rel_split_child [OF pa nb ne ns b] .
  also have "\<dots> \<longleftrightarrow> is_child recs i j"
    using nb by (auto simp: is_child_def) (metis append_butlast_last_id)
  finally show thesis using b that by simp
qed

lemma scan_children_wf:
  assumes wf: "well_formed recs" and i: "i < length recs"
  shows "i < k \<Longrightarrow> k \<le> length recs \<Longrightarrow>
    scan_children (rec_name (recs ! i)) k (drop k recs) = filter (is_child recs i) [k..<length recs]"
proof (induction "length recs - k" arbitrary: k)
  case 0
  then show ?case by simp
next
  case (Suc d)
  then have k: "k < length recs" by simp
  then have d: "drop k recs = recs ! k # drop (Suc k) recs" by (simp add: Cons_nth_drop_Suc)
  have u: "[k..<length recs] = k # [Suc k..<length recs]" using k by (simp add: upt_conv_Cons)
  have IH: "scan_children (rec_name (recs ! i)) (Suc k) (drop (Suc k) recs) =
      filter (is_child recs i) [Suc k..<length recs]"
    using Suc k by simp
  obtain b where b: "path_rel (rec_name (recs ! i)) (rec_name (recs ! k)) = Inr b"
    "fst (path_split b) = [] \<longleftrightarrow> is_child recs i k"
    using scan_step [OF wf i Suc.prems(1) k] by blast
  show ?case unfolding d u using b IH by simp
qed

lemma filter_children_from:
  assumes "well_formed recs" and "i < length recs"
  shows "filter (is_child recs i) [Suc i..<length recs] = filter (is_child recs i) [0..<length recs]"
proof -
  have "[0..<length recs] = [0..<Suc i] @ [Suc i..<length recs]"
    using assms(2) by (metis Suc_leI upt_add_eq_append le0 le_add_diff_inverse)
  moreover have "filter (is_child recs i) [0..<Suc i] = []"
  proof (rule filter_False, rule ballI)
    fix x assume "x \<in> set [0..<Suc i]"
    then show "\<not> is_child recs i x"
      using is_child_after [OF assms, of x] assms(2) by fastforce
  qed
  ultimately show ?thesis by (simp only: filter_append append_Nil)
qed

lemma rec_table_Some_iff:
  assumes "well_formed recs"
  shows "rec_table recs n = Some i \<longleftrightarrow> i < length recs \<and> rec_name (recs ! i) = n"
proof
  assume "rec_table recs n = Some i"
  then show "i < length recs \<and> rec_name (recs ! i) = n"
    using index_map_bound by (fastforce simp: rec_table_def)
next
  assume "i < length recs \<and> rec_name (recs ! i) = n"
  then show "rec_table recs n = Some i"
    using index_map_distinct [OF wf_distinct [OF assms], of i] by (simp add: rec_table_def)
qed

lemma rec_table_bound: "rec_table recs n = Some i \<Longrightarrow> i < length recs \<and> rec_name (recs ! i) = n"
  using index_map_bound by (fastforce simp: rec_table_def)

lemma rec_table_ancestor:
  assumes "well_formed recs" and "all_proper (cs @ ds)"
    and "rec_table recs (rel_path (cs @ ds)) \<noteq> None"
  shows "rec_table recs (rel_path cs) \<noteq> None"
proof -
  from assms obtain i where i: "i < length recs" "rec_elems recs i = cs @ ds"
    by (auto simp: rec_table_Some_iff name_elems_rel_path)
  then obtain j where "j < length recs" "rec_elems recs j = cs"
    using wf_ancestor_present [OF assms(1), of i cs] by auto
  then have "rec_table recs (rel_path cs) = Some j"
    using assms(1) by (simp add: rec_table_Some_iff) (metis rel_path_name_elems)
  then show ?thesis by simp
qed

section \<open>A small archive\<close>

text \<open>The root, a directory with one file in it, and a symbolic link.\<close>

definition sample_rec :: "string \<Rightarrow> u64 \<Rightarrow> string \<Rightarrow> cpio_rec" where
  "sample_rec n mode content =
     \<lparr>r_info = \<lparr>i_name = n, i_mode = mode, i_uid = 0, i_gid = 0, i_nlink = 1, i_mtime = 0,
        i_filesize = of_nat (length content), i_dev = 0\<rparr>,
      r_readat = (\<lambda>k off.
        let d = take k (drop (nat off) content) in (d, if length d < k then Some EOF_err else None))\<rparr>"

definition sample_recs :: "cpio_rec list" where
  "sample_recs = [sample_rec DOT 0x41ed [], sample_rec ''a'' 0x41ed [],
     sample_rec ''a/b'' 0x81a4 ''hi'', sample_rec ''l'' 0xa1ff ''a/b'']"

lemma sample_wf: "well_formed sample_recs"
  by code_simp

end
