(* ===== verification/Cpio9p.thy ===== *)
theory Cpio9p
  imports P9 CpioArchive
begin

text \<open>
  The read-only 9P server over a CPIO archive, \<open>client/cpio9p.go\<close>: \<open>CPIO9P\<close> holds the
  records and the name table, a \<open>CPIO9PFID\<close> is a server and a record number. Every
  operation of the file is a definition here; none changes the server, which is why none
  returns one. The lemmas show that the FIDs clients can obtain never index out of range,
  what a walk and a directory listing return on a well-formed archive, and that the two
  agree.
\<close>

unbundle bit_operations_syntax

section \<open>State and construction\<close>

record CPIO9P =
  fs_m :: "string \<Rightarrow> nat option"
  fs_recs :: "cpio_rec list"

record CPIO9PFID =
  fid_fs :: CPIO9P
  fid_path :: nat

text \<open>
  \<open>NewCPIO9PReaderAt\<close>: \<open>fmt\<close> is the error of \<open>cpio.Format\<close> and \<open>read_all\<close> what
  \<open>cpio.ReadAllRecords\<close> returns, the records and an error.
\<close>

definition NewCPIO9PReaderAt ::
    "goerror option \<Rightarrow> cpio_rec list \<times> goerror option \<Rightarrow> CPIO9P res" where
  "NewCPIO9PReaderAt fmt read_all =
     (case fmt of Some e \<Rightarrow> Fail e
      | None \<Rightarrow>
          (case read_all of (recs, err) \<Rightarrow>
             if recs = [] then Fail (Wrapf ''cpio:No records: %w'' [] (Some ErrInvalid))
             else (case err of Some e \<Rightarrow> Fail e
                   | None \<Rightarrow> Ok \<lparr>fs_m = rec_table recs, fs_recs = recs\<rparr>)))"

definition NewCPIO9P ::
    "(string \<Rightarrow> goerror + 'r) \<Rightarrow> goerror option \<Rightarrow> ('r \<Rightarrow> cpio_rec list \<times> goerror option)
       \<Rightarrow> string \<Rightarrow> CPIO9P res" where
  "NewCPIO9P os_open fmt read_all c =
     (case os_open c of Inl e \<Rightarrow> Fail e | Inr f \<Rightarrow> NewCPIO9PReaderAt fmt (read_all f))"

definition CPIO9P_Attach :: "CPIO9P \<Rightarrow> CPIO9PFID res" where
  "CPIO9P_Attach s = Ok \<lparr>fid_fs = s, fid_path = 0\<rparr>"

section \<open>Records and QIDs\<close>

text \<open>The guard lets a path equal to the number of records through to the index.\<close>

definition CPIO9PFID_rec :: "CPIO9PFID \<Rightarrow> cpio_rec res" where
  "CPIO9PFID_rec l =
     (if length (fs_recs (fid_fs l)) < fid_path l then Fail ErrNotExist
      else index_slice (fs_recs (fid_fs l)) (fid_path l))"

definition CPIO9PFID_info :: "p9lib \<Rightarrow> CPIO9PFID \<Rightarrow> (qid \<times> cpio_info) res" where
  "CPIO9PFID_info p l = bind_res (CPIO9PFID_rec l) (\<lambda>r.
     let fi = r_info r;
         t = qid_type_of_os p (ucast (i_mode fi));
         kind = i_mode fi AND 0xf000;
         t' = (if kind = 0xa000 then TypeSymlink else if kind = 0x4000 then TypeDir else t)
     in Ok (\<lparr>q_type = t', q_version = 0, q_path = fid_path l\<rparr>, fi))"

section \<open>Walk\<close>

text \<open>
  The loop over the names: \<open>full\<close> is the path so far, \<open>qids\<close> the QIDs collected and
  \<open>at\<close> the record reached.
\<close>

fun walk_names :: "p9lib \<Rightarrow> CPIO9P \<Rightarrow> string \<Rightarrow> string list \<Rightarrow> qid list \<Rightarrow> nat
    \<Rightarrow> (qid list \<times> CPIO9PFID) res" where
  "walk_names p s full [] qids at = Ok (qids, \<lparr>fid_fs = s, fid_path = at\<rparr>)"
| "walk_names p s full (name # names) qids at =
     (let full' = path_join [full, name] in
      case fs_m s full' of
        None \<Rightarrow> Fail ErrNotExist
      | Some ix \<Rightarrow> bind_res (CPIO9PFID_info p \<lparr>fid_fs = s, fid_path = ix\<rparr>) (\<lambda>(qid, fi).
          walk_names p s full' names (qids @ [qid]) ix))"

definition CPIO9PFID_Walk :: "p9lib \<Rightarrow> CPIO9PFID \<Rightarrow> string list \<Rightarrow> (qid list \<times> CPIO9PFID) res" where
  "CPIO9PFID_Walk p l names = bind_res (CPIO9PFID_rec l) (\<lambda>r.
     if names = [] then
       bind_res (CPIO9PFID_info p l) (\<lambda>(qid, fi).
         Ok ([qid], \<lparr>fid_fs = fid_fs l, fid_path = fid_path l\<rparr>))
     else walk_names p (fid_fs l) (if rec_name r \<noteq> DOT then rec_name r else []) names [] (fid_path l))"

section \<open>Open, reads and directories\<close>

text \<open>\<open>Open\<close> returns the QID beside its error, the zero QID if there is none.\<close>

definition CPIO9PFID_Open :: "p9lib \<Rightarrow> CPIO9PFID \<Rightarrow> u32 \<Rightarrow> (qid \<times> nat \<times> goerror option) res" where
  "CPIO9PFID_Open p l mode =
     (case CPIO9PFID_info p l of
        Panic s \<Rightarrow> Panic s
      | Fail e \<Rightarrow> Ok (zero_qid, 0, Some e)
      | Ok (qid, fi) \<Rightarrow>
          if \<not> mode_is_read_only p mode then Ok (qid, 0, Some ErrPermission)
          else Ok (qid, 0, None))"

text \<open>The count of bytes read, the bytes and the error.\<close>

definition CPIO9PFID_ReadAt :: "CPIO9PFID \<Rightarrow> nat \<Rightarrow> int \<Rightarrow> (int \<times> string \<times> goerror option) res" where
  "CPIO9PFID_ReadAt l n offset =
     (case CPIO9PFID_rec l of
        Panic s \<Rightarrow> Panic s
      | Fail e \<Rightarrow> Ok (-1, [], Some e)
      | Ok r \<Rightarrow> (case r_readat r n offset of (d, e) \<Rightarrow> Ok (int (length d), d, e)))"

definition CPIO9PFID_readdir :: "CPIO9PFID \<Rightarrow> nat list res" where
  "CPIO9PFID_readdir l = bind_res (CPIO9PFID_rec l) (\<lambda>r.
     Ok (scan_children (rec_name r) (fid_path l + 1) (drop (fid_path l + 1) (fs_recs (fid_fs l)))))"

text \<open>The entries of the listed records; one whose record cannot be read is left out.\<close>

fun list_entries :: "p9lib \<Rightarrow> CPIO9P \<Rightarrow> nat list \<Rightarrow> dirent list res" where
  "list_entries p s [] = Ok []"
| "list_entries p s (i # is) =
     (case CPIO9PFID_info p \<lparr>fid_fs = s, fid_path = i\<rparr> of
        Panic m \<Rightarrow> Panic m
      | Fail e \<Rightarrow> list_entries p s is
      | Ok (qid, fi) \<Rightarrow>
          (case CPIO9PFID_rec \<lparr>fid_fs = s, fid_path = i\<rparr> of
             Panic m \<Rightarrow> Panic m
           | Fail e \<Rightarrow> list_entries p s is
           | Ok r \<Rightarrow> bind_res (list_entries p s is) (\<lambda>ds.
               Ok (\<lparr>de_qid = qid, de_type = q_type qid, de_name = path_base (rec_name r),
                    de_offset = i\<rparr> # ds))))"

definition CPIO9PFID_Readdir :: "p9lib \<Rightarrow> CPIO9PFID \<Rightarrow> nat \<Rightarrow> nat \<Rightarrow> dirent list res" where
  "CPIO9PFID_Readdir p l offset count =
     bind_res (CPIO9PFID_info p l) (\<lambda>(qid, fi).
     bind_res (CPIO9PFID_readdir l) (\<lambda>list.
       if length list < offset then Fail EOF_err
       else bind_res (list_entries p (fid_fs l) (drop offset list)) (\<lambda>ds.
         Ok (\<lparr>de_qid = qid, de_type = q_type qid, de_name = DOT, de_offset = fid_path l\<rparr> # ds))))"

text \<open>
  \<open>Readlink\<close> reads the whole record. A short read that reports no error gives the empty
  string and no error.
\<close>

definition CPIO9PFID_Readlink :: "CPIO9PFID \<Rightarrow> (string \<times> goerror option) res" where
  "CPIO9PFID_Readlink l =
     (case CPIO9PFID_rec l of
        Panic s \<Rightarrow> Panic s
      | Fail e \<Rightarrow> Ok ([], Some e)
      | Ok r \<Rightarrow>
          let size = unat (i_filesize (r_info r)) in
          (case r_readat r size 0 of (d, e) \<Rightarrow>
             if e \<noteq> None \<or> length d \<noteq> size then Ok ([], e) else Ok (d, None)))"

definition CPIO9PFID_GetAttr :: "p9lib \<Rightarrow> CPIO9PFID \<Rightarrow> attr_mask \<Rightarrow> (qid \<times> attr_mask \<times> attr) res" where
  "CPIO9PFID_GetAttr p l req = bind_res (CPIO9PFID_info p l) (\<lambda>(qid, fi).
     Ok (qid, mask_all,
       \<lparr>a_mode = ucast (i_mode fi), a_uid = ucast (i_uid fi), a_gid = ucast (i_gid fi),
        a_nlink = i_nlink fi, a_rdev = i_dev fi, a_size = i_filesize fi,
        a_blocksize = 4096, a_blocks = i_filesize fi div 4096,
        a_atime_sec = 0, a_atime_nsec = 0, a_mtime_sec = i_mtime fi, a_mtime_nsec = 0,
        a_ctime_sec = 0, a_ctime_nsec = 0\<rparr>))"

section \<open>Operations the server refuses or ignores\<close>

definition CPIO9PFID_WriteAt :: "CPIO9PFID \<Rightarrow> string \<Rightarrow> int \<Rightarrow> int \<times> goerror option" where
  "CPIO9PFID_WriteAt l p offset = (-1, Some ErrPermission)"

definition CPIO9PFID_Create ::
    "CPIO9PFID \<Rightarrow> string \<Rightarrow> u32 \<Rightarrow> u32 \<Rightarrow> CPIO9PFID option \<times> qid \<times> nat \<times> goerror option" where
  "CPIO9PFID_Create l name mode permissions = (None, zero_qid, 0, Some ErrPermission)"

definition CPIO9PFID_Mkdir :: "CPIO9PFID \<Rightarrow> string \<Rightarrow> u32 \<Rightarrow> qid \<times> goerror option" where
  "CPIO9PFID_Mkdir l name permissions = (zero_qid, Some ErrPermission)"

definition CPIO9PFID_Symlink :: "CPIO9PFID \<Rightarrow> string \<Rightarrow> string \<Rightarrow> qid \<times> goerror option" where
  "CPIO9PFID_Symlink l oldname newname = (zero_qid, Some ErrPermission)"

definition CPIO9PFID_Link :: "CPIO9PFID \<Rightarrow> 'f \<Rightarrow> string \<Rightarrow> goerror option" where
  "CPIO9PFID_Link l target newname = Some ErrPermission"

definition CPIO9PFID_UnlinkAt :: "CPIO9PFID \<Rightarrow> string \<Rightarrow> u32 \<Rightarrow> goerror option" where
  "CPIO9PFID_UnlinkAt l name flags = Some ErrPermission"

definition CPIO9PFID_Mknod :: "CPIO9PFID \<Rightarrow> string \<Rightarrow> u32 \<Rightarrow> u32 \<Rightarrow> u32 \<Rightarrow> qid \<times> goerror option" where
  "CPIO9PFID_Mknod l name mode major minor = (zero_qid, Some ENOSYS)"

definition CPIO9PFID_Rename :: "CPIO9PFID \<Rightarrow> 'f \<Rightarrow> string \<Rightarrow> goerror option" where
  "CPIO9PFID_Rename l directory name = Some ENOSYS"

definition CPIO9PFID_RenameAt :: "CPIO9PFID \<Rightarrow> string \<Rightarrow> 'f \<Rightarrow> string \<Rightarrow> goerror option" where
  "CPIO9PFID_RenameAt l oldName newDir newName = Some ENOSYS"

definition CPIO9PFID_StatFS :: "CPIO9PFID \<Rightarrow> goerror option" where
  "CPIO9PFID_StatFS l = Some ENOSYS"

definition CPIO9PFID_SetAttr :: "CPIO9PFID \<Rightarrow> 'm \<Rightarrow> 'a \<Rightarrow> goerror option" where
  "CPIO9PFID_SetAttr l msk att = Some ErrPermission"

definition CPIO9PFID_Flush :: "CPIO9PFID \<Rightarrow> goerror option" where
  "CPIO9PFID_Flush l = None"

definition CPIO9PFID_Lock :: "CPIO9PFID \<Rightarrow> nat \<times> goerror option" where
  "CPIO9PFID_Lock l = (0, None)"

section \<open>FIDs never index out of range\<close>

definition fid_ok :: "CPIO9PFID \<Rightarrow> bool" where
  "fid_ok l = (fid_path l < length (fs_recs (fid_fs l)) \<and>
               fs_m (fid_fs l) = rec_table (fs_recs (fid_fs l)))"

text \<open>The FIDs a client can obtain: the attached root and what walks return.\<close>

inductive fid_reach :: "p9lib \<Rightarrow> CPIO9P \<Rightarrow> CPIO9PFID \<Rightarrow> bool" for p s where
  attach: "CPIO9P_Attach s = Ok l \<Longrightarrow> fid_reach p s l"
| walk: "fid_reach p s l \<Longrightarrow> CPIO9PFID_Walk p l names = Ok (qids, l') \<Longrightarrow> fid_reach p s l'"

lemmas cpio_defs = CPIO9PFID_rec_def CPIO9PFID_info_def CPIO9PFID_Walk_def CPIO9PFID_Open_def
  CPIO9PFID_ReadAt_def CPIO9PFID_readdir_def CPIO9PFID_Readdir_def CPIO9PFID_Readlink_def
  CPIO9PFID_GetAttr_def

lemma rec_ok [simp]: "fid_path l < length (fs_recs (fid_fs l)) \<Longrightarrow>
    CPIO9PFID_rec l = Ok (fs_recs (fid_fs l) ! fid_path l)"
  by (simp add: CPIO9PFID_rec_def)

text \<open>The QID a record number gets.\<close>

definition rec_qid :: "p9lib \<Rightarrow> cpio_rec list \<Rightarrow> nat \<Rightarrow> qid" where
  "rec_qid p recs i =
     (let mode = i_mode (r_info (recs ! i)); kind = mode AND 0xf000 in
      \<lparr>q_type = (if kind = 0xa000 then TypeSymlink else if kind = 0x4000 then TypeDir
                 else qid_type_of_os p (ucast mode)),
       q_version = 0, q_path = i\<rparr>)"

lemma info_ok [simp]: "fid_path l < length (fs_recs (fid_fs l)) \<Longrightarrow>
    CPIO9PFID_info p l = Ok (rec_qid p (fs_recs (fid_fs l)) (fid_path l),
                             r_info (fs_recs (fid_fs l) ! fid_path l))"
  by (simp add: CPIO9PFID_info_def rec_qid_def Let_def)

lemma walk_names_ok:
  assumes "fs_m s = rec_table (fs_recs s)"
  shows "at < length (fs_recs s) \<Longrightarrow> walk_names p s full names qids at = Ok (qs, l) \<Longrightarrow>
     fid_fs l = s \<and> fid_path l < length (fs_recs s) \<and> length qs = length qids + length names"
proof (induction names arbitrary: full qids at)
  case Nil
  then show ?case by auto
next
  case (Cons n ns)
  then obtain ix where ix: "fs_m s (path_join [full, n]) = Some ix"
    by (auto simp: Let_def split: option.splits)
  then have b: "ix < length (fs_recs s)" using assms rec_table_bound by simp
  with Cons.prems ix have "walk_names p s (path_join [full, n]) ns (qids @ [rec_qid p (fs_recs s) ix]) ix
      = Ok (qs, l)"
    by (simp add: Let_def)
  from Cons.IH [OF b this] show ?case by simp
qed

lemma walk_names_safe:
  assumes "fs_m s = rec_table (fs_recs s)"
  shows "\<not> panics (walk_names p s full names qids at)"
proof (induction names arbitrary: full qids at)
  case (Cons n ns)
  show ?case
  proof (cases "fs_m s (path_join [full, n])")
    case None
    then show ?thesis by (simp add: Let_def)
  next
    case (Some ix)
    then have "ix < length (fs_recs s)" using assms rec_table_bound by simp
    with Some Cons.IH show ?thesis by (simp add: Let_def)
  qed
qed simp

lemma Walk_Nil:
  assumes "fid_ok l"
  shows "CPIO9PFID_Walk p l [] = Ok ([rec_qid p (fs_recs (fid_fs l)) (fid_path l)], l)"
  using assms by (simp add: CPIO9PFID_Walk_def fid_ok_def)

lemma Walk_names:
  assumes "fid_ok l" and "ns \<noteq> []"
  shows "CPIO9PFID_Walk p l ns =
    walk_names p (fid_fs l)
      (let n = rec_name (fs_recs (fid_fs l) ! fid_path l) in if n \<noteq> DOT then n else []) ns []
      (fid_path l)"
  using assms by (simp add: CPIO9PFID_Walk_def fid_ok_def)

lemma Walk_ok:
  assumes ok: "fid_ok l" and w: "CPIO9PFID_Walk p l ns = Ok (qs, l')"
  shows "fid_fs l' = fid_fs l \<and> fid_ok l' \<and> length qs = max 1 (length ns)"
proof (cases "ns = []")
  case True
  with ok w show ?thesis by (auto simp: Walk_Nil)
next
  case False
  have b: "fid_path l < length (fs_recs (fid_fs l))" and m: "fs_m (fid_fs l) = rec_table (fs_recs (fid_fs l))"
    using ok by (simp_all add: fid_ok_def)
  have "0 < length ns" using False by simp
  then have "max 1 (length ns) = length ns" by linarith
  with walk_names_ok [OF m b w [unfolded Walk_names [OF ok False]]] m show ?thesis
    by (simp add: fid_ok_def)
qed

text \<open>The last QID of a walk is that of the file it reaches.\<close>

lemma walk_names_last:
  assumes "fs_m s = rec_table (fs_recs s)"
  shows "walk_names p s full names qids at = Ok (qs, l) \<Longrightarrow> qids = [] \<or> last qids = rec_qid p (fs_recs s) at \<Longrightarrow>
     qs = [] \<or> last qs = rec_qid p (fs_recs s) (fid_path l)"
proof (induction names arbitrary: full qids at)
  case (Cons n ns)
  then obtain ix where ix: "fs_m s (path_join [full, n]) = Some ix"
    by (auto simp: Let_def split: option.splits)
  then have "ix < length (fs_recs s)" using assms rec_table_bound by simp
  with Cons ix show ?case by (simp add: Let_def)
qed auto

lemma Walk_last:
  assumes ok: "fid_ok l" and w: "CPIO9PFID_Walk p l ns = Ok (qs, l')"
  shows "last qs = rec_qid p (fs_recs (fid_fs l)) (fid_path l')"
proof (cases "ns = []")
  case False
  have "qs \<noteq> []" using Walk_ok [OF ok w] by auto
  with walk_names_last [OF _ w [unfolded Walk_names [OF ok False]]] ok show ?thesis by (simp add: fid_ok_def)
qed (use ok w in \<open>auto simp: Walk_Nil\<close>)

lemma Walk_safe: "fid_ok l \<Longrightarrow> \<not> panics (CPIO9PFID_Walk p l ns)"
  by (simp add: CPIO9PFID_Walk_def fid_ok_def walk_names_safe)

lemma list_entries_ok:
  "(\<And>i. i \<in> set is \<Longrightarrow> i < length (fs_recs s)) \<Longrightarrow>
   list_entries p s is =
     Ok (map (\<lambda>i. \<lparr>de_qid = rec_qid p (fs_recs s) i, de_type = q_type (rec_qid p (fs_recs s) i),
                   de_name = path_base (rec_name (fs_recs s ! i)), de_offset = i\<rparr>) is)"
  by (induction "is") auto

lemma scan_children_bound: "i \<in> set (scan_children dn k rs) \<Longrightarrow> k \<le> i \<and> i < k + length rs"
proof (induction rs arbitrary: k)
  case (Cons r rs)
  then show ?case
    by (cases "path_rel dn (rec_name r)") (auto split: if_splits dest!: Cons.IH)
qed simp

lemma readdir_bound:
  "fid_ok l \<Longrightarrow> CPIO9PFID_readdir l = Ok is \<Longrightarrow> i \<in> set is \<Longrightarrow> i < length (fs_recs (fid_fs l))"
  by (auto simp: CPIO9PFID_readdir_def fid_ok_def dest!: scan_children_bound)

lemma Readdir_safe: "fid_ok l \<Longrightarrow> \<not> panics (CPIO9PFID_Readdir p l off cnt)"
proof -
  assume ok: "fid_ok l"
  then obtain js where js: "CPIO9PFID_readdir l = Ok js"
    by (auto simp: CPIO9PFID_readdir_def fid_ok_def)
  have "\<And>i. i \<in> set (drop off js) \<Longrightarrow> i < length (fs_recs (fid_fs l))"
    using readdir_bound [OF ok js] by (meson in_set_dropD)
  then show ?thesis
    using ok js by (auto simp: CPIO9PFID_Readdir_def fid_ok_def list_entries_ok)
qed

lemma ops_safe:
  assumes "fid_ok l"
  shows "\<not> panics (CPIO9PFID_Open p l m)" and "\<not> panics (CPIO9PFID_ReadAt l n off)"
    and "\<not> panics (CPIO9PFID_Readlink l)" and "\<not> panics (CPIO9PFID_GetAttr p l req)"
  using assms
  by (auto simp: fid_ok_def CPIO9PFID_Open_def CPIO9PFID_ReadAt_def CPIO9PFID_Readlink_def
      CPIO9PFID_GetAttr_def Let_def split: prod.splits)

lemma fid_reach_ok:
  "fid_reach p s l \<Longrightarrow> fs_recs s \<noteq> [] \<Longrightarrow> fs_m s = rec_table (fs_recs s) \<Longrightarrow>
    fid_fs l = s \<and> fid_ok l"
proof (induction rule: fid_reach.induct)
  case (attach l)
  then show ?case by (auto simp: CPIO9P_Attach_def fid_ok_def)
next
  case (walk l names qids l')
  then show ?case using Walk_ok [of l p names qids l'] by simp
qed

lemma NewCPIO9PReaderAt_Ok:
  "NewCPIO9PReaderAt fmt ra = Ok s \<Longrightarrow> fs_recs s \<noteq> [] \<and> fs_m s = rec_table (fs_recs s)"
  by (auto simp: NewCPIO9PReaderAt_def split: option.splits prod.splits if_splits)

section \<open>The server as the union's provider\<close>

definition cpio_ops :: "p9lib \<Rightarrow> ('w, CPIO9PFID) p9_ops" where
  "cpio_ops p =
     \<lparr>op_walk = (\<lambda>f ns w. (CPIO9PFID_Walk p f ns, w)),
      op_getattr = (\<lambda>f am w. (CPIO9PFID_GetAttr p f am, w)),
      op_open = (\<lambda>f fl w. (CPIO9PFID_Open p f fl, w)),
      op_readdir = (\<lambda>f off cnt w.
         (case CPIO9PFID_Readdir p f off cnt of
            Panic s \<Rightarrow> Panic s | Fail e \<Rightarrow> Ok ([], Some e) | Ok ds \<Rightarrow> Ok (ds, None), w)),
      op_close = (\<lambda>f w. (None, w))\<rparr>"

interpretation cpio: stateless_server "cpio_ops p" fid_ok for p
proof unfold_locales
  fix f ns qs g off cnt and w w' :: 'w
  assume f: "fid_ok f"
  show "\<not> panics (fst (op_readdir (cpio_ops p) f off cnt w))"
    using Readdir_safe [OF f, of p off cnt]
    by (cases "CPIO9PFID_Readdir p f off cnt") (auto simp: cpio_ops_def)
  assume "op_walk (cpio_ops p) f ns w = (Ok (qs, g), w')"
  then have "CPIO9PFID_Walk p f ns = Ok (qs, g)" by (simp add: cpio_ops_def)
  from Walk_ok [OF f this] show "fid_ok g" and "length qs = max 1 (length ns)" by auto
qed (auto simp: cpio_ops_def Walk_safe ops_safe)

section \<open>Walks and listings of a well-formed archive\<close>

lemma walk_names_spec:
  assumes wf: "well_formed (fs_recs s)" and m: "fs_m s = rec_table (fs_recs s)"
  shows "all_proper (cs @ ns) \<Longrightarrow> ns \<noteq> [] \<Longrightarrow>
    walk_names p s (join_with [SLASH] cs) ns qids at =
      (case rec_table (fs_recs s) (rel_path (cs @ ns)) of
         None \<Rightarrow> Fail ErrNotExist
       | Some i \<Rightarrow> Ok (qids @ map (\<lambda>pre. rec_qid p (fs_recs s)
                        (the (rec_table (fs_recs s) (rel_path (cs @ pre))))) (tl (prefixes ns)),
                      \<lparr>fid_fs = s, fid_path = i\<rparr>))"
proof (induction ns arbitrary: cs qids at)
  case (Cons c ns)
  have ap: "all_proper (cs @ [c])" using Cons.prems by simp
  have full: "path_join [join_with [SLASH] cs, c] = join_with [SLASH] (cs @ [c])"
    using ap by (simp add: path_join_step)
  have key: "fs_m s (join_with [SLASH] (cs @ [c])) = rec_table (fs_recs s) (rel_path (cs @ [c]))"
    by (simp add: m rel_path_def)
  show ?case
  proof (cases "rec_table (fs_recs s) (rel_path (cs @ [c]))")
    case None
    then have "rec_table (fs_recs s) (rel_path ((cs @ [c]) @ ns)) = None"
      using rec_table_ancestor [OF wf, of "cs @ [c]" ns] Cons.prems by force
    with None show ?thesis by (simp add: Let_def full key)
  next
    case (Some ix)
    then have ix: "ix < length (fs_recs s)" using rec_table_bound by blast
    have step: "walk_names p s (join_with [SLASH] cs) (c # ns) qids at =
        walk_names p s (join_with [SLASH] (cs @ [c])) ns (qids @ [rec_qid p (fs_recs s) ix]) ix"
      using ix Some by (simp add: Let_def full key)
    show ?thesis
    proof (cases "ns = []")
      case True
      with Some show ?thesis unfolding step by simp
    next
      case False
      have "all_proper ((cs @ [c]) @ ns)" using Cons.prems by simp
      note IH = Cons.IH [OF this False, of "qids @ [rec_qid p (fs_recs s) ix]" ix]
      have pre: "tl (prefixes (c # ns)) = [c] # map ((#) c) (tl (prefixes ns))"
        by (cases ns) simp_all
      show ?thesis unfolding step IH pre using Some by (simp add: o_def split: option.splits)
    qed
  qed
qed simp

lemma Walk_spec:
  assumes wf: "well_formed (fs_recs (fid_fs l))" and ok: "fid_ok l"
    and ns: "all_proper ns" "ns \<noteq> []"
  defines "recs \<equiv> fs_recs (fid_fs l)"
  defines "cs \<equiv> rec_elems recs (fid_path l)"
  shows "CPIO9PFID_Walk p l ns =
     (case rec_table recs (rel_path (cs @ ns)) of
        None \<Rightarrow> Fail ErrNotExist
      | Some i \<Rightarrow> Ok (map (\<lambda>pre. rec_qid p recs (the (rec_table recs (rel_path (cs @ pre)))))
                        (tl (prefixes ns)), \<lparr>fid_fs = fid_fs l, fid_path = i\<rparr>))"
proof -
  have b: "fid_path l < length recs" and m: "fs_m (fid_fs l) = rec_table recs"
    using ok by (simp_all add: fid_ok_def recs_def)
  have pc: "all_proper cs" using wf_proper [OF wf [folded recs_def] b] by (simp add: cs_def)
  have "(let n = rec_name (recs ! fid_path l) in if n \<noteq> DOT then n else []) = join_with [SLASH] cs"
    by (simp add: cs_def name_elems_def Let_def)
  then show ?thesis
    using walk_names_spec [OF wf m [unfolded recs_def], of cs ns p "[]" "fid_path l"] ns pc
    unfolding Walk_names [OF ok ns(2)] recs_def [symmetric] append_Nil by simp
qed

lemma readdir_spec:
  assumes "well_formed (fs_recs (fid_fs l))" and "fid_ok l"
  shows "CPIO9PFID_readdir l =
    Ok (filter (is_child (fs_recs (fid_fs l)) (fid_path l)) [0..<length (fs_recs (fid_fs l))])"
proof -
  have b: "fid_path l < length (fs_recs (fid_fs l))" using assms(2) by (simp add: fid_ok_def)
  show ?thesis
    using scan_children_wf [OF assms(1) b, of "Suc (fid_path l)"] filter_children_from [OF assms(1) b] b
    by (simp add: CPIO9PFID_readdir_def)
qed

text \<open>The entry of record \<open>i\<close>, and the entry for the directory itself.\<close>

definition rec_dirent :: "p9lib \<Rightarrow> cpio_rec list \<Rightarrow> nat \<Rightarrow> dirent" where
  "rec_dirent p recs i = \<lparr>de_qid = rec_qid p recs i, de_type = q_type (rec_qid p recs i),
     de_name = path_base (rec_name (recs ! i)), de_offset = i\<rparr>"

definition dot_dirent :: "p9lib \<Rightarrow> cpio_rec list \<Rightarrow> nat \<Rightarrow> dirent" where
  "dot_dirent p recs i = (rec_dirent p recs i)\<lparr>de_name := DOT\<rparr>"

lemma Readdir_spec:
  assumes "well_formed (fs_recs (fid_fs l))" and "fid_ok l"
  defines "recs \<equiv> fs_recs (fid_fs l)"
  defines "kids \<equiv> filter (is_child recs (fid_path l)) [0..<length recs]"
  shows "CPIO9PFID_Readdir p l off cnt =
    (if length kids < off then Fail EOF_err
     else Ok (dot_dirent p recs (fid_path l) # map (rec_dirent p recs) (drop off kids)))"
proof -
  have b: "fid_path l < length (fs_recs (fid_fs l))" using assms(2) by (simp add: fid_ok_def)
  have "\<And>i. i \<in> set (drop off kids) \<Longrightarrow> i < length (fs_recs (fid_fs l))"
    by (auto simp: kids_def recs_def dest: in_set_dropD)
  note le = list_entries_ok [OF this]
  show ?thesis
    using b by (simp add: CPIO9PFID_Readdir_def readdir_spec [OF assms(1,2)] le
        recs_def [symmetric] kids_def [symmetric] dot_dirent_def rec_dirent_def)
qed

lemma child_rec:
  assumes wf: "well_formed recs" and i: "i < length recs" and j: "j < length recs" "is_child recs i j"
  shows "proper (path_base (rec_name (recs ! j)))"
    and "rel_path (rec_elems recs i @ [path_base (rec_name (recs ! j))]) = rec_name (recs ! j)"
    and "rec_table recs (rec_name (recs ! j)) = Some j"
proof -
  have ap: "all_proper (rec_elems recs j)" using wf j(1) by (rule wf_proper)
  have ne: "rec_elems recs j \<noteq> []" using j(2) by (simp add: is_child_def)
  have e: "rec_elems recs i @ [last (rec_elems recs j)] = rec_elems recs j"
    using append_butlast_last_id [OF ne] j(2) by (simp only: is_child_def)
  have n: "rec_name (recs ! j) = join_with [SLASH] (rec_elems recs j)"
    using ne rel_path_name_elems [of "rec_name (recs ! j)"] by (simp only: rel_path_def if_False)
  have b: "path_base (rec_name (recs ! j)) = last (rec_elems recs j)"
    using path_base_join [OF ap ne] by (simp only: n [symmetric])
  show "proper (path_base (rec_name (recs ! j)))"
    unfolding b using ap ne by (auto simp: list_all_iff)
  show "rel_path (rec_elems recs i @ [path_base (rec_name (recs ! j))]) = rec_name (recs ! j)"
    unfolding b e by (rule rel_path_name_elems)
  show "rec_table recs (rec_name (recs ! j)) = Some j"
    using rec_table_Some_iff [OF wf] j(1) by simp
qed

lemma Walk_one:
  assumes "well_formed (fs_recs (fid_fs l))" and "fid_ok l" and "proper n"
  defines "recs \<equiv> fs_recs (fid_fs l)"
  shows "CPIO9PFID_Walk p l [n] =
     (case rec_table recs (rel_path (rec_elems recs (fid_path l) @ [n])) of
        None \<Rightarrow> Fail ErrNotExist
      | Some i \<Rightarrow> Ok ([rec_qid p recs i], \<lparr>fid_fs = fid_fs l, fid_path = i\<rparr>))"
  using Walk_spec [OF assms(1,2), of "[n]" p] assms(3)
  by (auto simp: recs_def split: option.splits)

lemma Walk_one_child:
  assumes wf: "well_formed (fs_recs (fid_fs l))" and ok: "fid_ok l" and n: "proper n"
  defines "recs \<equiv> fs_recs (fid_fs l)"
  shows "CPIO9PFID_Walk p l [n] = Ok (qs, g) \<longleftrightarrow>
    (\<exists>j. j < length recs \<and> is_child recs (fid_path l) j \<and> path_base (rec_name (recs ! j)) = n
         \<and> qs = [rec_qid p recs j] \<and> g = \<lparr>fid_fs = fid_fs l, fid_path = j\<rparr>)"
    (is "?walk \<longleftrightarrow> ?child")
proof
  have i: "fid_path l < length recs" using ok by (simp add: fid_ok_def recs_def)
  let ?cs = "rec_elems recs (fid_path l)"
  have ap: "all_proper (?cs @ [n])" using wf_proper [OF wf [folded recs_def] i] n by simp
  {
    assume ?walk
    then obtain j where j: "rec_table recs (rel_path (?cs @ [n])) = Some j"
      "qs = [rec_qid p recs j]" "g = \<lparr>fid_fs = fid_fs l, fid_path = j\<rparr>"
      using Walk_one [OF wf ok n, of p] by (auto simp: recs_def split: option.splits)
    then have b: "j < length recs" "rec_elems recs j = ?cs @ [n]"
      using rec_table_bound [OF j(1)] name_elems_rel_path [OF ap] by simp_all
    have "rec_name (recs ! j) = join_with [SLASH] (?cs @ [n])"
      using rec_table_bound [OF j(1)] by (simp add: rel_path_def)
    then have "path_base (rec_name (recs ! j)) = n" using path_base_join [OF ap] by simp
    with b j show ?child by (auto simp: is_child_def)
  }
  assume ?child
  then obtain j where j: "j < length recs" "is_child recs (fid_path l) j"
    "path_base (rec_name (recs ! j)) = n" "qs = [rec_qid p recs j]"
    "g = \<lparr>fid_fs = fid_fs l, fid_path = j\<rparr>" by blast
  note child_rec [OF wf [folded recs_def] i j(1,2)]
  with j have "rec_table recs (rel_path (?cs @ [n])) = Some j" by simp
  with j show ?walk using Walk_one [OF wf ok n, of p] by (simp add: recs_def)
qed

section \<open>Properties\<close>

text \<open>C1: a server built from an archive hands out, by attaching and walking in any order, only
  FIDs on which no operation panics: \<open>Walk\<close>, \<open>Open\<close>, \<open>ReadAt\<close>, \<open>Readdir\<close>, \<open>Readlink\<close>
  and \<open>GetAttr\<close> return a value or an error for every argument, and the index they use is in
  range.\<close>

theorem cpio9p_reachable_safe:
  assumes "NewCPIO9PReaderAt fmt ra = Ok s" and "fid_reach p s l"
  shows "fid_fs l = s \<and> fid_path l < length (fs_recs s) \<and>
    \<not> panics (CPIO9PFID_Walk p l ns) \<and> \<not> panics (CPIO9PFID_Open p l m) \<and>
    \<not> panics (CPIO9PFID_ReadAt l n off) \<and> \<not> panics (CPIO9PFID_Readdir p l k cnt) \<and>
    \<not> panics (CPIO9PFID_Readlink l) \<and> \<not> panics (CPIO9PFID_GetAttr p l req)"
proof -
  have ok: "fid_fs l = s \<and> fid_ok l"
    using NewCPIO9PReaderAt_Ok [OF assms(1)] by (intro fid_reach_ok [OF assms(2)]) auto
  then have "fid_path l < length (fs_recs s)" by (auto simp: fid_ok_def)
  with ok show ?thesis by (simp add: Walk_safe Readdir_safe ops_safe)
qed

definition sample_server :: CPIO9P where
  "sample_server = \<lparr>fs_m = rec_table sample_recs, fs_recs = sample_recs\<rparr>"

definition sample_fid :: "nat \<Rightarrow> CPIO9PFID" where
  "sample_fid i = \<lparr>fid_fs = sample_server, fid_path = i\<rparr>"

lemma sample_new: "NewCPIO9PReaderAt None (sample_recs, None) = Ok sample_server"
  by (simp add: NewCPIO9PReaderAt_def sample_server_def sample_recs_def)

lemma sample_attach: "fid_reach p sample_server (sample_fid 0)"
  by (rule fid_reach.attach) (simp add: CPIO9P_Attach_def sample_fid_def)

lemma sample_ok: "i < 4 \<Longrightarrow> fid_ok (sample_fid i)"
  by (simp add: fid_ok_def sample_fid_def sample_server_def sample_recs_def)

lemma sample_fid_wf: "well_formed (fs_recs (fid_fs (sample_fid i)))"
  by (simp add: sample_fid_def sample_server_def sample_wf)

theorem cpio9p_reachable_safe_witness:
  "\<not> panics (CPIO9PFID_Readdir sample_p9 (sample_fid 0) 0 10)"
  using cpio9p_reachable_safe [OF sample_new sample_attach] by blast

text \<open>C20: file types agree. For a FID that was handed out, \<open>GetAttr\<close> succeeds, the type of its QID is that of the mode it reports
  (a link, a directory, or what the package makes of the mode), \<open>Open\<close> gives the same QID for every mode, and so does
  every walk that leads to the FID as its last one.\<close>

theorem cpio9p_types:
  assumes "NewCPIO9PReaderAt fmt ra = Ok s" and "fid_reach p s l"
  shows "\<exists>q a. CPIO9PFID_GetAttr p l req = Ok (q, mask_all, a) \<and> q_path q = fid_path l \<and>
    (\<exists>mode. a_mode a = ucast mode \<and> mode = i_mode (r_info (fs_recs s ! fid_path l)) \<and>
      q_type q = (if mode AND 0xf000 = 0xa000 then TypeSymlink else if mode AND 0xf000 = 0x4000 then TypeDir
                  else qid_type_of_os p (a_mode a))) \<and>
    (\<forall>m. \<exists>e. CPIO9PFID_Open p l m = Ok (q, 0, e)) \<and>
    (\<forall>l0 ns qs. fid_reach p s l0 \<longrightarrow> CPIO9PFID_Walk p l0 ns = Ok (qs, l) \<longrightarrow> last qs = q)"
proof -
  have ok: "fid_fs l = s \<and> fid_ok l" if "fid_reach p s l" for l
    using NewCPIO9PReaderAt_Ok [OF assms(1)] by (intro fid_reach_ok [OF that]) auto
  have b: "fid_path l < length (fs_recs (fid_fs l))" "fid_fs l = s" using ok [OF assms(2)] by (auto simp: fid_ok_def)
  have W: "last qs = rec_qid p (fs_recs s) (fid_path l)" if "fid_reach p s l0" "CPIO9PFID_Walk p l0 ns = Ok (qs, l)" for l0 ns qs
    using Walk_last [OF _ that(2)] ok [OF that(1)] by simp
  show ?thesis
    using b W by (simp add: CPIO9PFID_GetAttr_def CPIO9PFID_Open_def rec_qid_def Let_def)
qed

theorem cpio9p_types_witness:
  "\<exists>q a. CPIO9PFID_GetAttr sample_p9 (sample_fid 0) mask_none = Ok (q, mask_all, a) \<and> q_type q = TypeDir"
proof -
  from cpio9p_types [OF sample_new sample_attach] obtain q a where
    "CPIO9PFID_GetAttr sample_p9 (sample_fid 0) mask_none = Ok (q, mask_all, a)"
    "q_type q = (let mode = i_mode (r_info (fs_recs sample_server ! fid_path (sample_fid 0))) in
      if mode AND 0xf000 = 0xa000 then TypeSymlink else if mode AND 0xf000 = 0x4000 then TypeDir
                  else qid_type_of_os sample_p9 (a_mode a))"
    unfolding Let_def by metis
  then show ?thesis by (simp add: sample_server_def sample_fid_def sample_recs_def sample_rec_def Let_def)
qed

text \<open>C2: on a well-formed archive a walk over proper names is a lookup of the whole path.
  From the record whose name has the elements \<open>cs\<close>, walking \<open>ns\<close> fails with
  \<open>ErrNotExist\<close> if no record has the name \<open>cs/ns\<close>; otherwise it returns the FID of that
  record and the QIDs of the records of all the paths on the way, in order.\<close>

theorem cpio9p_walk_is_lookup:
  assumes "well_formed (fs_recs (fid_fs l))" and "fid_ok l" and "all_proper ns" and "ns \<noteq> []"
  shows "CPIO9PFID_Walk p l ns =
     (let recs = fs_recs (fid_fs l); cs = rec_elems recs (fid_path l) in
      case rec_table recs (rel_path (cs @ ns)) of
        None \<Rightarrow> Fail ErrNotExist
      | Some i \<Rightarrow> Ok (map (\<lambda>pre. rec_qid p recs (the (rec_table recs (rel_path (cs @ pre)))))
                        (tl (prefixes ns)), \<lparr>fid_fs = fid_fs l, fid_path = i\<rparr>))"
  using Walk_spec [OF assms] by (simp only: Let_def)

theorem cpio9p_walk_is_lookup_witness:
  "\<exists>q r. CPIO9PFID_Walk sample_p9 (sample_fid 0) [''a'', ''b''] = Ok ([q, r], sample_fid 2)"
proof -
  have "all_proper [''a'', ''b'']" "[''a'', ''b''] \<noteq> []" by code_simp+
  note w = cpio9p_walk_is_lookup [OF sample_fid_wf sample_ok [of 0] this, of sample_p9]
  have "fs_recs (fid_fs (sample_fid 0)) = sample_recs" "fid_path (sample_fid 0) = 0"
    "rec_elems sample_recs 0 = []" "rec_table sample_recs (rel_path [''a'', ''b'']) = Some 2"
    by (simp_all add: sample_fid_def sample_server_def) code_simp+
  with w show ?thesis by (simp add: Let_def sample_fid_def)
qed

text \<open>Walking in two steps is walking in one: on a well-formed archive, if a walk
  over the proper names \<open>ns\<close> succeeds, walking on from its FID over \<open>ms\<close> reaches the same
  FID, or fails in the same way, as the walk over \<open>ns @ ms\<close> from the start.\<close>

lemma cpio9p_walk_compose:
  assumes "well_formed (fs_recs (fid_fs l))" and "fid_ok l" and "all_proper (ns @ ms)"
    and "ns \<noteq> []" and "ms \<noteq> []" and "CPIO9PFID_Walk p l ns = Ok (qs, g)"
  shows "CPIO9PFID_Walk p l (ns @ ms) =
    bind_res (CPIO9PFID_Walk p g ms) (\<lambda>(qs', h). Ok (qs @ qs', h))"
proof -
  let ?recs = "fs_recs (fid_fs l)" and ?cs = "rec_elems (fs_recs (fid_fs l)) (fid_path l)"
  have p: "all_proper ns" "all_proper ms" using assms(3) by simp_all
  have g: "fid_fs g = fid_fs l" "fid_ok g" using Walk_ok [OF assms(2,6)] by simp_all
  obtain i where i: "rec_table ?recs (rel_path (?cs @ ns)) = Some i" "fid_path g = i"
    "qs = map (\<lambda>pre. rec_qid p ?recs (the (rec_table ?recs (rel_path (?cs @ pre))))) (tl (prefixes ns))"
    using Walk_spec [OF assms(1,2) p(1) assms(4)] assms(6) by (auto split: option.splits)
  have "all_proper (?cs @ ns)"
    using wf_proper [OF assms(1)] assms(2) p(1) by (simp add: fid_ok_def)
  then have e: "rec_elems ?recs i = ?cs @ ns"
    using rec_table_bound [OF i(1)] by (simp add: name_elems_rel_path)
  have pre: "tl (prefixes (ns @ ms)) = tl (prefixes ns) @ map ((@) ns) (tl (prefixes ms))"
    by (cases ns; cases ms) (simp_all add: prefixes_append)
  have "CPIO9PFID_Walk p g ms = (case rec_table ?recs (rel_path ((?cs @ ns) @ ms)) of
        None \<Rightarrow> Fail ErrNotExist
      | Some j \<Rightarrow> Ok (map (\<lambda>pre. rec_qid p ?recs (the (rec_table ?recs (rel_path ((?cs @ ns) @ pre)))))
                        (tl (prefixes ms)), \<lparr>fid_fs = fid_fs l, fid_path = j\<rparr>))"
    using Walk_spec [of g ms p] g p(2) assms(1,5) i(2) e by (simp cong: option.case_cong)
  then show ?thesis
    using Walk_spec [OF assms(1,2,3), of p] assms(4) i(3)
    by (simp add: pre o_def split: option.splits)
qed

theorem cpio9p_walk_compose_witness:
  "CPIO9PFID_Walk sample_p9 (sample_fid 0) ([''a''] @ [''b'']) =
    bind_res (CPIO9PFID_Walk sample_p9 (sample_fid 1) [''b''])
      (\<lambda>(qs', h). Ok ([rec_qid sample_p9 sample_recs 1] @ qs', h))"
proof -
  have pn: "all_proper ([''a''] @ [''b''])" "[''a''] \<noteq> []" "[''b''] \<noteq> []" "proper ''a''" by code_simp+
  have "rec_elems sample_recs 0 = []" "rec_table sample_recs (rel_path [''a'']) = Some 1" by code_simp+
  then have "CPIO9PFID_Walk sample_p9 (sample_fid 0) [''a''] =
      Ok ([rec_qid sample_p9 sample_recs 1], sample_fid 1)"
    using Walk_one [OF sample_fid_wf sample_ok [of 0] pn(4), of sample_p9]
    by (simp add: sample_fid_def sample_server_def)
  from cpio9p_walk_compose [OF sample_fid_wf sample_ok [of 0] pn(1-3) this] show ?thesis by simp
qed

text \<open>C31: a directory listing is exact. On a well-formed archive \<open>Readdir\<close> at an offset
  within the listing returns the dot entry of the directory itself and then, in archive
  order and from the offset on, one entry for each record whose name is the directory's
  name and one more element, and for no other record; beyond the listing it returns
  \<open>io.EOF\<close>.\<close>

theorem cpio9p_readdir_exact:
  assumes "well_formed (fs_recs (fid_fs l))" and "fid_ok l"
  shows "CPIO9PFID_Readdir p l off cnt =
     (let recs = fs_recs (fid_fs l);
          kids = filter (is_child recs (fid_path l)) [0..<length recs] in
      if length kids < off then Fail EOF_err
      else Ok (dot_dirent p recs (fid_path l) # map (rec_dirent p recs) (drop off kids)))"
  using Readdir_spec [OF assms] by (simp only: Let_def)

theorem cpio9p_readdir_exact_witness:
  "CPIO9PFID_Readdir sample_p9 (sample_fid 0) 1 9 =
     Ok [dot_dirent sample_p9 sample_recs 0, rec_dirent sample_p9 sample_recs 3]"
proof -
  have "filter (is_child sample_recs 0) [0..<length sample_recs] = [1, 3]" by code_simp
  then show ?thesis
    using cpio9p_readdir_exact [OF sample_fid_wf sample_ok [of 0], of sample_p9 1 9]
    by (simp add: sample_fid_def sample_server_def)
qed

text \<open>C19: listings and walks agree. On a well-formed archive a walk over one proper name
  succeeds exactly for the names a full listing shows after the dot entry, and it returns
  the QID of that entry and the FID of the record the entry's offset names.\<close>

theorem cpio9p_readdir_walk_agree:
  assumes "well_formed (fs_recs (fid_fs l))" and "fid_ok l" and "proper n"
    and "CPIO9PFID_Readdir p l 0 cnt = Ok ds"
  shows "CPIO9PFID_Walk p l [n] = Ok (qs, g) \<longleftrightarrow>
    (\<exists>d \<in> set (tl ds). de_name d = n \<and> qs = [de_qid d] \<and>
        g = \<lparr>fid_fs = fid_fs l, fid_path = de_offset d\<rparr>)"
proof -
  let ?recs = "fs_recs (fid_fs l)"
  have "tl ds = map (rec_dirent p ?recs) (filter (is_child ?recs (fid_path l)) [0..<length ?recs])"
    using assms(4) Readdir_spec [OF assms(1,2), of p 0 cnt] by auto
  then show ?thesis
    unfolding Walk_one_child [OF assms(1-3)]
    by (auto simp: rec_dirent_def)
qed

theorem cpio9p_readdir_walk_agree_witness:
  "CPIO9PFID_Walk sample_p9 (sample_fid 0) [''l''] =
     Ok ([rec_qid sample_p9 sample_recs 3], sample_fid 3)"
proof -
  have kids: "filter (is_child sample_recs 0) [0..<length sample_recs] = [1, 3]" by code_simp
  have rd: "CPIO9PFID_Readdir sample_p9 (sample_fid 0) 0 9 = Ok (dot_dirent sample_p9 sample_recs 0
      # map (rec_dirent sample_p9 sample_recs) [1, 3])"
    using Readdir_spec [OF sample_fid_wf sample_ok [of 0], of sample_p9 0 9] kids
    by (simp add: sample_fid_def sample_server_def)
  have "proper ''l''" "path_base (rec_name (sample_recs ! 3)) = ''l''" by code_simp+
  with cpio9p_readdir_walk_agree [OF sample_fid_wf sample_ok [of 0] _ rd,
      of "''l''" "[rec_qid sample_p9 sample_recs 3]" "sample_fid 3"]
  show ?thesis by (simp add: rec_dirent_def sample_fid_def)
qed

text \<open>The guard of \<open>rec\<close> is one short. It turns away a record number greater than the
  number of records, so a FID whose number equals the number of records panics instead of
  getting \<open>os.ErrNotExist\<close>; every greater number gets that error and every smaller one its
  record.\<close>

lemma cpio9p_rec_guard:
  "CPIO9PFID_rec l =
     (if fid_path l < length (fs_recs (fid_fs l)) then Ok (fs_recs (fid_fs l) ! fid_path l)
      else if fid_path l = length (fs_recs (fid_fs l)) then Panic ''index out of range''
      else Fail ErrNotExist)"
  by (simp add: CPIO9PFID_rec_def)

text \<open>\<open>Open\<close> admits readers only. On a reachable FID it returns no error exactly
  for flags that ask for reading, and it returns the record's QID either way.\<close>

lemma cpio9p_open_read_only:
  assumes "NewCPIO9PReaderAt fmt ra = Ok s" and "fid_reach p s l"
  shows "CPIO9PFID_Open p l mode =
    Ok (rec_qid p (fs_recs s) (fid_path l), 0,
        if mode_is_read_only p mode then None else Some ErrPermission)"
proof -
  have "fid_fs l = s \<and> fid_ok l"
    using NewCPIO9PReaderAt_Ok [OF assms(1)] by (intro fid_reach_ok [OF assms(2)]) auto
  then show ?thesis by (auto simp: CPIO9PFID_Open_def fid_ok_def)
qed

theorem cpio9p_open_read_only_witness:
  "CPIO9PFID_Open sample_p9 (sample_fid 0) 1 =
     Ok (rec_qid sample_p9 sample_recs 0, 0, Some ErrPermission)"
  using cpio9p_open_read_only [OF sample_new sample_attach [of sample_p9], of 1]
  by (simp add: sample_p9_def sample_fid_def sample_server_def)

end
