(* ===== verification/Union9p.thy ===== *)
theory Union9p
  imports Cpio9p
begin

text \<open>
  The union server, \<open>client/union9p.go\<close>: a list of mounts, each a walk prefix and a file of
  some 9P server. A walk goes to the first mount whose prefix agrees with it, a listing of the
  union is the listings of all its mounts in order with the dot entries after the first one
  dropped, and everything else is refused or answered by the union itself.

  The files of the servers below are a type \<open>'f\<close> with the operations \<open>p9_ops\<close>, threaded
  through their world. Index 0 of the mounts is the union itself, \<open>RootFID\<close>; a call the code
  would direct at it from a later index would recurse without end, so it is a panic.
\<close>

section \<open>State and construction\<close>

datatype 'f ufile = RootFID | File 'f

text \<open>A \<open>walk\<close> slice that is nil is \<open>None\<close>: \<open>reflect.DeepEqual\<close> tells it from an empty one.\<close>

record 'f UnionMount =
  um_walk :: "string list option"
  um_mount :: "'f ufile"

record 'f Union9P =
  u_mounts :: "'f UnionMount list"

record 'f union9PFID =
  uf_u :: "'f Union9P"
  uf_f :: "'f ufile"

text \<open>What a union operation returns as a \<open>p9.File\<close>.\<close>

datatype 'f ufid = Own "'f union9PFID" | Under 'f

definition NewUnionMount :: "string list option \<Rightarrow> 'f \<Rightarrow> 'f UnionMount" where
  "NewUnionMount w m = \<lparr>um_walk = w, um_mount = File m\<rparr>"

definition NewUnion9P :: "'f UnionMount list \<Rightarrow> 'f Union9P" where
  "NewUnion9P mounts = \<lparr>u_mounts = \<lparr>um_walk = Some [''/''], um_mount = RootFID\<rparr> # mounts\<rparr>"

definition Union9P_Attach :: "'f Union9P \<Rightarrow> 'f ufid res" where
  "Union9P_Attach u =
     bind_res (index_slice (u_mounts u) 0) (\<lambda>m. Ok (Own \<lparr>uf_u = u, uf_f = um_mount m\<rparr>))"

section \<open>Walk\<close>

definition walk_matches :: "string list option \<Rightarrow> string list \<Rightarrow> bool" where
  "walk_matches bw names =
     (case bw of
        None \<Rightarrow> False
      | Some wk \<Rightarrow>
          (let i = (if length wk < length names then length wk else length names) in
           take i wk = take i names))"

text \<open>The loop over the mounts: the index of the first match that is not index 0.\<close>

fun find_mount :: "nat \<Rightarrow> 'f UnionMount list \<Rightarrow> string list \<Rightarrow> nat option" where
  "find_mount x [] names = None"
| "find_mount x (m # ms) names =
     (if x = 0 then find_mount (Suc x) ms names
      else if \<not> walk_matches (um_walk m) names then find_mount (Suc x) ms names
      else Some x)"

definition union9PFID_Walk ::
    "('w, 'f) p9_ops \<Rightarrow> 'f union9PFID \<Rightarrow> string list \<Rightarrow> 'w \<Rightarrow> (qid list \<times> 'f ufid) res \<times> 'w" where
  "union9PFID_Walk ops u names w =
     (if names = [] then
        (Ok ([\<lparr>q_type = TypeDir, q_version = 0, q_path = 1\<rparr>], Own \<lparr>uf_u = uf_u u, uf_f = uf_f u\<rparr>), w)
      else case find_mount 0 (u_mounts (uf_u u)) names of
        None \<Rightarrow> (Fail ErrNotExist, w)
      | Some ix \<Rightarrow>
          (case um_mount (u_mounts (uf_u u) ! ix) of
             RootFID \<Rightarrow> (Panic ''stack overflow'', w)
           | File f \<Rightarrow>
               (case op_walk ops f names w of (r, w') \<Rightarrow>
                  (bind_res r (\<lambda>(q, g). Ok (q, Under g)), w'))))"

section \<open>Attributes\<close>

definition union9PFID_GetAttr ::
    "p9lib \<Rightarrow> 'f union9PFID \<Rightarrow> attr_mask \<Rightarrow> qid \<times> attr_mask \<times> attr" where
  "union9PFID_GetAttr p u req =
     (\<lparr>q_type = TypeDir, q_version = 0, q_path = 0\<rparr>, mask_all,
      \<lparr>a_mode = 0x1ff OR mode_directory p, a_uid = 0, a_gid = 0,
       a_nlink = of_nat (1 + length (u_mounts (uf_u u))), a_rdev = 0, a_size = 0,
       a_blocksize = 4096, a_blocks = 0, a_atime_sec = 0, a_atime_nsec = 0,
       a_mtime_sec = 0, a_mtime_nsec = 0, a_ctime_sec = 0, a_ctime_nsec = 0\<rparr>)"

definition union9PFID_WalkGetAttr ::
    "p9lib \<Rightarrow> ('w, 'f) p9_ops \<Rightarrow> 'f union9PFID \<Rightarrow> string list \<Rightarrow> 'w
       \<Rightarrow> (qid list \<times> 'f ufid \<times> attr_mask \<times> attr) res \<times> 'w" where
  "union9PFID_WalkGetAttr p ops u names w =
     (case union9PFID_Walk ops u names w of
        (Ok (q, f), w') \<Rightarrow>
          (case f of
             Own uf \<Rightarrow> (case union9PFID_GetAttr p uf mask_all of (_, m, a) \<Rightarrow> (Ok (q, f, m, a), w'))
           | Under g \<Rightarrow>
               (case op_getattr ops g mask_all w' of (r, w'') \<Rightarrow>
                  (bind_res r (\<lambda>(_, m, a). Ok (q, f, m, a)), w'')))
      | (Fail e, w') \<Rightarrow> (Fail e, w')
      | (Panic s, w') \<Rightarrow> (Panic s, w'))"

section \<open>Readdir\<close>

text \<open>
  The state of the loop: the joined errors, the entries so far, whether a dot was seen and
  the directories whose \<open>Close\<close> is deferred, last one first.
\<close>

record 'f ulisting =
  ul_errs :: "goerror option"
  ul_all :: "dirent list"
  ul_dot :: bool
  ul_defer :: "'f list"

fun add_entries :: "dirent list \<Rightarrow> 'f ulisting \<Rightarrow> 'f ulisting" where
  "add_entries [] st = st"
| "add_entries (de # ds) st =
     (if de_name de = DOT then
        (if ul_dot st then add_entries ds st
         else add_entries ds (st\<lparr>ul_dot := True, ul_all := ul_all st @ [de]\<rparr>))
      else add_entries ds (st\<lparr>ul_all := ul_all st @ [de]\<rparr>))"

definition add_err :: "goerror option \<Rightarrow> 'f ulisting \<Rightarrow> 'f ulisting" where
  "add_err e st = st\<lparr>ul_errs := errors_join [ul_errs st, e]\<rparr>"

text \<open>
  One mount: its directory is walked to, opened, its close deferred, and listed. An error of
  the listing does not drop the entries returned with it. The first component is a panic, if
  one happened.
\<close>

definition list_mount ::
    "('w, 'f) p9_ops \<Rightarrow> nat \<Rightarrow> nat \<Rightarrow> 'f ufile \<Rightarrow> 'f ulisting \<Rightarrow> 'w
       \<Rightarrow> string option \<times> 'f ulisting \<times> 'w" where
  "list_mount ops offset count m st w =
     (case m of
        RootFID \<Rightarrow> (Some ''stack overflow'', st, w)
      | File f \<Rightarrow>
          (case op_walk ops f [] w of
             (Panic s, w1) \<Rightarrow> (Some s, st, w1)
           | (Fail e, w1) \<Rightarrow> (None, add_err (Some e) st, w1)
           | (Ok (_, dir), w1) \<Rightarrow>
               (case op_open ops dir 0 w1 of
                  (Panic s, w2) \<Rightarrow> (Some s, st, w2)
                | (Fail e, w2) \<Rightarrow> (None, add_err (Some e) st, w2)
                | (Ok (_, _, Some e), w2) \<Rightarrow> (None, add_err (Some e) st, w2)
                | (Ok (_, _, None), w2) \<Rightarrow>
                    (let st1 = st\<lparr>ul_defer := dir # ul_defer st\<rparr> in
                     case op_readdir ops dir offset count w2 of
                       (Panic s, w3) \<Rightarrow> (Some s, st1, w3)
                     | (Fail e, w3) \<Rightarrow> (None, add_err (Some e) st1, w3)
                     | (Ok (ds, err), w3) \<Rightarrow>
                         (None, add_entries ds (if err = None then st1 else add_err err st1), w3)))))"

fun list_mounts ::
    "('w, 'f) p9_ops \<Rightarrow> nat \<Rightarrow> nat \<Rightarrow> 'f UnionMount list \<Rightarrow> 'f ulisting \<Rightarrow> 'w
       \<Rightarrow> string option \<times> 'f ulisting \<times> 'w" where
  "list_mounts ops offset count [] st w = (None, st, w)"
| "list_mounts ops offset count (b # bs) st w =
     (case list_mount ops offset count (um_mount b) st w of
        (Some s, st', w') \<Rightarrow> (Some s, st', w')
      | (None, st', w') \<Rightarrow> list_mounts ops offset count bs st' w')"

text \<open>The deferred closes, the last one deferred first; their errors are dropped.\<close>

fun close_all :: "('w, 'f) p9_ops \<Rightarrow> 'f list \<Rightarrow> 'w \<Rightarrow> 'w" where
  "close_all ops [] w = w"
| "close_all ops (d # ds) w = close_all ops ds (snd (op_close ops d w))"

definition ulisting0 :: "'f ulisting" where
  "ulisting0 = \<lparr>ul_errs = None, ul_all = [], ul_dot = False, ul_defer = []\<rparr>"

definition union9PFID_Readdir ::
    "('w, 'f) p9_ops \<Rightarrow> 'f union9PFID \<Rightarrow> nat \<Rightarrow> nat \<Rightarrow> 'w
       \<Rightarrow> (dirent list \<times> goerror option) res \<times> 'w" where
  "union9PFID_Readdir ops u offset count w =
     (case list_mounts ops offset count (drop 1 (u_mounts (uf_u u))) ulisting0 w of
        (p, st, w') \<Rightarrow>
          ((case p of
              Some s \<Rightarrow> Panic s
            | None \<Rightarrow>
                if length (ul_all st) \<le> offset then Ok ([], Some EOF_err)
                else Ok (ul_all st, ul_errs st)),
           close_all ops (ul_defer st) w'))"

section \<open>The union's own answers\<close>

definition union9PFID_FSync :: "'f union9PFID \<Rightarrow> goerror option" where
  "union9PFID_FSync u = None"

definition union9PFID_Close :: "'f union9PFID \<Rightarrow> goerror option" where
  "union9PFID_Close u = None"

text \<open>\<open>mode.Mode() != p9.ReadOnly\<close> is the flag test of the \<open>p9\<close> package.\<close>

definition union9PFID_Open :: "p9lib \<Rightarrow> 'f union9PFID \<Rightarrow> u32 \<Rightarrow> qid \<times> nat \<times> goerror option" where
  "union9PFID_Open p u mode =
     (if \<not> mode_is_read_only p mode then (zero_qid, 0, Some ErrPermission) else (zero_qid, 0, None))"

definition union9PFID_ReadAt :: "'f union9PFID \<Rightarrow> nat \<Rightarrow> int \<Rightarrow> int \<times> goerror option" where
  "union9PFID_ReadAt u n offset = (-1, Some ErrPermission)"

definition union9PFID_WriteAt :: "'f union9PFID \<Rightarrow> string \<Rightarrow> int \<Rightarrow> int \<times> goerror option" where
  "union9PFID_WriteAt u d offset = (-1, Some ErrPermission)"

definition union9PFID_Create ::
    "'f union9PFID \<Rightarrow> string \<Rightarrow> u32 \<Rightarrow> u32 \<Rightarrow> 'f ufid option \<times> qid \<times> nat \<times> goerror option" where
  "union9PFID_Create u name mode permissions =
     (None, \<lparr>q_type = TypeDir, q_version = 0x314, q_path = 0x09109\<rparr>, 0x16d, Some ErrPermission)"

definition union9PFID_Mkdir :: "'f union9PFID \<Rightarrow> string \<Rightarrow> u32 \<Rightarrow> qid \<times> goerror option" where
  "union9PFID_Mkdir u name permissions = (zero_qid, Some ErrPermission)"

definition union9PFID_Symlink :: "'f union9PFID \<Rightarrow> string \<Rightarrow> string \<Rightarrow> qid \<times> goerror option" where
  "union9PFID_Symlink u oldname newname = (zero_qid, Some ErrPermission)"

definition union9PFID_Link :: "'f union9PFID \<Rightarrow> 'g \<Rightarrow> string \<Rightarrow> goerror option" where
  "union9PFID_Link u target newname = Some ErrPermission"

definition union9PFID_Readlink :: "'f union9PFID \<Rightarrow> string \<times> goerror option" where
  "union9PFID_Readlink u = ([], Some ErrPermission)"

definition union9PFID_UnlinkAt :: "'f union9PFID \<Rightarrow> string \<Rightarrow> u32 \<Rightarrow> goerror option" where
  "union9PFID_UnlinkAt u name flags = Some ErrPermission"

definition union9PFID_Mknod ::
    "'f union9PFID \<Rightarrow> string \<Rightarrow> u32 \<Rightarrow> u32 \<Rightarrow> u32 \<Rightarrow> qid \<times> goerror option" where
  "union9PFID_Mknod u name mode major minor = (zero_qid, Some ENOSYS)"

definition union9PFID_Rename :: "'f union9PFID \<Rightarrow> 'g \<Rightarrow> string \<Rightarrow> goerror option" where
  "union9PFID_Rename u directory name = Some ENOSYS"

definition union9PFID_RenameAt :: "'f union9PFID \<Rightarrow> string \<Rightarrow> 'g \<Rightarrow> string \<Rightarrow> goerror option" where
  "union9PFID_RenameAt u oldName newDir newName = Some ENOSYS"

definition union9PFID_StatFS :: "'f union9PFID \<Rightarrow> goerror option" where
  "union9PFID_StatFS u = Some ENOSYS"

definition union9PFID_SetAttr :: "'f union9PFID \<Rightarrow> 'm \<Rightarrow> 'a \<Rightarrow> goerror option" where
  "union9PFID_SetAttr u msk att = Some ErrPermission"

definition union9PFID_Lock :: "'f union9PFID \<Rightarrow> nat \<times> goerror option" where
  "union9PFID_Lock u = (0, None)"

definition union9PFID_SetXattr :: "'f union9PFID \<Rightarrow> string \<Rightarrow> string \<Rightarrow> goerror option" where
  "union9PFID_SetXattr u att data = Some ENOSYS"

definition union9PFID_ListXattrs :: "'f union9PFID \<Rightarrow> string list \<times> goerror option" where
  "union9PFID_ListXattrs u = ([], Some ENOSYS)"

definition union9PFID_GetXattr :: "'f union9PFID \<Rightarrow> string \<Rightarrow> string \<times> goerror option" where
  "union9PFID_GetXattr u att = ([], Some ENOSYS)"

definition union9PFID_RemoveXattr :: "'f union9PFID \<Rightarrow> string \<Rightarrow> goerror option" where
  "union9PFID_RemoveXattr u att = Some ENOSYS"

section \<open>Which mount a walk goes to\<close>

lemma take_min_prefix:
  "take (min (length a) (length b)) a = take (min (length a) (length b)) b \<longleftrightarrow> prefix a b \<or> prefix b a"
proof (induction a arbitrary: b)
  case (Cons x a)
  then show ?case by (cases b) auto
qed simp

lemma walk_matches_iff:
  "walk_matches bw names \<longleftrightarrow> (\<exists>wk. bw = Some wk \<and> (prefix wk names \<or> prefix names wk))"
proof (cases bw)
  case (Some wk)
  have "(if length wk < length names then length wk else length names) = min (length wk) (length names)"
    by simp
  with Some take_min_prefix [of wk names] show ?thesis
    by (simp only: walk_matches_def option.case Let_def) simp
qed (simp add: walk_matches_def)

lemma find_mount_hit:
  "0 < x \<Longrightarrow> (\<forall>m \<in> set pre. \<not> walk_matches (um_walk m) names) \<Longrightarrow> walk_matches (um_walk m) names \<Longrightarrow>
    find_mount x (pre @ m # post) names = Some (x + length pre)"
  by (induction pre arbitrary: x) auto

lemma find_mount_None:
  "0 < x \<Longrightarrow> find_mount x ms names = None \<longleftrightarrow> (\<forall>m \<in> set ms. \<not> walk_matches (um_walk m) names)"
  by (induction ms arbitrary: x) auto

lemma find_mount_Some:
  "find_mount x ms names = Some i \<Longrightarrow> x \<le> i \<and> i < x + length ms \<and> 0 < i \<and> walk_matches (um_walk (ms ! (i - x))) names"
proof (induction ms arbitrary: x)
  case (Cons m ms)
  show ?case
  proof (cases "x = 0 \<or> \<not> walk_matches (um_walk m) names")
    case True
    with Cons.prems have "find_mount (Suc x) ms names = Some i" by (auto split: if_splits)
    from Cons.IH [OF this] show ?thesis by (auto simp: Suc_diff_le nth_Cons')
  next
    case False
    with Cons.prems show ?thesis by simp
  qed
qed simp

section \<open>The entries of a listing\<close>

definition is_dot :: "dirent \<Rightarrow> bool" where
  "is_dot d = (de_name d = DOT)"

text \<open>What the union keeps of a list of entries: all but the dots after the first, or all
  but the dots if one was seen before.\<close>

fun elide_dots :: "bool \<Rightarrow> dirent list \<Rightarrow> dirent list" where
  "elide_dots seen [] = []"
| "elide_dots seen (d # ds) =
     (if is_dot d \<and> seen then elide_dots seen ds else d # elide_dots (seen \<or> is_dot d) ds)"

lemma elide_dots_append:
  "elide_dots seen (xs @ ys) = elide_dots seen xs @ elide_dots (seen \<or> list_ex is_dot xs) ys"
  by (induction xs arbitrary: seen) (auto simp: disj_assoc)

lemma elide_dots_seen: "elide_dots True ds = filter (\<lambda>d. \<not> is_dot d) ds"
  by (induction ds) auto

lemma elide_dots_no_dot: "\<not> list_ex is_dot ds \<Longrightarrow> elide_dots seen ds = ds"
  by (induction ds arbitrary: seen) auto

lemma elide_dots_count: "length (filter is_dot (elide_dots seen ds)) = (if seen \<or> \<not> list_ex is_dot ds then 0 else 1)"
  by (induction ds arbitrary: seen) (auto simp: elide_dots_seen)

lemma elide_dots_others: "filter (\<lambda>d. \<not> is_dot d) (elide_dots seen ds) = filter (\<lambda>d. \<not> is_dot d) ds"
  by (induction ds arbitrary: seen) auto

lemma add_entries_eq:
  "add_entries ds st = st\<lparr>ul_all := ul_all st @ elide_dots (ul_dot st) ds,
                          ul_dot := ul_dot st \<or> list_ex is_dot ds\<rparr>"
  by (induction ds st rule: add_entries.induct) (auto simp: is_dot_def)

lemma add_err_sel [simp]:
  "ul_all (add_err e st) = ul_all st" "ul_dot (add_err e st) = ul_dot st"
  "ul_defer (add_err e st) = ul_defer st" "ul_errs (add_err e st) = errors_join [ul_errs st, e]"
  by (simp_all add: add_err_def)

text \<open>At most one dot has been kept, and none before one was seen.\<close>

definition dots_ok :: "'f ulisting \<Rightarrow> bool" where
  "dots_ok st = (length (filter is_dot (ul_all st)) = (if ul_dot st then 1 else 0))"

lemma dots_ok_add_err [simp]: "dots_ok (add_err e st) = dots_ok st"
  by (simp add: dots_ok_def)

lemma dots_ok_defer [simp]: "dots_ok (st\<lparr>ul_defer := ds\<rparr>) = dots_ok st"
  by (simp add: dots_ok_def)

lemma dots_ok_add_entries: "dots_ok st \<Longrightarrow> dots_ok (add_entries ds st)"
  by (simp add: dots_ok_def add_entries_eq elide_dots_count)

lemma dots_ok_list_mount:
  "dots_ok st \<Longrightarrow> list_mount ops off cnt m st w = (p, st', w') \<Longrightarrow> dots_ok st'"
  by (auto simp: list_mount_def Let_def dots_ok_add_entries
      split: ufile.splits prod.splits res.splits option.splits if_splits)

lemma dots_ok_list_mounts:
  "dots_ok st \<Longrightarrow> list_mounts ops off cnt ms st w = (p, st', w') \<Longrightarrow> dots_ok st'"
proof (induction ms arbitrary: st w)
  case (Cons m ms)
  obtain q st1 w1 where lm: "list_mount ops off cnt (um_mount m) st w = (q, st1, w1)"
    by (metis prod_cases3)
  from dots_ok_list_mount [OF Cons.prems(1) lm] Cons lm show ?case
    by (cases q) auto
qed simp

section \<open>The union over servers that keep the contract\<close>

definition union_over :: "('f \<Rightarrow> bool) \<Rightarrow> 'f union9PFID \<Rightarrow> bool" where
  "union_over P u = list_all (\<lambda>m. case um_mount m of RootFID \<Rightarrow> False | File f \<Rightarrow> P f) (drop 1 (u_mounts (uf_u u)))"

context p9_lister begin

lemma list_mount_safe:
  assumes "valid f" and "off < lim"
  shows "fst (list_mount ops off cnt (File f) st w) = None"
proof -
  obtain r w1 where wk: "op_walk ops f [] w = (r, w1)" by force
  show ?thesis
  proof (cases r)
    case (Ok qd)
    then obtain q dir where qd: "qd = (q, dir)" by force
    have "valid dir" using walk_valid [OF assms(1)] wk Ok qd by simp
    note safe = open_safe [OF this, of 0 w1] readdir_below [OF this assms(2), of cnt]
    obtain r2 w2 where op: "op_open ops dir 0 w1 = (r2, w2)" by force
    obtain r3 w3 where rd: "op_readdir ops dir off cnt w2 = (r3, w3)" by force
    show ?thesis
      using safe(1) safe(2) [of w2] wk Ok qd op rd
      by (cases r2; cases r3) (auto simp: list_mount_def Let_def split: option.splits)
  qed (use wk walk_safe [OF assms(1), of "[]" w] in \<open>simp_all add: list_mount_def\<close>)
qed

lemma list_mounts_safe:
  "off < lim \<Longrightarrow> list_all (\<lambda>m. case um_mount m of RootFID \<Rightarrow> False | File f \<Rightarrow> valid f) ms \<Longrightarrow>
    fst (list_mounts ops off cnt ms st w) = None"
proof (induction ms arbitrary: st w)
  case (Cons m ms)
  then obtain f where f: "um_mount m = File f" "valid f" by (auto split: ufile.splits)
  obtain q st1 w1 where lm: "list_mount ops off cnt (File f) st w = (q, st1, w1)"
    by (metis prod_cases3)
  then have "q = None" using list_mount_safe [OF f(2) Cons.prems(1), of cnt st w] by simp
  with lm f Cons show ?case by simp
qed simp

lemma union_readdir_below:
  "union_over valid u \<Longrightarrow> off < lim \<Longrightarrow> \<not> panics (fst (union9PFID_Readdir ops u off cnt w))"
  using list_mounts_safe [of off "drop 1 (u_mounts (uf_u u))" cnt ulisting0 w]
  by (auto simp: union_over_def union9PFID_Readdir_def split: prod.splits)

end

context p9_walker begin

lemma union_walk_valid:
  assumes "union_over valid u" and "names \<noteq> []"
    and "find_mount 0 (u_mounts (uf_u u)) names = Some ix"
  obtains f where "um_mount (u_mounts (uf_u u) ! ix) = File f" and "valid f"
proof -
  have ix: "0 < ix" "ix < length (u_mounts (uf_u u))" using find_mount_Some [OF assms(3)] by auto
  then have "u_mounts (uf_u u) ! ix \<in> set (drop 1 (u_mounts (uf_u u)))"
    by (auto simp: in_set_conv_nth intro!: exI [of _ "ix - 1"])
  with assms(1) have "case um_mount (u_mounts (uf_u u) ! ix) of RootFID \<Rightarrow> False | File f \<Rightarrow> valid f"
    by (simp add: union_over_def list_all_iff)
  with that show thesis by (cases "um_mount (u_mounts (uf_u u) ! ix)") auto
qed

lemma union_walk_safe:
  assumes "union_over valid u"
  shows "\<not> panics (fst (union9PFID_Walk ops u names w))"
proof (cases "names = []")
  case False
  show ?thesis
  proof (cases "find_mount 0 (u_mounts (uf_u u)) names")
    case (Some ix)
    then obtain f where f: "um_mount (u_mounts (uf_u u) ! ix) = File f" "valid f"
      using union_walk_valid [OF assms False] by blast
    with False Some walk_safe [OF f(2), of names w] show ?thesis
      by (cases "fst (op_walk ops f names w)") (auto simp: union9PFID_Walk_def split: prod.splits)
  qed (simp add: union9PFID_Walk_def False)
qed (simp add: union9PFID_Walk_def)

lemma union_walk_result:
  assumes "union_over valid u" and "union9PFID_Walk ops u names w = (Ok (qs, Under g), w')"
  shows "valid g" and "length qs = length names"
proof -
  have n: "names \<noteq> []" using assms(2) by (auto simp: union9PFID_Walk_def)
  with assms(2) obtain ix where ix: "find_mount 0 (u_mounts (uf_u u)) names = Some ix"
    by (auto simp: union9PFID_Walk_def split: option.splits)
  obtain f where f: "um_mount (u_mounts (uf_u u) ! ix) = File f" "valid f"
    using union_walk_valid [OF assms(1) n ix] by blast
  have "op_walk ops f names w = (Ok (qs, g), w')"
    using assms(2) n ix f(1)
    by (auto simp: union9PFID_Walk_def bind_res_Ok_iff split: prod.splits)
  from walk_valid [OF f(2) this] walk_qids [OF f(2) this] n
  show "valid g" "length qs = length names" by (cases names; simp)+
qed

lemma union_walk_getattr_safe:
  assumes "union_over valid u"
  shows "\<not> panics (fst (union9PFID_WalkGetAttr p ops u names w))"
proof -
  obtain r w1 where w: "union9PFID_Walk ops u names w = (r, w1)" by force
  show ?thesis
  proof (cases r)
    case (Ok qf)
    obtain q f where qf: "qf = (q, f)" by force
    show ?thesis
    proof (cases f)
      case (Own uf)
      with w Ok qf show ?thesis by (simp add: union9PFID_WalkGetAttr_def split: prod.splits)
    next
      case (Under g)
      have "valid g" using union_walk_result(1) [OF assms] w Ok qf Under by simp
      then have "\<not> panics (fst (op_getattr ops g mask_all w1))" by (rule getattr_safe)
      with w Ok qf Under show ?thesis
        by (cases "fst (op_getattr ops g mask_all w1)")
           (auto simp: union9PFID_WalkGetAttr_def split: prod.splits)
    qed
  qed (use w union_walk_safe [OF assms, of names w] in \<open>auto simp: union9PFID_WalkGetAttr_def\<close>)
qed

end

context p9_server begin

lemma union_readdir_safe:
  "union_over valid u \<Longrightarrow> \<not> panics (fst (union9PFID_Readdir ops u off cnt w))"
  using lister.union_readdir_below [of u off "Suc off"] by simp

end

section \<open>The union of servers without state\<close>

text \<open>What one mount contributes: the entries and the error of listing its directory.\<close>

definition mount_listing ::
    "('w, 'f) p9_ops \<Rightarrow> nat \<Rightarrow> nat \<Rightarrow> 'w \<Rightarrow> 'f \<Rightarrow> dirent list \<times> goerror option" where
  "mount_listing ops off cnt w f =
     (case fst (op_walk ops f [] w) of
        Ok (_, dir) \<Rightarrow>
          (case fst (op_open ops dir 0 w) of
             Ok (_, _, None) \<Rightarrow>
               (case fst (op_readdir ops dir off cnt w) of
                  Ok (ds, e) \<Rightarrow> (ds, e) | Fail e \<Rightarrow> ([], Some e) | Panic s \<Rightarrow> ([], None))
           | Ok (_, _, Some e) \<Rightarrow> ([], Some e)
           | Fail e \<Rightarrow> ([], Some e)
           | Panic s \<Rightarrow> ([], None))
      | Fail e \<Rightarrow> ([], Some e)
      | Panic s \<Rightarrow> ([], None))"

definition union_listing ::
    "('w, 'f) p9_ops \<Rightarrow> nat \<Rightarrow> nat \<Rightarrow> 'w \<Rightarrow> 'f list \<Rightarrow> dirent list" where
  "union_listing ops off cnt w fs = elide_dots False (concat (map (fst \<circ> mount_listing ops off cnt w) fs))"

definition join_errs :: "goerror option \<Rightarrow> goerror option list \<Rightarrow> goerror option" where
  "join_errs e0 es = foldl (\<lambda>acc e. if e = None then acc else errors_join [acc, e]) e0 es"

definition mounts_of :: "(string list option \<times> 'f) list \<Rightarrow> 'f UnionMount list" where
  "mounts_of bs = map (\<lambda>(w, f). NewUnionMount w f) bs"

context stateless_server begin

lemma list_mount_stateless:
  assumes "valid f"
  shows "\<exists>st'. list_mount ops off cnt (File f) st w = (None, st', w) \<and>
    ul_errs st' = join_errs (ul_errs st) [snd (mount_listing ops off cnt w f)] \<and>
    ul_all st' = ul_all st @ elide_dots (ul_dot st) (fst (mount_listing ops off cnt w f)) \<and>
    ul_dot st' = (ul_dot st \<or> list_ex is_dot (fst (mount_listing ops off cnt w f)))"
proof (cases "fst (op_walk ops f [] w)")
  case (Ok qd)
  obtain q dir where qd: "qd = (q, dir)" by force
  have wk: "op_walk ops f [] w = (Ok (q, dir), w)" using call_pairs(1) [of f "[]" w] Ok qd by simp
  then have "valid dir" using walk_valid [OF assms] by blast
  note safe = open_safe [OF this, of 0 w] readdir_safe [OF this, of off cnt w]
  show ?thesis
  proof (cases "fst (op_open ops dir 0 w)")
    case (Ok qo)
    obtain q' n e where qo: "qo = (q', n, e)" by (cases qo) auto
    have op: "op_open ops dir 0 w = (Ok (q', n, e), w)" using call_pairs(2) [of dir 0 w] Ok qo by simp
    show ?thesis
      using wk op safe(2) call_pairs(3) [of dir off cnt w]
      by (cases e; cases "fst (op_readdir ops dir off cnt w)")
         (auto simp: list_mount_def mount_listing_def join_errs_def Let_def add_entries_eq add_err_def
           split: prod.splits)
  next
    case (Fail e)
    then have "op_open ops dir 0 w = (Fail e, w)" using call_pairs(2) [of dir 0 w] by simp
    with wk show ?thesis
      by (auto simp: list_mount_def mount_listing_def join_errs_def add_err_def)
  qed (use safe in simp)
next
  case (Fail e)
  then have "op_walk ops f [] w = (Fail e, w)" using call_pairs(1) [of f "[]" w] by simp
  then show ?thesis by (auto simp: list_mount_def mount_listing_def join_errs_def add_err_def)
qed (use walk_safe [OF assms, of "[]" w] in simp)

lemma join_errs_Cons: "join_errs e0 (e # es) = join_errs (join_errs e0 [e]) es"
  by (simp add: join_errs_def)

lemma list_mounts_stateless:
  assumes "\<forall>b \<in> set bs. valid (snd b)"
  shows "\<exists>st'. list_mounts ops off cnt (mounts_of bs) st w = (None, st', w) \<and>
    ul_all st' = ul_all st @ elide_dots (ul_dot st)
       (concat (map (fst \<circ> mount_listing ops off cnt w \<circ> snd) bs)) \<and>
    ul_errs st' = join_errs (ul_errs st) (map (snd \<circ> mount_listing ops off cnt w \<circ> snd) bs)"
  using assms
proof (induction bs arbitrary: st)
  case Nil
  then show ?case by (simp add: mounts_of_def join_errs_def)
next
  case (Cons b bs)
  obtain bw f where b: "b = (bw, f)" by force
  let ?l = "mount_listing ops off cnt w f"
  obtain st1 where lm: "list_mount ops off cnt (File f) st w = (None, st1, w)"
    and st1: "ul_errs st1 = join_errs (ul_errs st) [snd ?l]"
      "ul_all st1 = ul_all st @ elide_dots (ul_dot st) (fst ?l)"
      "ul_dot st1 = (ul_dot st \<or> list_ex is_dot (fst ?l))"
    using list_mount_stateless [of f off cnt st w] Cons.prems b by auto
  have step: "list_mounts ops off cnt (mounts_of (b # bs)) st w = list_mounts ops off cnt (mounts_of bs) st1 w"
    using lm by (simp add: mounts_of_def b NewUnionMount_def)
  have "\<forall>b \<in> set bs. valid (snd b)" using Cons.prems by simp
  from Cons.IH [OF this, of st1] obtain st' where
    "list_mounts ops off cnt (mounts_of bs) st1 w = (None, st', w)"
    "ul_all st' = ul_all st1 @ elide_dots (ul_dot st1)
       (concat (map (fst \<circ> mount_listing ops off cnt w \<circ> snd) bs))"
    "ul_errs st' = join_errs (ul_errs st1) (map (snd \<circ> mount_listing ops off cnt w \<circ> snd) bs)"
    by blast
  then show ?case unfolding step
    by (simp add: st1 b elide_dots_append join_errs_Cons [symmetric] o_def)
qed

lemma close_all_stateless: "close_all ops ds w = w"
  by (induction ds) (simp_all add: close_world)

text \<open>
  The listing of the union is the listings of the mounts one after the other, without the
  dots after the first.
\<close>

lemma union_readdir_stateless:
  assumes "\<forall>b \<in> set bs. valid (snd b)" and "uf_u u = NewUnion9P (mounts_of bs)"
  shows "union9PFID_Readdir ops u off cnt w =
    (let ds = union_listing ops off cnt w (map snd bs) in
     if length ds \<le> off then Ok ([], Some EOF_err)
     else Ok (ds, join_errs None (map (snd \<circ> mount_listing ops off cnt w \<circ> snd) bs)), w)"
proof -
  from list_mounts_stateless [OF assms(1), of off cnt ulisting0 w] obtain st' where
    "list_mounts ops off cnt (mounts_of bs) ulisting0 w = (None, st', w)"
    "ul_all st' = union_listing ops off cnt w (map snd bs)"
    "ul_errs st' = join_errs None (map (snd \<circ> mount_listing ops off cnt w \<circ> snd) bs)"
    by (auto simp: ulisting0_def union_listing_def o_def)
  then show ?thesis
    by (simp add: union9PFID_Readdir_def assms(2) NewUnion9P_def close_all_stateless Let_def o_def)
qed

end

section \<open>Properties\<close>

lemma find_mount_find:
  "0 < x \<Longrightarrow> find (\<lambda>m. walk_matches (um_walk m) names) ms = Some m \<Longrightarrow>
    \<exists>i. find_mount x ms names = Some (x + i) \<and> i < length ms \<and> ms ! i = m"
proof (induction ms arbitrary: x)
  case (Cons a ms)
  show ?case
  proof (cases "walk_matches (um_walk a) names")
    case True
    with Cons.prems show ?thesis by (intro exI [of _ 0]) simp
  next
    case False
    with Cons.prems have "find (\<lambda>m. walk_matches (um_walk m) names) ms = Some m" by simp
    from Cons.IH [OF _ this, of "Suc x"] obtain i where
      "find_mount (Suc x) ms names = Some (Suc x + i)" "i < length ms" "ms ! i = m" by auto
    with Cons.prems False show ?thesis by (intro exI [of _ "Suc i"]) simp
  qed
qed simp

lemma find_map: "find P (map f xs) = map_option f (find (P \<circ> f) xs)"
  by (induction xs) auto

lemma union9p_walk_lookup:
  assumes "uf_u u = NewUnion9P (mounts_of bs)" and "names \<noteq> []"
  shows "union9PFID_Walk ops u names w =
    (case find (\<lambda>(bw, f). \<exists>wk. bw = Some wk \<and> (prefix wk names \<or> prefix names wk)) bs of
       None \<Rightarrow> (Fail ErrNotExist, w)
     | Some (bw, f) \<Rightarrow>
         (case op_walk ops f names w of (r, w') \<Rightarrow> (bind_res r (\<lambda>(q, g). Ok (q, Under g)), w')))"
proof -
  let ?P = "\<lambda>m :: 'a UnionMount. walk_matches (um_walk m) names"
  have P: "?P \<circ> (\<lambda>(bw, f). NewUnionMount bw f) =
      (\<lambda>(bw, f). \<exists>wk. bw = Some wk \<and> (prefix wk names \<or> prefix names wk))"
    by (auto simp: fun_eq_iff walk_matches_iff NewUnionMount_def)
  have fd: "find ?P (mounts_of bs) = map_option (\<lambda>(bw, f). NewUnionMount bw f)
      (find (\<lambda>(bw, f). \<exists>wk. bw = Some wk \<and> (prefix wk names \<or> prefix names wk)) bs)"
    by (simp add: mounts_of_def find_map P)
  show ?thesis
  proof (cases "find ?P (mounts_of bs)")
    case None
    then have "find_mount 1 (mounts_of bs) names = None"
      by (simp add: find_mount_None find_None_iff)
    with None fd assms show ?thesis by (simp add: union9PFID_Walk_def NewUnion9P_def)
  next
    case (Some m)
    from find_mount_find [OF _ Some, of 1] obtain i where
      "find_mount 1 (mounts_of bs) names = Some (1 + i)" "mounts_of bs ! i = m" by auto
    moreover from Some fd obtain bw f where
      "find (\<lambda>(bw, f). \<exists>wk. bw = Some wk \<and> (prefix wk names \<or> prefix names wk)) bs = Some (bw, f)"
      "m = NewUnionMount bw f" by auto
    ultimately show ?thesis
      using assms by (simp add: union9PFID_Walk_def NewUnion9P_def NewUnionMount_def)
  qed
qed


text \<open>A server of one file that answers every walk with itself, for evaluation.\<close>

definition echo_ops :: "(nat, nat) p9_ops" where
  "echo_ops = \<lparr>op_walk = (\<lambda>f ns w. (if f = 0 then Fail ErrPermission else Ok ([zero_qid], f), Suc w)),
     op_getattr = (\<lambda>f am w. (Fail ENOSYS, w)), op_open = (\<lambda>f fl w. (Ok (zero_qid, 0, None), w)),
     op_readdir = (\<lambda>f off cnt w. (Ok ([], Some ENOSYS), w)), op_close = (\<lambda>f w. (None, w))\<rparr>"

definition echo_union :: "(string list option \<times> nat) list \<Rightarrow> nat union9PFID" where
  "echo_union bs = \<lparr>uf_u = NewUnion9P (mounts_of bs), uf_f = RootFID\<rparr>"

lemma echo_union_u [simp]: "uf_u (echo_union bs) = NewUnion9P (mounts_of bs)"
  by (simp add: echo_union_def)


text \<open>An empty prefix is a default and a nil one is not. A mount with an empty, non-nil
  prefix answers every walk over names that no mount before it answers; a mount with a nil
  prefix answers none: the union behaves as if it were not there.\<close>

lemma union9p_default_mount:
  assumes "names \<noteq> []"
  shows "union9PFID_Walk ops \<lparr>uf_u = NewUnion9P (mounts_of [(Some [], f)]), uf_f = r\<rparr> names w =
      (case op_walk ops f names w of (r, w') \<Rightarrow> (bind_res r (\<lambda>(q, g). Ok (q, Under g)), w'))
    \<and> union9PFID_Walk ops \<lparr>uf_u = NewUnion9P (mounts_of (as @ (None, f) # bs)), uf_f = r\<rparr> names w =
      union9PFID_Walk ops \<lparr>uf_u = NewUnion9P (mounts_of (as @ bs)), uf_f = r\<rparr> names w"
proof -
  have find_skip: "\<not> P x \<Longrightarrow> find P (as @ x # bs) = find P (as @ bs)" for P and x :: "string list option \<times> 'c"
    and as bs
    by (induction as) auto
  define U where "U ms = \<lparr>uf_u = NewUnion9P (mounts_of ms), uf_f = r\<rparr>" for ms
  have u: "uf_u (U ms) = NewUnion9P (mounts_of ms)" for ms by (simp add: U_def)
  note W = union9p_walk_lookup [OF u assms]
  show ?thesis
    unfolding U_def [symmetric] W by (subst find_skip) simp_all
qed

theorem union9p_default_mount_witness:
  "union9PFID_Walk echo_ops \<lparr>uf_u = NewUnion9P (mounts_of ([] @ (None, 1) # [])), uf_f = RootFID\<rparr> [''x''] 3 =
   union9PFID_Walk echo_ops \<lparr>uf_u = NewUnion9P (mounts_of ([] @ [])), uf_f = RootFID\<rparr> [''x''] 3"
proof -
  have "[''x''] \<noteq> []" by simp
  from union9p_default_mount [OF this, of echo_ops 1 RootFID 3 "[]" "[]"] show ?thesis by blast
qed

text \<open>A listing of the union has at most one dot, whatever servers it is over and
  whatever they return.\<close>

lemma union9p_readdir_one_dot:
  assumes "union9PFID_Readdir ops u off cnt w = (Ok (ds, e), w')"
  shows "length (filter (\<lambda>d. de_name d = DOT) ds) \<le> 1"
proof -
  obtain p st w1 where lm: "list_mounts ops off cnt (drop 1 (u_mounts (uf_u u))) ulisting0 w = (p, st, w1)"
    by (metis prod_cases3)
  have "dots_ok ulisting0" by (simp add: dots_ok_def ulisting0_def)
  from dots_ok_list_mounts [OF this lm] have "length (filter is_dot (ul_all st)) \<le> 1"
    by (auto simp: dots_ok_def split: if_splits)
  moreover have "ds = [] \<or> ds = ul_all st"
    using assms lm by (auto simp: union9PFID_Readdir_def split: option.splits if_splits)
  ultimately show ?thesis by (auto simp: is_dot_def [abs_def])
qed

definition dot_ops :: "(nat, nat) p9_ops" where
  "dot_ops = echo_ops\<lparr>op_readdir := (\<lambda>f off cnt w. (Ok ([\<lparr>de_qid = zero_qid, de_type = TypeDir,
     de_name = (if off = 0 then DOT else ''x''), de_offset = f\<rparr>], None), w))\<rparr>"

theorem union9p_readdir_one_dot_witness:
  "length (filter (\<lambda>d. de_name d = DOT) [\<lparr>de_qid = zero_qid, de_type = TypeDir, de_name = DOT, de_offset = 1\<rparr>]) \<le> 1"
proof -
  have "union9PFID_Readdir dot_ops (echo_union [(None, 1), (Some [], 2)]) 0 9 0 =
      (Ok ([\<lparr>de_qid = zero_qid, de_type = TypeDir, de_name = DOT, de_offset = 1\<rparr>], None), 2)"
    by code_simp
  from union9p_readdir_one_dot [OF this] show ?thesis .
qed

text \<open>Errors without entries are lost. Where no mount contributes an entry \<open>Readdir\<close>
  answers \<open>io.EOF\<close>, the end of an empty directory, and not the errors of the mounts it
  collected; this holds at every offset, and whatever the errors are.\<close>

lemma union9p_readdir_hides_errors:
  assumes "list_mounts ops off cnt (drop 1 (u_mounts (uf_u u))) ulisting0 w = (None, st, w')"
    and "ul_all st = []"
  shows "fst (union9PFID_Readdir ops u off cnt w) = Ok ([], Some EOF_err)"
  using assms by (simp add: union9PFID_Readdir_def)

theorem union9p_readdir_hides_errors_witness:
  "fst (union9PFID_Readdir echo_ops (echo_union [(Some [''home''], 0), (Some [], 1)]) 0 9 0) =
     Ok ([], Some EOF_err)"
proof -
  have "list_mounts echo_ops 0 9 (drop 1 (u_mounts (uf_u (echo_union [(Some [''home''], 0), (Some [], 1)]))))
     ulisting0 0 = (None, \<lparr>ul_errs = Some (Joined [Joined [ErrPermission], ENOSYS]), ul_all = [],
                          ul_dot = False, ul_defer = [1]\<rparr>, 2)"
    by code_simp
  from union9p_readdir_hides_errors [OF this] show ?thesis by simp
qed

end
