(* ===== verification/Cpu9p.thy ===== *)
theory Cpu9p
  imports Union9p
begin

text \<open>
  The server of the local file system, \<open>CPU9P\<close> (\<open>client/cpu9p.go\<close>, \<open>client/cpu9p_unix.go\<close>,
  \<open>client/getattr_linux.go\<close>, \<open>client/cpu_linux.go\<close>).

  The server's files are pointers: \<open>Open\<close> and \<open>Renamed\<close> change the object, so a handle is
  an address and the objects are in a heap beside the operating system, whose calls are the
  record \<open>os_ops\<close> over a world \<open>'w\<close>. Descriptors are of type \<open>'d\<close>. A method of a nil
  \<open>os.File\<close> answers \<open>os.ErrInvalid\<close>, as the library documents.
\<close>

section \<open>The operating system\<close>

text \<open>What \<open>os.FileInfo\<close> and its \<open>syscall.Stat_t\<close> say of a file.\<close>

record file_info =
  fi_mode :: u32
  fi_isdir :: bool
  fi_ino :: nat
  fi_sys :: attr

record set_attr =
  sa_permissions :: u32
  sa_uid :: u32
  sa_gid :: u32
  sa_size :: u64
  sa_atime :: "u64 \<times> u64"
  sa_mtime :: "u64 \<times> u64"

record set_mask =
  sm_permissions :: bool
  sm_uid :: bool
  sm_gid :: bool
  sm_size :: bool
  sm_atime :: bool
  sm_mtime :: bool
  sm_ctime :: bool
  sm_atime_given :: bool
  sm_mtime_given :: bool

datatype lock_type = ReadLock | WriteLock | Unlock | OtherLock u8
datatype lock_flags = LockPlain | LockFlagsBlock | LockFlagsReclaim | LockOther u32
datatype lock_status = LockStatusOK | LockStatusBlocked | LockStatusError

text \<open>A time given to \<open>os.Chtimes\<close>: the clock's, or seconds and nanoseconds.\<close>

datatype gotime = Now | At "u64 \<times> u64"

record ('w, 'd) os_ops =
  o_lstat :: "string \<Rightarrow> 'w \<Rightarrow> (goerror + file_info) \<times> 'w"
  o_fstat :: "'d \<Rightarrow> 'w \<Rightarrow> (goerror + file_info) \<times> 'w"
  o_open :: "string \<Rightarrow> u32 \<Rightarrow> u32 \<Rightarrow> 'w \<Rightarrow> (goerror + 'd) \<times> 'w"
  o_close :: "'d \<Rightarrow> 'w \<Rightarrow> goerror option \<times> 'w"
  o_sync :: "'d \<Rightarrow> 'w \<Rightarrow> goerror option \<times> 'w"
  o_readat :: "'d \<Rightarrow> nat \<Rightarrow> int \<Rightarrow> 'w \<Rightarrow> (int \<times> string \<times> goerror option) \<times> 'w"
  o_writeat :: "'d \<Rightarrow> string \<Rightarrow> int \<Rightarrow> 'w \<Rightarrow> (int \<times> goerror option) \<times> 'w"
  o_write :: "'d \<Rightarrow> string \<Rightarrow> 'w \<Rightarrow> (int \<times> goerror option) \<times> 'w"
  o_mkdir :: "string \<Rightarrow> u32 \<Rightarrow> 'w \<Rightarrow> goerror option \<times> 'w"
  o_symlink :: "string \<Rightarrow> string \<Rightarrow> 'w \<Rightarrow> goerror option \<times> 'w"
  o_link :: "string \<Rightarrow> string \<Rightarrow> 'w \<Rightarrow> goerror option \<times> 'w"
  o_readdir :: "string \<Rightarrow> 'w \<Rightarrow> (goerror + string list) \<times> 'w"
  o_readlink :: "string \<Rightarrow> 'w \<Rightarrow> (string \<times> goerror option) \<times> 'w"
  o_remove :: "string \<Rightarrow> 'w \<Rightarrow> goerror option \<times> 'w"
  o_rename :: "string \<Rightarrow> string \<Rightarrow> 'w \<Rightarrow> goerror option \<times> 'w"
  o_truncate :: "string \<Rightarrow> u64 \<Rightarrow> 'w \<Rightarrow> goerror option \<times> 'w"
  o_chtimes :: "string \<Rightarrow> gotime \<Rightarrow> gotime \<Rightarrow> 'w \<Rightarrow> goerror option \<times> 'w"
  o_chmod :: "string \<Rightarrow> u32 \<Rightarrow> 'w \<Rightarrow> goerror option \<times> 'w"
  o_chown :: "string \<Rightarrow> u32 option \<Rightarrow> u32 option \<Rightarrow> 'w \<Rightarrow> goerror option \<times> 'w"
  o_setxattr :: "string \<Rightarrow> string \<Rightarrow> string \<Rightarrow> u32 \<Rightarrow> 'w \<Rightarrow> goerror option \<times> 'w"
  o_listxattr :: "string \<Rightarrow> 'w \<Rightarrow> (string list \<times> goerror option) \<times> 'w"
  o_getxattr :: "string \<Rightarrow> string \<Rightarrow> 'w \<Rightarrow> (string \<times> goerror option) \<times> 'w"
  o_removexattr :: "string \<Rightarrow> string \<Rightarrow> 'w \<Rightarrow> goerror option \<times> 'w"
  o_flock :: "'d option \<Rightarrow> bool \<Rightarrow> lock_type \<Rightarrow> u64 \<Rightarrow> u64 \<Rightarrow> 'w \<Rightarrow> goerror option \<times> 'w"

text \<open>The flag \<open>O_DIRECTORY\<close> of the machine and \<open>OpenFlags.OSFlags\<close>.\<close>

record cpulib = p9lib +
  o_directory :: u32
  os_flags :: "u32 \<Rightarrow> u32"

section \<open>Files\<close>

record 'd CPU9P =
  c9_path :: string
  c9_file :: "'d option"

record ('w, 'd) cpu9p_state =
  cs_os :: 'w
  cs_heap :: "nat \<Rightarrow> 'd CPU9P"
  cs_next :: nat

type_synonym ('w, 'd, 'a) cpu9p_op = "('w, 'd) cpu9p_state \<Rightarrow> 'a \<times> ('w, 'd) cpu9p_state"

text \<open>A call of the operating system, and a new object.\<close>

definition os_call :: "('w \<Rightarrow> 'a \<times> 'w) \<Rightarrow> ('w, 'd, 'a) cpu9p_op" where
  "os_call c s = (case c (cs_os s) of (r, w) \<Rightarrow> (r, s\<lparr>cs_os := w\<rparr>))"

definition new_fid :: "'d CPU9P \<Rightarrow> ('w, 'd, nat) cpu9p_op" where
  "new_fid c s = (cs_next s, s\<lparr>cs_heap := (cs_heap s)(cs_next s := c), cs_next := cs_next s + 1\<rparr>)"

definition NewCPU9P :: "string \<Rightarrow> ('w, 'd, nat) cpu9p_op" where
  "NewCPU9P r = new_fid \<lparr>c9_path = r, c9_file = None\<rparr>"

definition CPU9P_Attach :: "nat \<Rightarrow> ('w, 'd, nat res) cpu9p_op" where
  "CPU9P_Attach l s =
     (case new_fid \<lparr>c9_path = c9_path (cs_heap s l), c9_file = None\<rparr> s of (g, s') \<Rightarrow> (Ok g, s'))"

definition info_of :: "('w, 'd) os_ops \<Rightarrow> cpulib \<Rightarrow> 'd CPU9P \<Rightarrow> 'w \<Rightarrow> (goerror + qid \<times> file_info) \<times> 'w" where
  "info_of os p c w =
     (case (case c9_file c of Some d \<Rightarrow> o_fstat os d w | None \<Rightarrow> o_lstat os (c9_path c) w) of
        (Inl e, w') \<Rightarrow> (Inl e, w')
      | (Inr fi, w') \<Rightarrow>
          (Inr (\<lparr>q_type = qid_type_of_os (p9lib.truncate p) (fi_mode fi), q_version = 0, q_path = fi_ino fi\<rparr>, fi), w'))"

definition CPU9P_info :: "('w, 'd) os_ops \<Rightarrow> cpulib \<Rightarrow> nat \<Rightarrow> ('w, 'd, goerror + qid \<times> file_info) cpu9p_op" where
  "CPU9P_info os p l s = os_call (info_of os p (cs_heap s l)) s"

section \<open>Walking\<close>

text \<open>The loop over the names: \<open>at\<close> is the path of the file reached.\<close>

fun walk_paths :: "('w, 'd) os_ops \<Rightarrow> cpulib \<Rightarrow> string \<Rightarrow> string list \<Rightarrow> qid list \<Rightarrow> 'w
    \<Rightarrow> (goerror + qid list \<times> string) \<times> 'w" where
  "walk_paths os p at [] qids w = (Inr (qids, at), w)"
| "walk_paths os p at (name # names) qids w =
     (let at' = path_join [at, name] in
      case info_of os p \<lparr>c9_path = at', c9_file = None\<rparr> w of
        (Inl e, w') \<Rightarrow> (Inl e, w')
      | (Inr (qid, fi), w') \<Rightarrow> walk_paths os p at' names (qids @ [qid]) w')"

definition CPU9P_Walk :: "('w, 'd) os_ops \<Rightarrow> cpulib \<Rightarrow> nat \<Rightarrow> string list
    \<Rightarrow> ('w, 'd, (qid list \<times> nat) res) cpu9p_op" where
  "CPU9P_Walk os p l names s =
     (let at = c9_path (cs_heap s l) in
      case os_call (if names = [] then
             (\<lambda>w. case info_of os p \<lparr>c9_path = at, c9_file = None\<rparr> w of
                    (Inl e, w') \<Rightarrow> (Inl e, w') | (Inr (qid, fi), w') \<Rightarrow> (Inr ([qid], at), w'))
           else walk_paths os p at names []) s of
        (Inl e, s') \<Rightarrow> (Fail e, s')
      | (Inr (qids, at'), s') \<Rightarrow>
          (case new_fid \<lparr>c9_path = at', c9_file = None\<rparr> s' of (g, s'') \<Rightarrow> (Ok (qids, g), s'')))"

section \<open>Open, reads and writes\<close>

unbundle bit_operations_syntax

definition osflags :: "cpulib \<Rightarrow> file_info \<Rightarrow> u32 \<Rightarrow> u32" where
  "osflags p fi mode = (if fi_isdir fi then mode OR o_directory p else mode)"

text \<open>An operation on the path or on the file of a handle, which changes no object.\<close>

definition on_path :: "nat \<Rightarrow> (string \<Rightarrow> 'w \<Rightarrow> 'a \<times> 'w) \<Rightarrow> ('w, 'd, 'a) cpu9p_op" where
  "on_path l f s = os_call (f (c9_path (cs_heap s l))) s"

definition on_file :: "nat \<Rightarrow> 'a \<Rightarrow> ('d \<Rightarrow> 'w \<Rightarrow> 'a \<times> 'w) \<Rightarrow> ('w, 'd, 'a) cpu9p_op" where
  "on_file l none f s = (case c9_file (cs_heap s l) of None \<Rightarrow> (none, s) | Some d \<Rightarrow> os_call (f d) s)"

text \<open>\<open>Open\<close> keeps the file in the object; one that was open before is not closed.\<close>

definition CPU9P_Open :: "('w, 'd) os_ops \<Rightarrow> cpulib \<Rightarrow> nat \<Rightarrow> u32
    \<Rightarrow> ('w, 'd, (qid \<times> nat \<times> goerror option) res) cpu9p_op" where
  "CPU9P_Open os p l mode s =
     (case CPU9P_info os p l s of
        (Inl e, s1) \<Rightarrow> (Ok (zero_qid, 0, Some e), s1)
      | (Inr (qid, fi), s1) \<Rightarrow>
          (case os_call (o_open os (c9_path (cs_heap s1 l)) (osflags p fi mode) 0) s1 of
             (Inl e, s2) \<Rightarrow> (Ok (qid, 0, Some e), s2)
           | (Inr d, s2) \<Rightarrow>
               (Ok (qid, 0, None),
                s2\<lparr>cs_heap := (cs_heap s2)(l := (cs_heap s2 l)\<lparr>c9_file := Some d\<rparr>)\<rparr>)))"

definition CPU9P_FSync :: "('w, 'd) os_ops \<Rightarrow> nat \<Rightarrow> ('w, 'd, goerror option) cpu9p_op" where
  "CPU9P_FSync os l = on_file l (Some ErrInvalid) (o_sync os)"

definition CPU9P_Close :: "('w, 'd) os_ops \<Rightarrow> nat \<Rightarrow> ('w, 'd, goerror option) cpu9p_op" where
  "CPU9P_Close os l = on_file l None (o_close os)"

definition CPU9P_ReadAt :: "('w, 'd) os_ops \<Rightarrow> nat \<Rightarrow> nat \<Rightarrow> int
    \<Rightarrow> ('w, 'd, int \<times> string \<times> goerror option) cpu9p_op" where
  "CPU9P_ReadAt os l n offset = on_file l (0, [], Some ErrInvalid) (\<lambda>d. o_readat os d n offset)"

text \<open>A write at an offset that the library refuses on an append-only file is a plain write.\<close>

definition append_text :: string where
  "append_text = ''os: invalid use of WriteAt on file opened with O_APPEND''"

definition CPU9P_WriteAt :: "('w, 'd) os_ops \<Rightarrow> (goerror \<Rightarrow> string) \<Rightarrow> nat \<Rightarrow> string \<Rightarrow> int
    \<Rightarrow> ('w, 'd, int \<times> goerror option) cpu9p_op" where
  "CPU9P_WriteAt os txt l data offset =
     on_file l (0, Some ErrInvalid)
       (\<lambda>d w. case o_writeat os d data offset w of
          ((n, None), w') \<Rightarrow> ((n, None), w')
        | ((n, Some e), w') \<Rightarrow>
            if contains (txt e) append_text then o_write os d data w' else ((n, Some e), w'))"

section \<open>Directories\<close>

text \<open>The loop of \<open>Readdir\<close> from an index on; an entry that cannot be examined is left out.\<close>

fun dir_entries :: "('w, 'd) os_ops \<Rightarrow> cpulib \<Rightarrow> string \<Rightarrow> nat \<Rightarrow> string list \<Rightarrow> 'w
    \<Rightarrow> dirent list \<times> 'w" where
  "dir_entries os p dir i [] w = ([], w)"
| "dir_entries os p dir i (n # ns) w =
     (case info_of os p \<lparr>c9_path = path_join [dir, n], c9_file = None\<rparr> w of
        (Inl e, w') \<Rightarrow> dir_entries os p dir (i + 1) ns w'
      | (Inr (qid, fi), w') \<Rightarrow>
          (case dir_entries os p dir (i + 1) ns w' of
             (ds, w'') \<Rightarrow> (\<lparr>de_qid = qid, de_type = q_type qid, de_name = n, de_offset = i + 1\<rparr> # ds, w'')))"

text \<open>The conversion of the offset to a signed number makes one of 2 to the 63 or more negative.\<close>

definition CPU9P_Readdir :: "('w, 'd) os_ops \<Rightarrow> cpulib \<Rightarrow> nat \<Rightarrow> u64 \<Rightarrow> nat
    \<Rightarrow> ('w, 'd, (dirent list \<times> goerror option) res) cpu9p_op" where
  "CPU9P_Readdir os p l offset count s =
     (let dir = c9_path (cs_heap s l) in
      case os_call (o_readdir os dir) s of
        (Inl e, s') \<Rightarrow> (Ok ([], Some e), s')
      | (Inr names, s') \<Rightarrow>
          if sint offset < 0 then (Panic ''index out of range'', s')
          else (case os_call (dir_entries os p dir (nat (sint offset)) (drop (nat (sint offset)) names)) s' of
                  (ds, s'') \<Rightarrow> (Ok (ds, None), s'')))"

definition CPU9P_Readlink :: "('w, 'd) os_ops \<Rightarrow> nat \<Rightarrow> ('w, 'd, string \<times> goerror option) cpu9p_op" where
  "CPU9P_Readlink os l = on_path l (o_readlink os)"

definition CPU9P_GetAttr :: "('w, 'd) os_ops \<Rightarrow> cpulib \<Rightarrow> nat \<Rightarrow> attr_mask
    \<Rightarrow> ('w, 'd, (qid \<times> attr_mask \<times> attr) res) cpu9p_op" where
  "CPU9P_GetAttr os p l req s =
     (case CPU9P_info os p l s of
        (Inl e, s') \<Rightarrow> (Fail e, s')
      | (Inr (qid, fi), s') \<Rightarrow> (Ok (qid, mask_all, fi_sys fi), s'))"

section \<open>Changing the tree\<close>

definition CPU9P_Create :: "('w, 'd) os_ops \<Rightarrow> cpulib \<Rightarrow> nat \<Rightarrow> string \<Rightarrow> u32 \<Rightarrow> u32
    \<Rightarrow> ('w, 'd, (nat \<times> qid \<times> nat) res) cpu9p_op" where
  "CPU9P_Create os p l name mode permissions s =
     (let path = path_join [c9_path (cs_heap s l), name] in
      case os_call (o_open os path (0x40 OR os_flags p mode) permissions) s of
        (Inl e, s1) \<Rightarrow> (Fail e, s1)
      | (Inr d, s1) \<Rightarrow>
          (case new_fid \<lparr>c9_path = path, c9_file = Some d\<rparr> s1 of (l2, s2) \<Rightarrow>
            (case CPU9P_info os p l2 s2 of
               (Inl e, s3) \<Rightarrow> (Fail e, snd (CPU9P_Close os l2 s3))
             | (Inr (qid, fi), s3) \<Rightarrow> (Ok (l2, qid, 0), s3))))"

definition CPU9P_Mkdir :: "('w, 'd) os_ops \<Rightarrow> nat \<Rightarrow> string \<Rightarrow> u32 \<Rightarrow> ('w, 'd, qid \<times> goerror option) cpu9p_op" where
  "CPU9P_Mkdir os l name permissions s =
     (case on_path l (\<lambda>p. o_mkdir os (path_join [p, name]) permissions) s of (e, s') \<Rightarrow> ((zero_qid, e), s'))"

definition CPU9P_Symlink :: "('w, 'd) os_ops \<Rightarrow> nat \<Rightarrow> string \<Rightarrow> string \<Rightarrow> ('w, 'd, qid \<times> goerror option) cpu9p_op" where
  "CPU9P_Symlink os l oldname newname s =
     (case on_path l (\<lambda>p. o_symlink os oldname (path_join [p, newname])) s of (e, s') \<Rightarrow> ((zero_qid, e), s'))"

text \<open>A file of another server as the target, \<open>None\<close>, is a failed type assertion.\<close>

definition CPU9P_Link :: "('w, 'd) os_ops \<Rightarrow> nat \<Rightarrow> nat option \<Rightarrow> string \<Rightarrow> ('w, 'd, goerror option res) cpu9p_op" where
  "CPU9P_Link os l target newname s =
     (case target of None \<Rightarrow> (Panic ''interface conversion'', s)
      | Some t \<Rightarrow>
          (case on_path l (\<lambda>p. o_link os (c9_path (cs_heap s t)) (path_join [p, newname])) s of
             (e, s') \<Rightarrow> (Ok e, s')))"

definition CPU9P_Renamed :: "nat \<Rightarrow> nat option \<Rightarrow> string \<Rightarrow> ('w, 'd, unit res) cpu9p_op" where
  "CPU9P_Renamed l parent newName s =
     (case parent of None \<Rightarrow> (Panic ''interface conversion'', s)
      | Some d \<Rightarrow>
          (Ok (), s\<lparr>cs_heap := (cs_heap s)(l := (cs_heap s l)
                      \<lparr>c9_path := path_join [c9_path (cs_heap s d), newName]\<rparr>)\<rparr>))"

definition CPU9P_Remove :: "('w, 'd) os_ops \<Rightarrow> nat \<Rightarrow> ('w, 'd, goerror option) cpu9p_op" where
  "CPU9P_Remove os l = on_path l (o_remove os)"

definition CPU9P_UnlinkAt :: "('w, 'd) os_ops \<Rightarrow> nat \<Rightarrow> string \<Rightarrow> u32 \<Rightarrow> ('w, 'd, goerror option) cpu9p_op" where
  "CPU9P_UnlinkAt os l name flags = on_path l (\<lambda>p. o_remove os (path_join [p, name]))"

definition CPU9P_Mknod :: "nat \<Rightarrow> string \<Rightarrow> u32 \<Rightarrow> u32 \<Rightarrow> u32 \<Rightarrow> qid \<times> goerror option" where
  "CPU9P_Mknod l name mode major minor = (zero_qid, Some ENOSYS)"

definition CPU9P_Rename :: "nat \<Rightarrow> nat \<Rightarrow> string \<Rightarrow> goerror option" where
  "CPU9P_Rename l directory name = Some ENOSYS"

definition CPU9P_RenameAt :: "('w, 'd) os_ops \<Rightarrow> nat \<Rightarrow> string \<Rightarrow> nat option \<Rightarrow> string
    \<Rightarrow> ('w, 'd, goerror option) cpu9p_op" where
  "CPU9P_RenameAt os l oldName newDir newName s =
     (case newDir of None \<Rightarrow> (Some ErrInvalid, s)
      | Some nd \<Rightarrow>
          on_path l (\<lambda>p. o_rename os (path_join [p, oldName])
                        (path_join [c9_path (cs_heap s nd), newName])) s)"

definition CPU9P_StatFS :: "nat \<Rightarrow> goerror option" where
  "CPU9P_StatFS l = Some ENOSYS"

section \<open>Attributes and locks\<close>

definition CPU9P_SetXattr :: "('w, 'd) os_ops \<Rightarrow> nat \<Rightarrow> string \<Rightarrow> string \<Rightarrow> u32 \<Rightarrow> ('w, 'd, goerror option) cpu9p_op" where
  "CPU9P_SetXattr os l att data flags = on_path l (\<lambda>p. o_setxattr os p att data flags)"

definition CPU9P_ListXattrs :: "('w, 'd) os_ops \<Rightarrow> nat \<Rightarrow> ('w, 'd, string list \<times> goerror option) cpu9p_op" where
  "CPU9P_ListXattrs os l = on_path l (o_listxattr os)"

definition CPU9P_GetXattr :: "('w, 'd) os_ops \<Rightarrow> nat \<Rightarrow> string \<Rightarrow> ('w, 'd, string \<times> goerror option) cpu9p_op" where
  "CPU9P_GetXattr os l att = on_path l (\<lambda>p. o_getxattr os p att)"

definition CPU9P_RemoveXattr :: "('w, 'd) os_ops \<Rightarrow> nat \<Rightarrow> string \<Rightarrow> ('w, 'd, goerror option) cpu9p_op" where
  "CPU9P_RemoveXattr os l att = on_path l (\<lambda>p. o_removexattr os p att)"

text \<open>
  The steps of \<open>SetAttr\<close> in the order of the code: whether a step is asked for, its call, and
  the error it adds, given the errors before it. The steps for the size and the permissions
  wrap those errors instead of their own.
\<close>

definition set_steps :: "('w, 'd) os_ops \<Rightarrow> set_mask \<Rightarrow> set_attr \<Rightarrow> string
    \<Rightarrow> (bool \<times> ('w \<Rightarrow> goerror option \<times> 'w) \<times> (goerror option \<Rightarrow> goerror \<Rightarrow> goerror)) list" where
  "set_steps os m a path =
     [(sm_size m, o_truncate os path (sa_size a), \<lambda>err e. Wrapf ''truncate:%w'' [] err),
      (sm_atime m \<or> sm_mtime m,
       o_chtimes os path (if sm_atime_given m then At (sa_atime a) else Now)
                         (if sm_mtime_given m then At (sa_mtime a) else Now), \<lambda>err e. e),
      (sm_permissions m, o_chmod os path (sa_permissions a), \<lambda>err e. Wrapf ''%q:%o:%w'' [path] err),
      (sm_gid m, o_chown os path None (Some (sa_gid a)), \<lambda>err e. e),
      (sm_uid m, o_chown os path (Some (sa_uid a)) None, \<lambda>err e. e)]"

fun run_steps :: "(bool \<times> ('w \<Rightarrow> goerror option \<times> 'w) \<times> (goerror option \<Rightarrow> goerror \<Rightarrow> goerror)) list
    \<Rightarrow> goerror option \<Rightarrow> 'w \<Rightarrow> goerror option \<times> 'w" where
  "run_steps [] err w = (err, w)"
| "run_steps ((asked, call, report) # steps) err w =
     (if \<not> asked then run_steps steps err w
      else case call w of
        (None, w') \<Rightarrow> run_steps steps err w'
      | (Some e, w') \<Rightarrow> run_steps steps (errors_join [err, Some (report err e)]) w')"

definition CPU9P_SetAttr :: "('w, 'd) os_ops \<Rightarrow> nat \<Rightarrow> set_mask \<Rightarrow> set_attr \<Rightarrow> ('w, 'd, goerror option) cpu9p_op" where
  "CPU9P_SetAttr os l m a = on_path l (\<lambda>p. run_steps (set_steps os m a p) None)"

definition CPU9P_Lock :: "('w, 'd) os_ops \<Rightarrow> nat \<Rightarrow> lock_type \<Rightarrow> lock_flags \<Rightarrow> u64 \<Rightarrow> u64
    \<Rightarrow> ('w, 'd, lock_status \<times> goerror option) cpu9p_op" where
  "CPU9P_Lock os l locktype flags start len s =
     (if flags = LockFlagsReclaim then ((LockStatusError, Some ENOSYS), s)
      else (case locktype of OtherLock _ \<Rightarrow> ((LockStatusError, Some ENOSYS), s)
        | _ \<Rightarrow>
            (case os_call (o_flock os (c9_file (cs_heap s l)) (flags = LockFlagsBlock) locktype start len) s of
               (None, s') \<Rightarrow> ((LockStatusOK, None), s')
             | (Some e, s') \<Rightarrow>
                 if errors_is e EAGAIN then ((LockStatusBlocked, None), s')
                 else ((LockStatusError, Some e), s'))))"

section \<open>The server as a provider of a union\<close>

definition cpu9p_ops :: "('w, 'd) os_ops \<Rightarrow> cpulib \<Rightarrow> (('w, 'd) cpu9p_state, nat) p9_ops" where
  "cpu9p_ops os p =
     \<lparr>op_walk = CPU9P_Walk os p,
      op_getattr = CPU9P_GetAttr os p,
      op_open = CPU9P_Open os p,
      op_readdir = (\<lambda>l off cnt. CPU9P_Readdir os p l (of_nat off) cnt),
      op_close = CPU9P_Close os\<rparr>"

lemma os_call_sel [simp]:
  "fst (os_call c s) = fst (c (cs_os s))" "cs_os (snd (os_call c s)) = snd (c (cs_os s))"
  "cs_heap (snd (os_call c s)) = cs_heap s" "cs_next (snd (os_call c s)) = cs_next s"
  by (simp_all add: os_call_def split: prod.splits)

lemma os_call_eq: "os_call c s = (fst (c (cs_os s)), s\<lparr>cs_os := snd (c (cs_os s))\<rparr>)"
  by (simp add: os_call_def split: prod.splits)

lemma walk_paths_qids:
  "walk_paths os p at names qids w = (Inr (qs, at'), w') \<Longrightarrow> length qs = length qids + length names"
proof (induction names arbitrary: at qids w)
  case (Cons n names)
  obtain r w1 where i: "info_of os p \<lparr>c9_path = path_join [at, n], c9_file = None\<rparr> w = (r, w1)" by force
  with Cons.prems obtain qid fi where r: "r = Inr (qid, fi)" by (cases r) auto
  with Cons.prems i have "walk_paths os p (path_join [at, n]) names (qids @ [qid]) w1 = (Inr (qs, at'), w')"
    by simp
  from Cons.IH [OF this] show ?case by simp
qed simp

lemma CPU9P_Walk_qids:
  assumes "CPU9P_Walk os p l names s = (Ok (qs, g), s')"
  shows "length qs = max 1 (length names)"
proof (cases "names = []")
  case True
  with assms show ?thesis
    by (auto simp: CPU9P_Walk_def os_call_eq Let_def new_fid_def split: sum.splits prod.splits)
next
  case False
  obtain r w1 where w: "walk_paths os p (c9_path (cs_heap s l)) names [] (cs_os s) = (r, w1)" by force
  with assms False obtain at' where "r = Inr (qs, at')"
    by (cases r) (auto simp: CPU9P_Walk_def os_call_eq Let_def new_fid_def)
  with walk_paths_qids w False show ?thesis by (cases names) fastforce+
qed

lemma sint_u64: "sint (of_nat k :: u64) = (int k + 2 ^ 63) mod 2 ^ 64 - 2 ^ 63"
  using int_word_sint [of "int k", where 'a = 64] by simp

lemma sint_of_nat_u64: "k < 2 ^ 63 \<Longrightarrow> sint (of_nat k :: u64) = int k"
  unfolding sint_u64 by (subst mod_pos_pos_trivial) auto

lemma sint_u64_neg: "sint (offset :: u64) < 0 \<longleftrightarrow> 2 ^ 63 \<le> unat offset"
proof (cases "unat offset < 2 ^ 63")
  case True
  then have "sint offset = int (unat offset)" using sint_of_nat_u64 [of "unat offset"] by simp
  with True show ?thesis by simp
next
  case False
  define k where "k = unat offset"
  have k: "2 ^ 63 \<le> k" "k < 2 ^ 64" using False unsigned_less [of offset] by (simp_all add: k_def)
  have "(int k + 2 ^ 63) mod 2 ^ 64 = (int k - 2 ^ 63 + 2 ^ 64) mod 2 ^ 64" by (simp add: add.commute)
  also have "\<dots> = int k - 2 ^ 63"
    unfolding mod_add_self2 using k by (intro mod_pos_pos_trivial) auto
  finally have "sint offset = int k - 2 ^ 64"
    using sint_u64 [of k] by (simp add: k_def)
  with k False show ?thesis by (simp add: k_def [symmetric])
qed

lemma CPU9P_Readdir_panics:
  "panics (fst (CPU9P_Readdir os p l offset cnt s)) \<longleftrightarrow>
    (\<exists>names. fst (o_readdir os (c9_path (cs_heap s l)) (cs_os s)) = Inr names) \<and> sint offset < 0"
  by (auto simp: CPU9P_Readdir_def Let_def os_call_eq split: sum.splits)

interpretation cpu9p: p9_lister "cpu9p_ops os p" "\<lambda>l. True" "2 ^ 63" for os :: "('w, 'd) os_ops" and p
proof unfold_locales
  fix f off cnt and w :: "('w, 'd) cpu9p_state"
  assume "off < (2 :: nat) ^ 63"
  then have "0 \<le> sint (of_nat off :: u64)" by (simp add: sint_of_nat_u64)
  then show "\<not> panics (fst (op_readdir (cpu9p_ops os p) f off cnt w))"
    by (simp add: cpu9p_ops_def CPU9P_Readdir_panics)
qed (auto simp: cpu9p_ops_def CPU9P_Walk_qids CPU9P_Walk_def CPU9P_GetAttr_def CPU9P_Open_def Let_def
       new_fid_def split: sum.splits prod.splits if_splits)

section \<open>Facts on paths, pages and steps\<close>

lemma path_join_rooted:
  assumes "all_proper rs" and "proper n"
  shows "path_join [SLASH # join_with [SLASH] rs, n] = SLASH # join_with [SLASH] (rs @ [n])"
proof (cases "rs = []")
  case True
  have "split_on SLASH (SLASH # SLASH # n) = [[], [], n]"
    using assms(2) by (simp add: proper_def split_on_no_sep)
  then show ?thesis using True assms(2) by (simp add: path_join_def path_clean_def is_abs_def proper_def Let_def)
next
  case False
  have s: "split_on SLASH n = [n]" using assms(2) by (simp add: proper_def split_on_no_sep)
  have "no_dotdot n" "n \<noteq> []" using assms(2) s by (auto simp: no_dotdot_def proper_def)
  from path_join_below [OF assms(1) False this] show ?thesis using assms(2) by (simp add: s proper_def)
qed

lemma path_join_parent:
  assumes "all_proper (ds @ [x])"
  shows "path_join [SLASH # join_with [SLASH] (ds @ [x]), DOTDOT] = SLASH # join_with [SLASH] ds"
proof -
  have j: "join_with [SLASH] (ds @ [x]) @ SLASH # DOTDOT = join_with [SLASH] (ds @ [x, DOTDOT])"
    by (cases "ds = []") (simp_all add: join_with_append)
  have "\<forall>c \<in> set (ds @ [x, DOTDOT]). SLASH \<notin> set c"
    using assms by (auto simp: list_all_iff proper_def)
  then have sp: "split_on SLASH (join_with [SLASH] (ds @ [x, DOTDOT])) = ds @ [x, DOTDOT]"
    by (intro split_join) auto
  have p: "all_proper ds" "proper x" using assms by simp_all
  then have "clean_elems True [] (ds @ [x, DOTDOT]) = ds"
    by (simp add: clean_elems_append proper_def)
  then show ?thesis
    using sp by (simp add: path_join_def path_clean_def is_abs_def j Let_def)
qed

lemma walk_paths_path:
  "all_proper rs \<Longrightarrow> all_proper names \<Longrightarrow>
    walk_paths os p (SLASH # join_with [SLASH] rs) names qids w = (Inr (qs, at'), w') \<Longrightarrow>
    at' = SLASH # join_with [SLASH] (rs @ names)"
proof (induction names arbitrary: rs qids w)
  case (Cons n names)
  obtain r w1 where i: "info_of os p \<lparr>c9_path = path_join [SLASH # join_with [SLASH] rs, n], c9_file = None\<rparr> w = (r, w1)"
    by force
  with Cons.prems obtain qid fi where r: "r = Inr (qid, fi)" by (cases r) auto
  with Cons.prems i have "walk_paths os p (SLASH # join_with [SLASH] (rs @ [n])) names (qids @ [qid]) w1 = (Inr (qs, at'), w')"
    by (simp add: path_join_rooted)
  from Cons.IH [OF _ _ this] Cons.prems show ?case by simp
qed simp

text \<open>An operating system on which looking does not change anything.\<close>

definition quiet_os :: "('w, 'd) os_ops \<Rightarrow> bool" where
  "quiet_os os = (\<forall>n w. snd (o_lstat os n w) = w \<and> snd (o_readdir os n w) = w)"

lemma info_of_quiet: "quiet_os os \<Longrightarrow> snd (info_of os p \<lparr>c9_path = n, c9_file = None\<rparr> w) = w"
  by (auto simp: info_of_def quiet_os_def split: prod.splits sum.splits) (metis snd_conv)+

lemma dir_entries_quiet: "quiet_os os \<Longrightarrow> snd (dir_entries os p dir i ns w) = w"
proof (induction ns arbitrary: i w)
  case (Cons n ns)
  with info_of_quiet [of os p "path_join [dir, n]" w] show ?case
    by (auto split: prod.splits sum.splits) (metis snd_conv)+
qed simp

lemma dir_entries_above: "d \<in> set (fst (dir_entries os p dir i ns w)) \<Longrightarrow> i < de_offset d"
proof (induction ns arbitrary: i w)
  case (Cons n ns)
  obtain r w1 where i: "info_of os p \<lparr>c9_path = path_join [dir, n], c9_file = None\<rparr> w = (r, w1)" by force
  show ?case
  proof (cases r)
    case (Inl e)
    with Cons.prems i have "d \<in> set (fst (dir_entries os p dir (Suc i) ns w1))" by simp
    from Cons.IH [OF this] show ?thesis by simp
  next
    case (Inr qf)
    obtain ds w2 where d: "dir_entries os p dir (Suc i) ns w1 = (ds, w2)" by force
    with Cons.prems i Inr have "de_offset d = i + 1 \<or> d \<in> set ds" by (auto split: prod.splits)
    with Cons.IH [of "Suc i" w1] d show ?thesis by auto
  qed
qed simp

lemma dir_entries_drop:
  assumes "quiet_os os"
  shows "fst (dir_entries os p dir (i + k) (drop k ns) w) =
    filter (\<lambda>d. i + k < de_offset d) (fst (dir_entries os p dir i ns w))"
proof (induction k arbitrary: i ns)
  case 0
  then show ?case using dir_entries_above [of _ os p dir i ns w] by (simp add: filter_id_conv)
next
  case (Suc k)
  show ?case
  proof (cases ns)
    case (Cons n ns')
    obtain r where r: "info_of os p \<lparr>c9_path = path_join [dir, n], c9_file = None\<rparr> w = (r, w)"
      using info_of_quiet [OF assms, of p "path_join [dir, n]" w] by (metis prod.collapse)
    have "fst (dir_entries os p dir (i + Suc k) (drop (Suc k) ns) w) =
        filter (\<lambda>d. i + Suc k < de_offset d) (fst (dir_entries os p dir (Suc i) ns' w))"
      using Suc.IH [of "Suc i" ns'] Cons by simp
    then show ?thesis using Cons r by (auto split: sum.splits prod.splits)
  qed simp
qed

text \<open>The answers to the calls of a list of steps.\<close>

fun step_results :: "(bool \<times> ('w \<Rightarrow> goerror option \<times> 'w) \<times> (goerror option \<Rightarrow> goerror \<Rightarrow> goerror)) list
    \<Rightarrow> 'w \<Rightarrow> goerror option list" where
  "step_results [] w = []"
| "step_results ((asked, call, report) # steps) w =
     (if \<not> asked then step_results steps w else fst (call w) # step_results steps (snd (call w)))"

lemma run_steps_None:
  "fst (run_steps steps err w) = None \<longleftrightarrow> err = None \<and> (\<forall>r \<in> set (step_results steps w). r = None)"
proof (induction steps arbitrary: err w)
  case (Cons st steps)
  obtain asked call report where st: "st = (asked, call, report)" by (metis prod_cases3)
  obtain r w' where c: "call w = (r, w')" by force
  have "errors_join [err, Some e] \<noteq> None" for e by (rule errors_join_last)
  with Cons st c show ?case by (cases asked; cases r) auto
qed simp

section \<open>A sample system\<close>

text \<open>A directory with three names, one of which cannot be examined, on a system without state.\<close>

definition sample_info :: "nat \<Rightarrow> file_info" where
  "sample_info i = \<lparr>fi_mode = 0x1a4, fi_isdir = False, fi_ino = i, fi_sys =
     \<lparr>a_mode = 0, a_uid = 0, a_gid = 0, a_nlink = 1, a_rdev = 0, a_size = 0, a_blocksize = 0, a_blocks = 0,
      a_atime_sec = 0, a_atime_nsec = 0, a_mtime_sec = 0, a_mtime_nsec = 0, a_ctime_sec = 0, a_ctime_nsec = 0\<rparr>\<rparr>"

definition sample_os :: "(unit, nat) os_ops" where
  "sample_os =
     \<lparr>o_lstat = (\<lambda>n w. (if n = ''/r'' then Inr (sample_info 1) else if n = ''/r/a'' then Inr (sample_info 2)
                       else if n = ''/r/b'' then Inr (sample_info 3) else Inl ErrNotExist, w)),
      o_fstat = (\<lambda>d w. (Inr (sample_info d), w)), o_open = (\<lambda>n f m w. (Inr 5, w)),
      o_close = (\<lambda>d w. (None, w)), o_sync = (\<lambda>d w. (None, w)),
      o_readat = (\<lambda>d n off w. ((0, [], Some EOF_err), w)),
      o_writeat = (\<lambda>d s off w. ((int (length s), None), w)), o_write = (\<lambda>d s w. ((int (length s), None), w)),
      o_mkdir = (\<lambda>n m w. (None, w)), o_symlink = (\<lambda>a b w. (None, w)), o_link = (\<lambda>a b w. (None, w)),
      o_readdir = (\<lambda>n w. (Inr [''a'', ''x'', ''b''], w)), o_readlink = (\<lambda>n w. (([], Some ErrInvalid), w)),
      o_remove = (\<lambda>n w. (None, w)), o_rename = (\<lambda>a b w. (None, w)),
      o_truncate = (\<lambda>n k w. (Some ErrPermission, w)), o_chtimes = (\<lambda>n a b w. (None, w)),
      o_chmod = (\<lambda>n m w. (None, w)), o_chown = (\<lambda>n u g w. (None, w)),
      o_setxattr = (\<lambda>n a v f w. (None, w)), o_listxattr = (\<lambda>n w. (([], None), w)),
      o_getxattr = (\<lambda>n a w. (([], None), w)), o_removexattr = (\<lambda>n a w. (None, w)),
      o_flock = (\<lambda>d b t st ln w. (None, w))\<rparr>"

definition sample_lib :: cpulib where
  "sample_lib = p9lib.extend sample_p9 \<lparr>o_directory = 0x10000, os_flags = (\<lambda>f. f)\<rparr>"

definition sample_state :: "(unit, nat) cpu9p_state" where
  "sample_state = snd (NewCPU9P ''/r'' \<lparr>cs_os = (), cs_heap = (\<lambda>i. \<lparr>c9_path = [], c9_file = None\<rparr>), cs_next = 0\<rparr>)"

lemma sample_state_simps:
  "c9_path (cs_heap sample_state 0) = ''/r''" "cs_os sample_state = ()"
  by (simp_all add: sample_state_def NewCPU9P_def new_fid_def)

definition sample_entry :: "string \<Rightarrow> nat \<Rightarrow> dirent" where
  "sample_entry n i = \<lparr>de_qid = \<lparr>q_type = QType 0, q_version = 0, q_path = (if i = 1 then 2 else i)\<rparr>,
     de_type = QType 0, de_name = n, de_offset = i\<rparr>"

lemma sample_listing:
  "fst (CPU9P_Readdir sample_os sample_lib 0 0 0 sample_state) = Ok ([sample_entry ''a'' 1, sample_entry ''b'' 3], None)"
proof -
  have j: "path_join [''/r'', ''a''] = ''/r/a''" "path_join [''/r'', ''x''] = ''/r/x''" "path_join [''/r'', ''b''] = ''/r/b''"
    by code_simp+
  have t: "qid_type_of_os (p9lib.truncate sample_lib) m = QType 0" for m
    by (simp add: sample_lib_def sample_p9_def p9lib.defs)
  show ?thesis
    by (simp add: CPU9P_Readdir_def os_call_eq sample_state_simps sample_os_def info_of_def sample_info_def j t
        sample_entry_def numeral_3_eq_3)
qed

lemma sample_quiet: "quiet_os sample_os"
  by (simp add: quiet_os_def sample_os_def)

section \<open>Properties\<close>

text \<open>Walking stays below the file it starts from. From a file with a clean rooted path a
  walk over proper names that succeeds gives a new, unopened file whose path is the starting path
  and the names, with one QID per name (one for no names), and changes no other file; but a walk over a
  dot-dot that succeeds leaves the directory it starts from, be it the root that is served.\<close>

lemma cpu9p_walk_path:
  assumes "c9_path (cs_heap s l) = SLASH # join_with [SLASH] rs" and "all_proper rs"
    and "all_proper names \<and> ds = rs @ names \<or> names = [DOTDOT] \<and> rs = ds @ [x]"
    and "CPU9P_Walk os p l names s = (Ok (qs, g), s')"
  shows "g = cs_next s \<and> length qs = max 1 (length names) \<and>
    cs_heap s' = (cs_heap s)(g := \<lparr>c9_path = SLASH # join_with [SLASH] ds, c9_file = None\<rparr>)"
proof -
  have at: "at' = SLASH # join_with [SLASH] ds"
    if "walk_paths os p (c9_path (cs_heap s l)) names [] w = (Inr (qs, at'), w')" for w w' at'
    using assms(3)
  proof
    assume "all_proper names \<and> ds = rs @ names"
    with that assms(1,2) walk_paths_path [of rs names] show ?thesis by simp
  next
    assume "names = [DOTDOT] \<and> rs = ds @ [x]"
    with that assms(1,2) show ?thesis
      by (auto simp: path_join_parent Let_def split: prod.splits sum.splits)
  qed
  have nil: "names = [] \<Longrightarrow> c9_path (cs_heap s l) = SLASH # join_with [SLASH] ds" using assms(1,3) by auto
  have "length qs = max 1 (length names)" using CPU9P_Walk_qids [OF assms(4)] .
  moreover have "g = cs_next s \<and> cs_heap s' = (cs_heap s)(g := \<lparr>c9_path = SLASH # join_with [SLASH] ds, c9_file = None\<rparr>)"
  proof (cases "names = []")
    case True
    with assms(4) nil show ?thesis
      by (auto simp: CPU9P_Walk_def os_call_eq Let_def new_fid_def split: sum.splits prod.splits)
  next
    case False
    obtain r w where w: "walk_paths os p (c9_path (cs_heap s l)) names [] (cs_os s) = (r, w)" by force
    with assms(4) False obtain at' where "r = Inr (qs, at')"
      by (cases r) (auto simp: CPU9P_Walk_def os_call_eq Let_def new_fid_def)
    with w at [of "cs_os s" at' w] assms(4) False show ?thesis
      by (auto simp: CPU9P_Walk_def os_call_eq Let_def new_fid_def)
  qed
  ultimately show ?thesis by blast
qed

theorem cpu9p_walk_path_witness:
  "c9_path (cs_heap (snd (CPU9P_Walk sample_os sample_lib 0 [''a''] sample_state)) (cs_next sample_state)) = ''/r/a''"
proof -
  have j: "path_join [''/r'', ''a''] = ''/r/a''" by code_simp
  obtain qs g s' where w: "CPU9P_Walk sample_os sample_lib 0 [''a''] sample_state = (Ok (qs, g), s')"
    by (simp add: CPU9P_Walk_def os_call_eq sample_state_simps sample_os_def info_of_def j new_fid_def)
  have r: "c9_path (cs_heap sample_state 0) = SLASH # join_with [SLASH] [''r'']" "all_proper [''r'']"
    and n: "all_proper [''a''] \<and> [''r'', ''a''] = [''r''] @ [''a'']"
    by (simp_all add: sample_state_simps proper_def)
  from cpu9p_walk_path [OF r disjI1 [OF n] w] w show ?thesis by simp
qed

text \<open>C17: reading a directory in parts is reading it at once. On a system on which looking changes
  nothing, a listing at an offset below \<open>2 ^ 63\<close> has exactly the entries of the full listing
  whose own offset is greater, so a client that goes on at the last offset it got misses no entry and sees
  none twice, also where entries are left out because they cannot be examined.\<close>

theorem cpu9p_readdir_pages:
  assumes "quiet_os os" and "k < 2 ^ 63" and "fst (CPU9P_Readdir os p l 0 cnt s) = Ok (ds, None)"
  shows "fst (CPU9P_Readdir os p l (of_nat k) cnt s) = Ok (filter (\<lambda>d. k < de_offset d) ds, None)"
proof -
  have rd: "snd (o_readdir os n w) = w" for n w using assms(1) by (simp add: quiet_os_def)
  have k: "sint (of_nat k :: u64) = int k" using assms(2) by (rule sint_of_nat_u64)
  obtain names where n: "fst (o_readdir os (c9_path (cs_heap s l)) (cs_os s)) = Inr names"
    and ds: "ds = fst (dir_entries os p (c9_path (cs_heap s l)) 0 names (cs_os s))"
    using assms(3) rd by (auto simp: CPU9P_Readdir_def Let_def os_call_eq split: sum.splits)
  show ?thesis
    using n rd dir_entries_drop [OF assms(1), of p "c9_path (cs_heap s l)" 0 k names "cs_os s"]
    by (simp add: CPU9P_Readdir_def Let_def os_call_eq k ds)
qed

theorem cpu9p_readdir_pages_witness:
  "fst (CPU9P_Readdir sample_os sample_lib 0 (of_nat 1) 0 sample_state) = Ok ([sample_entry ''b'' 3], None)"
  using cpu9p_readdir_pages [OF sample_quiet _ sample_listing, of 1] by (simp add: sample_entry_def)

text \<open>Listings and walks agree. On such a system every entry of a listing can be walked to by its
  name, and the walk returns the entry's QID.\<close>

lemma cpu9p_readdir_walk_agree:
  assumes "quiet_os os" and "fst (CPU9P_Readdir os p l 0 cnt s) = Ok (ds, None)" and "d \<in> set ds"
  shows "fst (CPU9P_Walk os p l [de_name d] s) = Ok ([de_qid d], cs_next s)"
proof -
  let ?dir = "c9_path (cs_heap s l)"
  have rd: "snd (o_readdir os n w) = w" for n w using assms(1) by (simp add: quiet_os_def)
  obtain names where "ds = fst (dir_entries os p ?dir 0 names (cs_os s))"
    using assms(2) rd by (auto simp: CPU9P_Readdir_def Let_def os_call_eq split: sum.splits)
  moreover have "d \<in> set (fst (dir_entries os p ?dir i names w)) \<Longrightarrow>
      \<exists>fi. info_of os p \<lparr>c9_path = path_join [?dir, de_name d], c9_file = None\<rparr> w = (Inr (de_qid d, fi), w)" for i names w
  proof (induction names arbitrary: i)
    case (Cons n names)
    obtain r where r: "info_of os p \<lparr>c9_path = path_join [?dir, n], c9_file = None\<rparr> w = (r, w)"
      using info_of_quiet [OF assms(1), of p "path_join [?dir, n]" w] by (metis prod.collapse)
    obtain ds' where d: "dir_entries os p ?dir (Suc i) names w = (ds', w)"
      using dir_entries_quiet [OF assms(1), of p ?dir "Suc i" names w] by (metis prod.collapse)
    from Cons.IH [of "Suc i"] Cons.prems r d show ?case by (cases r) (auto split: prod.splits)
  qed simp
  ultimately obtain fi where
    "info_of os p \<lparr>c9_path = path_join [?dir, de_name d], c9_file = None\<rparr> (cs_os s) = (Inr (de_qid d, fi), cs_os s)"
    using assms(3) by blast
  then show ?thesis by (simp add: CPU9P_Walk_def os_call_eq Let_def new_fid_def)
qed

text \<open>One request can stop the listing. \<open>Readdir\<close> panics for every offset of \<open>2 ^ 63\<close> or more,
  a number the client chooses, on every directory that can be read, and for no other offset.\<close>

lemma cpu9p_readdir_huge_offset:
  "panics (fst (CPU9P_Readdir os p l offset cnt s)) \<longleftrightarrow>
    (\<exists>names. fst (o_readdir os (c9_path (cs_heap s l)) (cs_os s)) = Inr names) \<and> 2 ^ 63 \<le> unat offset"
  by (simp add: CPU9P_Readdir_panics sint_u64_neg)


theorem cpu9p_readdir_walk_agree_witness:
  "fst (CPU9P_Walk sample_os sample_lib 0 [''b''] sample_state) = Ok ([de_qid (sample_entry ''b'' 3)], cs_next sample_state)"
  using cpu9p_readdir_walk_agree [OF sample_quiet sample_listing, of "sample_entry ''b'' 3"]
  by (simp add: sample_entry_def)


text \<open>C24: a union over local file servers keeps running. Over any number of handles of such servers,
  whatever the operating system answers and whatever was opened or closed before, walking, walking with attributes
  and listing at an offset below \<open>2 ^ 63\<close> return a value or an error.\<close>

theorem cpu9p_union_safe:
  fixes os :: "('w, 'd) os_ops"
  assumes "union_over (\<lambda>l. True) u" and "off < 2 ^ 63"
  shows "\<not> panics (fst (union9PFID_Walk (cpu9p_ops os p) u names s)) \<and>
    \<not> panics (fst (union9PFID_WalkGetAttr lib (cpu9p_ops os p) u names s)) \<and>
    \<not> panics (fst (union9PFID_Readdir (cpu9p_ops os p) u off cnt s))"
  using cpu9p.union_walk_safe [OF assms(1)] cpu9p.union_walk_getattr_safe [OF assms(1)]
    cpu9p.union_readdir_below [OF assms] by blast

theorem cpu9p_union_safe_witness:
  "\<not> panics (fst (union9PFID_Readdir (cpu9p_ops sample_os sample_lib)
     \<lparr>uf_u = NewUnion9P [NewUnionMount (Some []) 0], uf_f = RootFID\<rparr> 1 9 sample_state))"
proof -
  have "union_over (\<lambda>l. True) \<lparr>uf_u = NewUnion9P [NewUnionMount (Some []) (0 :: nat)], uf_f = RootFID\<rparr>"
    by (simp add: union_over_def NewUnion9P_def NewUnionMount_def)
  from cpu9p_union_safe [OF this, where os = sample_os and p = sample_lib and s = sample_state and off = 1 and cnt = 9]
  show ?thesis by simp
qed

end
