(* ===== verification/StatAttr.thy ===== *)
theory StatAttr
  imports Cpu9p
begin

text \<open>
  What \<open>GetAttr\<close> of the file server of theory Cpu9p makes of \<open>syscall.Stat_t\<close>, whose fields have other widths on each
  platform: \<open>client/getattr_linux.go\<close>, \<open>client/getattr_freebsd.go\<close>, \<open>client/getattr_darwin.go\<close>. A conversion to an unsigned type
  extends a signed field by its sign. The widths are those of the 64 bit machines. \<open>sys\<close> is \<open>FileInfo.Sys\<close>.
\<close>

text \<open>Signed fields are words too; a pair is seconds and nanoseconds.\<close>

record stat_linux =
  sl_mode :: u32
  sl_uid :: u32
  sl_gid :: u32
  sl_nlink :: u64
  sl_rdev :: u64
  sl_size :: u64
  sl_blksize :: u64
  sl_blocks :: u64
  sl_atim :: "u64 \<times> u64"
  sl_mtim :: "u64 \<times> u64"
  sl_ctim :: "u64 \<times> u64"

record stat_freebsd =
  sf_mode :: u16
  sf_uid :: u32
  sf_gid :: u32
  sf_nlink :: u64
  sf_rdev :: u64
  sf_size :: u64
  sf_blksize :: u32
  sf_blocks :: u64
  sf_atimespec :: "u64 \<times> u64"
  sf_mtimespec :: "u64 \<times> u64"
  sf_ctimespec :: "u64 \<times> u64"

record stat_darwin =
  sd_mode :: u16
  sd_uid :: u32
  sd_gid :: u32
  sd_nlink :: u16
  sd_rdev :: u32
  sd_size :: u64
  sd_blksize :: u32
  sd_blocks :: u64
  sd_atimespec :: "u64 \<times> u64"
  sd_mtimespec :: "u64 \<times> u64"
  sd_ctimespec :: "u64 \<times> u64"

definition attr_of_linux :: "stat_linux \<Rightarrow> attr" where
  "attr_of_linux t =
     \<lparr>a_mode = sl_mode t, a_uid = sl_uid t, a_gid = sl_gid t, a_nlink = sl_nlink t, a_rdev = sl_rdev t, a_size = sl_size t,
      a_blocksize = sl_blksize t, a_blocks = sl_blocks t,
      a_atime_sec = fst (sl_atim t), a_atime_nsec = snd (sl_atim t),
      a_mtime_sec = fst (sl_mtim t), a_mtime_nsec = snd (sl_mtim t),
      a_ctime_sec = fst (sl_ctim t), a_ctime_nsec = snd (sl_ctim t)\<rparr>"

definition attr_of_freebsd :: "stat_freebsd \<Rightarrow> attr" where
  "attr_of_freebsd t =
     \<lparr>a_mode = ucast (sf_mode t), a_uid = sf_uid t, a_gid = sf_gid t, a_nlink = sf_nlink t, a_rdev = sf_rdev t, a_size = sf_size t,
      a_blocksize = scast (sf_blksize t), a_blocks = sf_blocks t,
      a_atime_sec = fst (sf_atimespec t), a_atime_nsec = snd (sf_atimespec t),
      a_mtime_sec = fst (sf_mtimespec t), a_mtime_nsec = snd (sf_mtimespec t),
      a_ctime_sec = fst (sf_ctimespec t), a_ctime_nsec = snd (sf_ctimespec t)\<rparr>"

definition attr_of_darwin :: "stat_darwin \<Rightarrow> attr" where
  "attr_of_darwin t =
     \<lparr>a_mode = ucast (sd_mode t), a_uid = sd_uid t, a_gid = sd_gid t, a_nlink = ucast (sd_nlink t), a_rdev = scast (sd_rdev t),
      a_size = sd_size t, a_blocksize = scast (sd_blksize t), a_blocks = sd_blocks t,
      a_atime_sec = fst (sd_atimespec t), a_atime_nsec = snd (sd_atimespec t),
      a_mtime_sec = fst (sd_mtimespec t), a_mtime_nsec = snd (sd_mtimespec t),
      a_ctime_sec = fst (sd_ctimespec t), a_ctime_nsec = snd (sd_ctimespec t)\<rparr>"

definition GetAttr_freebsd :: "(file_info \<Rightarrow> stat_freebsd) \<Rightarrow> ('w, 'd) os_ops \<Rightarrow> cpulib \<Rightarrow> nat \<Rightarrow> attr_mask
    \<Rightarrow> ('w, 'd, (qid \<times> attr_mask \<times> attr) res) cpu9p_op" where
  "GetAttr_freebsd sys os p l req s =
     (case CPU9P_info os p l s of
        (Inl e, s') \<Rightarrow> (Fail e, s')
      | (Inr (qid, fi), s') \<Rightarrow> (Ok (qid, mask_all, attr_of_freebsd (sys fi)), s'))"

definition GetAttr_darwin :: "(file_info \<Rightarrow> stat_darwin) \<Rightarrow> ('w, 'd) os_ops \<Rightarrow> cpulib \<Rightarrow> nat \<Rightarrow> attr_mask
    \<Rightarrow> ('w, 'd, (qid \<times> attr_mask \<times> attr) res) cpu9p_op" where
  "GetAttr_darwin sys os p l req s =
     (case CPU9P_info os p l s of
        (Inl e, s') \<Rightarrow> (Fail e, s')
      | (Inr (qid, fi), s') \<Rightarrow> (Ok (qid, mask_all, attr_of_darwin (sys fi)), s'))"

text \<open>The Linux operation of theory Cpu9p, where \<open>fi_sys\<close> is what it makes of the \<open>Stat_t\<close>, is the same on the wider record.\<close>

definition wide_freebsd :: "stat_freebsd \<Rightarrow> stat_linux" where
  "wide_freebsd t =
     \<lparr>sl_mode = ucast (sf_mode t), sl_uid = sf_uid t, sl_gid = sf_gid t, sl_nlink = sf_nlink t, sl_rdev = sf_rdev t, sl_size = sf_size t,
      sl_blksize = scast (sf_blksize t), sl_blocks = sf_blocks t, sl_atim = sf_atimespec t, sl_mtim = sf_mtimespec t,
      sl_ctim = sf_ctimespec t\<rparr>"

lemma GetAttr_freebsd_linux:
  "(\<And>fi. fi_sys fi = attr_of_linux (wide_freebsd (sys fi))) \<Longrightarrow> GetAttr_freebsd sys os p l req s = CPU9P_GetAttr os p l req s"
  by (simp add: GetAttr_freebsd_def CPU9P_GetAttr_def attr_of_linux_def attr_of_freebsd_def wide_freebsd_def
      split: prod.split sum.split)

text \<open>A device of Darwin whose number is negative as a signed one is reported with all higher bits set; others are unchanged.\<close>

lemma darwin_device:
  "bit (a_rdev (attr_of_darwin t)) n \<longleftrightarrow> (if n < 31 then bit (sd_rdev t) n else n < 64 \<and> bit (sd_rdev t) 31)"
  using bit_imp_le_length [of "sd_rdev t" n] by (cases "n = 31") (auto simp: attr_of_darwin_def bit_word_scast_iff)

end
