(* ===== verification/Escape.thy ===== *)
theory Escape
  imports GoStrings
begin

text \<open>
  The reader of the terminal, \<open>SSHStdin\<close> in \<open>client/fns.go\<close> and \<open>TTYIn\<close> in
  \<open>client/client.go\<close>: the bytes of standard input are copied to the session except for the
  escape that closes it. The input is the list of bytes read before the reader fails; the
  writer is a function on a world \<open>'w\<close> that may fail, and the result says whether the session
  was closed.

  The specification \<open>escapes\<close> says which inputs close the session, and the lemmas relate the
  two state bits of the loop to the input read so far.
\<close>

abbreviation TILDE :: char where "TILDE \<equiv> CHR ''~''"
abbreviation PERIOD :: char where "PERIOD \<equiv> CHR ''.''"

section \<open>The loops\<close>

fun SSHStdin :: "('w \<Rightarrow> string \<Rightarrow> goerror option \<times> 'w) \<Rightarrow> bool \<Rightarrow> bool \<Rightarrow> string \<Rightarrow> 'w \<Rightarrow> bool \<times> 'w" where
  "SSHStdin wr newLine tilde [] w = (False, w)"
| "SSHStdin wr newLine tilde (b # r) w =
     (if b = NL \<or> b = CR then
        (case wr w [b] of
           (Some _, w') \<Rightarrow> (False, w')
         | (None, w') \<Rightarrow> SSHStdin wr True tilde r w')
      else if b = TILDE then
        (if newLine then SSHStdin wr False True r w
         else (case wr w [TILDE] of
                 (Some _, w') \<Rightarrow> (False, w')
               | (None, w') \<Rightarrow> SSHStdin wr newLine tilde r w'))
      else if b = PERIOD then
        (if tilde then (True, w)
         else (case wr w [b] of
                 (Some _, w') \<Rightarrow> (False, w')
               | (None, w') \<Rightarrow> SSHStdin wr newLine tilde r w'))
      else
        (case (if tilde then wr w [TILDE] else (None, w)) of
           (Some _, w') \<Rightarrow> (False, w')
         | (None, w') \<Rightarrow>
             (case wr w' [b] of
                (Some _, w'') \<Rightarrow> (False, w'')
              | (None, w'') \<Rightarrow> SSHStdin wr False False r w'')))"

text \<open>\<open>TTYIn\<close> is the same loop on a session and a writer given as arguments.\<close>

fun TTYIn :: "('w \<Rightarrow> string \<Rightarrow> goerror option \<times> 'w) \<Rightarrow> bool \<Rightarrow> bool \<Rightarrow> string \<Rightarrow> 'w \<Rightarrow> bool \<times> 'w" where
  "TTYIn wr newLine tilde [] w = (False, w)"
| "TTYIn wr newLine tilde (b # r) w =
     (if b = NL \<or> b = CR then
        (case wr w [b] of
           (Some _, w') \<Rightarrow> (False, w')
         | (None, w') \<Rightarrow> TTYIn wr True tilde r w')
      else if b = TILDE then
        (if newLine then TTYIn wr False True r w
         else (case wr w [TILDE] of
                 (Some _, w') \<Rightarrow> (False, w')
               | (None, w') \<Rightarrow> TTYIn wr newLine tilde r w'))
      else if b = PERIOD then
        (if tilde then (True, w)
         else (case wr w [b] of
                 (Some _, w') \<Rightarrow> (False, w')
               | (None, w') \<Rightarrow> TTYIn wr newLine tilde r w'))
      else
        (case (if tilde then wr w [TILDE] else (None, w)) of
           (Some _, w') \<Rightarrow> (False, w')
         | (None, w') \<Rightarrow>
             (case wr w' [b] of
                (Some _, w'') \<Rightarrow> (False, w'')
              | (None, w'') \<Rightarrow> TTYIn wr False False r w'')))"

text \<open>A writer that never fails and keeps what it is given.\<close>

definition append_writer :: "string \<Rightarrow> string \<Rightarrow> goerror option \<times> string" where
  "append_writer w s = (None, w @ s)"

definition ssh_stdin :: "string \<Rightarrow> bool \<times> string" where
  "ssh_stdin s = SSHStdin append_writer False False s []"

section \<open>The state after a prefix\<close>

text \<open>One byte: the new state and what is written, or the close.\<close>

definition esc_step :: "bool \<times> bool \<Rightarrow> char \<Rightarrow> ((bool \<times> bool) \<times> string) option" where
  "esc_step st b =
     (case st of (newLine, tilde) \<Rightarrow>
        if b = NL \<or> b = CR then Some ((True, tilde), [b])
        else if b = TILDE then (if newLine then Some ((False, True), []) else Some ((newLine, tilde), [TILDE]))
        else if b = PERIOD then (if tilde then None else Some ((newLine, tilde), [b]))
        else Some ((False, False), (if tilde then [TILDE, b] else [b])))"

text \<open>The state and the output after a whole input, if the session is still open.\<close>

fun esc_run :: "bool \<times> bool \<Rightarrow> string \<Rightarrow> ((bool \<times> bool) \<times> string) option" where
  "esc_run st [] = Some (st, [])"
| "esc_run st (b # r) =
     (case esc_step st b of None \<Rightarrow> None
      | Some (st', out) \<Rightarrow>
          (case esc_run st' r of None \<Rightarrow> None | Some (st'', out') \<Rightarrow> Some (st'', out @ out')))"

lemma esc_run_append:
  "esc_run st (s @ t) =
    (case esc_run st s of None \<Rightarrow> None
     | Some (st', out) \<Rightarrow>
         (case esc_run st' t of None \<Rightarrow> None | Some (st'', out') \<Rightarrow> Some (st'', out @ out')))"
  by (induction s arbitrary: st) (auto split: option.splits)

lemma SSHStdin_step:
  "SSHStdin append_writer nl ti (b # s) w =
    (case esc_step (nl, ti) b of None \<Rightarrow> (True, w)
     | Some ((nl', ti'), out) \<Rightarrow> SSHStdin append_writer nl' ti' s (w @ out))"
  by (simp add: esc_step_def append_writer_def)

lemma SSHStdin_open:
  "esc_run (nl, ti) s = Some (st, out) \<Longrightarrow> SSHStdin append_writer nl ti s w = (False, w @ out)"
proof (induction s arbitrary: nl ti out w)
  case (Cons b s)
  from Cons.prems obtain nl' ti' o1 where st: "esc_step (nl, ti) b = Some ((nl', ti'), o1)"
    by (auto split: option.splits)
  with Cons.prems obtain o2 where "esc_run (nl', ti') s = Some (st, o2)" "out = o1 @ o2"
    by (auto split: option.splits)
  with Cons.IH [of nl' ti' o2 "w @ o1"] st show ?case by (simp only: SSHStdin_step) simp
qed simp

lemma SSHStdin_closed:
  "esc_run (nl, ti) s = None \<Longrightarrow> fst (SSHStdin append_writer nl ti s w)"
proof (induction s arbitrary: nl ti w)
  case (Cons b s)
  show ?case
  proof (cases "esc_step (nl, ti) b")
    case (Some r)
    obtain nl' ti' o1 where r: "r = ((nl', ti'), o1)" by (cases r) auto
    with Some Cons.prems have "esc_run (nl', ti') s = None" by (auto split: option.splits)
    with Cons.IH [of nl' ti' "w @ o1"] Some r show ?thesis by (simp only: SSHStdin_step) simp
  qed (simp only: SSHStdin_step, simp)
qed simp

lemma ssh_stdin_open: "esc_run (False, False) s = Some (st, out) \<Longrightarrow> ssh_stdin s = (False, out)"
  using SSHStdin_open [of False False s st out "[]"] by (simp add: ssh_stdin_def)

lemma ssh_stdin_esc_run:
  "fst (ssh_stdin s) \<longleftrightarrow> esc_run (False, False) s = None"
  "esc_run (False, False) s = Some (st, out) \<Longrightarrow> snd (ssh_stdin s) = out"
  using SSHStdin_closed [of False False s "[]"] SSHStdin_open [of False False s _ _ "[]"]
  by (cases "esc_run (False, False) s"; auto simp: ssh_stdin_def)+

text \<open>
  The input ends in a line break and periods; the input ends in that, a tilde, and line
  breaks and tildes.
\<close>

definition after_break :: "string \<Rightarrow> bool" where
  "after_break s = (\<exists>a n ds. s = a @ n # ds \<and> n \<in> {NL, CR} \<and> set ds \<subseteq> {PERIOD})"

definition after_tilde :: "string \<Rightarrow> bool" where
  "after_tilde s = (\<exists>a xs. s = a @ TILDE # xs \<and> after_break a \<and> set xs \<subseteq> {NL, CR, TILDE})"

text \<open>The escape: such an input and a period.\<close>

definition escapes :: "string \<Rightarrow> bool" where
  "escapes s = (\<exists>a c. s = a @ PERIOD # c \<and> after_tilde a)"

lemma after_break_snoc:
  "after_break (s @ [b]) \<longleftrightarrow> b \<in> {NL, CR} \<or> (b = PERIOD \<and> after_break s)"
proof
  assume "after_break (s @ [b])"
  then obtain a n ds where d: "s @ [b] = a @ n # ds" "n \<in> {NL, CR}" "set ds \<subseteq> {PERIOD}"
    unfolding after_break_def by blast
  show "b \<in> {NL, CR} \<or> (b = PERIOD \<and> after_break s)"
  proof (cases ds rule: rev_cases)
    case (snoc ds' d')
    then have "s = a @ n # ds'" "b = d'" using d(1) by auto
    then show ?thesis using d(2,3) snoc unfolding after_break_def by auto
  qed (use d in auto)
next
  assume "b \<in> {NL, CR} \<or> (b = PERIOD \<and> after_break s)"
  then show "after_break (s @ [b])"
  proof
    assume b: "b \<in> {NL, CR}"
    show ?thesis unfolding after_break_def
      by (rule exI [of _ s], rule exI [of _ b], rule exI [of _ "[]"]) (use b in simp)
  next
    assume "b = PERIOD \<and> after_break s"
    then obtain a n ds where "b = PERIOD" "s = a @ n # ds" "n \<in> {NL, CR}" "set ds \<subseteq> {PERIOD}"
      unfolding after_break_def by blast
    then show ?thesis unfolding after_break_def
      by (intro exI [of _ a] exI [of _ n] exI [of _ "ds @ [PERIOD]"]) simp
  qed
qed

lemma after_tilde_snoc:
  "after_tilde (s @ [b]) \<longleftrightarrow> (b = TILDE \<and> after_break s) \<or> (b \<in> {NL, CR, TILDE} \<and> after_tilde s)"
proof
  assume "after_tilde (s @ [b])"
  then obtain a xs where d: "s @ [b] = a @ TILDE # xs" "after_break a" "set xs \<subseteq> {NL, CR, TILDE}"
    unfolding after_tilde_def by blast
  show "(b = TILDE \<and> after_break s) \<or> (b \<in> {NL, CR, TILDE} \<and> after_tilde s)"
  proof (cases xs rule: rev_cases)
    case (snoc xs' x)
    then have "s = a @ TILDE # xs'" "b = x" using d(1) by auto
    then show ?thesis using d(2,3) snoc unfolding after_tilde_def by auto
  qed (use d in auto)
next
  assume "(b = TILDE \<and> after_break s) \<or> (b \<in> {NL, CR, TILDE} \<and> after_tilde s)"
  then show "after_tilde (s @ [b])"
  proof
    assume "b = TILDE \<and> after_break s"
    then show ?thesis unfolding after_tilde_def
      by (intro exI [of _ s] exI [of _ "[]"]) simp
  next
    assume "b \<in> {NL, CR, TILDE} \<and> after_tilde s"
    then obtain a xs where "b \<in> {NL, CR, TILDE}" "s = a @ TILDE # xs" "after_break a" "set xs \<subseteq> {NL, CR, TILDE}"
      unfolding after_tilde_def by blast
    then show ?thesis unfolding after_tilde_def
      by (intro exI [of _ a] exI [of _ "xs @ [b]"]) simp
  qed
qed

lemma not_after_Nil [simp]: "\<not> after_break []" "\<not> after_tilde []"
  by (simp_all add: after_break_def after_tilde_def)

lemma esc_run_state:
  "esc_run (False, False) s = Some (st, out) \<Longrightarrow> st = (after_break s, after_tilde s)"
proof (induction s arbitrary: st out rule: rev_induct)
  case (snoc b s)
  then obtain st' out' where r: "esc_run (False, False) s = Some (st', out')"
    by (auto simp: esc_run_append split: option.splits)
  note st' = snoc.IH [OF r]
  have "esc_step st' b = Some (st, drop (length out') out)"
    using snoc.prems r by (auto simp: esc_run_append split: option.splits)
  then show ?case
    unfolding st' by (auto simp: esc_step_def after_break_snoc after_tilde_snoc split: if_splits)
qed simp

lemma escapes_snoc: "escapes (s @ [b]) \<longleftrightarrow> escapes s \<or> (b = PERIOD \<and> after_tilde s)"
proof
  assume "escapes (s @ [b])"
  then obtain a c where d: "s @ [b] = a @ PERIOD # c" "after_tilde a" unfolding escapes_def by blast
  show "escapes s \<or> (b = PERIOD \<and> after_tilde s)"
  proof (cases c rule: rev_cases)
    case (snoc c' x)
    with d show ?thesis unfolding escapes_def by auto
  qed (use d in auto)
next
  assume "escapes s \<or> (b = PERIOD \<and> after_tilde s)"
  then show "escapes (s @ [b])"
  proof
    assume "escapes s"
    then obtain a c where "s = a @ PERIOD # c" "after_tilde a" unfolding escapes_def by blast
    then show ?thesis unfolding escapes_def by (intro exI [of _ a] exI [of _ "c @ [b]"]) simp
  next
    assume "b = PERIOD \<and> after_tilde s"
    then show ?thesis unfolding escapes_def by (intro exI [of _ s] exI [of _ "[]"]) simp
  qed
qed

lemma esc_run_None_iff: "esc_run (False, False) s = None \<longleftrightarrow> escapes s"
proof (induction s rule: rev_induct)
  case Nil
  then show ?case by (simp add: escapes_def)
next
  case (snoc b s)
  show ?case
  proof (cases "esc_run (False, False) s")
    case None
    with snoc show ?thesis by (simp add: esc_run_append escapes_snoc)
  next
    case (Some so)
    obtain st out where so: "so = (st, out)" by (cases so) auto
    have st: "st = (after_break s, after_tilde s)" using esc_run_state Some so by simp
    have "\<not> escapes s" using snoc Some by simp
    then show ?thesis
      using Some so by (auto simp: esc_run_append escapes_snoc st esc_step_def split: if_splits)
  qed
qed

lemma esc_step_filter:
  "esc_step st b = Some (st', out) \<Longrightarrow> filter (\<lambda>c. c \<noteq> TILDE) out = filter (\<lambda>c. c \<noteq> TILDE) [b]"
  by (auto simp: esc_step_def split: if_splits prod.splits)

lemma esc_run_filter:
  "esc_run st s = Some (st', out) \<Longrightarrow> filter (\<lambda>c. c \<noteq> TILDE) out = filter (\<lambda>c. c \<noteq> TILDE) s"
proof (induction s arbitrary: st out)
  case (Cons b s)
  then obtain st1 o1 where s: "esc_step st b = Some (st1, o1)" by (auto split: option.splits)
  with Cons.prems obtain o2 where o2: "esc_run st1 s = Some (st', o2)" "out = o1 @ o2"
    by (auto split: option.splits)
  with Cons.IH [OF o2(1)] esc_step_filter [OF s] show ?case by simp
qed simp

lemma esc_run_no_tilde: "TILDE \<notin> set s \<Longrightarrow> \<exists>st. esc_run (nl, False) s = Some (st, s)"
proof (induction s arbitrary: nl)
  case (Cons b s)
  define nl' where "nl' = (b = NL \<or> b = CR \<or> (b = PERIOD \<and> nl))"
  have "esc_step (nl, False) b = Some ((nl', False), [b])"
    using Cons.prems by (auto simp: esc_step_def nl'_def)
  moreover obtain st where "esc_run (nl', False) s = Some (st, s)"
    using Cons.IH [of nl'] Cons.prems by auto
  ultimately show ?case by simp
next
  case Nil
  show ?case by (rule exI [of _ "(nl, False)"]) simp
qed

section \<open>Properties\<close>

text \<open>C22: the session is closed by the escape and by nothing else. Copying an input to a writer
  that does not fail closes the session exactly when the input contains a line break, any
  number of periods, a tilde, any number of line breaks and tildes, and a period; the
  sequence \<open>newline, tilde, period\<close> of ssh is the shortest of these.\<close>

theorem stdin_closes_iff:
  "fst (ssh_stdin s) \<longleftrightarrow>
    (\<exists>a n ds xs c. s = a @ n # ds @ TILDE # xs @ PERIOD # c \<and> n \<in> {NL, CR} \<and>
        set ds \<subseteq> {PERIOD} \<and> set xs \<subseteq> {NL, CR, TILDE})"
proof -
  have "fst (ssh_stdin s) \<longleftrightarrow> esc_run (False, False) s = None" by (rule ssh_stdin_esc_run)
  also have "\<dots> \<longleftrightarrow> escapes s" by (rule esc_run_None_iff)
  also have "\<dots> \<longleftrightarrow> (\<exists>a n ds xs c. s = a @ n # ds @ TILDE # xs @ PERIOD # c \<and> n \<in> {NL, CR} \<and>
        set ds \<subseteq> {PERIOD} \<and> set xs \<subseteq> {NL, CR, TILDE})"
  proof
    assume "escapes s"
    then obtain a c b xs a' n ds where "s = a @ PERIOD # c" "a = b @ TILDE # xs" "set xs \<subseteq> {NL, CR, TILDE}"
      "b = a' @ n # ds" "n \<in> {NL, CR}" "set ds \<subseteq> {PERIOD}"
      unfolding escapes_def after_tilde_def after_break_def by blast
    then show "\<exists>a n ds xs c. s = a @ n # ds @ TILDE # xs @ PERIOD # c \<and> n \<in> {NL, CR} \<and>
        set ds \<subseteq> {PERIOD} \<and> set xs \<subseteq> {NL, CR, TILDE}"
      by (intro exI [of _ a'] exI [of _ n] exI [of _ ds] exI [of _ xs] exI [of _ c]) simp
  next
    assume "\<exists>a n ds xs c. s = a @ n # ds @ TILDE # xs @ PERIOD # c \<and> n \<in> {NL, CR} \<and>
        set ds \<subseteq> {PERIOD} \<and> set xs \<subseteq> {NL, CR, TILDE}"
    then obtain a n ds xs c where s: "s = (a @ n # ds @ TILDE # xs) @ PERIOD # c"
      and p: "n \<in> {NL, CR}" "set ds \<subseteq> {PERIOD}" "set xs \<subseteq> {NL, CR, TILDE}" by auto
    have "after_break (a @ n # ds)" unfolding after_break_def using p by blast
    then have "after_tilde ((a @ n # ds) @ TILDE # xs)" unfolding after_tilde_def using p by blast
    then have "after_tilde (a @ n # ds @ TILDE # xs)" by simp
    with s show "escapes s" unfolding escapes_def by blast
  qed
  finally show ?thesis .
qed

text \<open>Nothing but tildes is changed. If the session stays open, what is written is what was
  read up to tildes: without the tildes the two are the same bytes in the same order, and an
  input without a tilde is copied as it is.\<close>

lemma stdin_copies:
  assumes "\<not> fst (ssh_stdin s)"
  shows "filter (\<lambda>c. c \<noteq> TILDE) (snd (ssh_stdin s)) = filter (\<lambda>c. c \<noteq> TILDE) s \<and>
    (TILDE \<notin> set s \<longrightarrow> snd (ssh_stdin s) = s)"
proof -
  obtain st out where r: "esc_run (False, False) s = Some (st, out)"
    using assms ssh_stdin_esc_run(1) [of s] by (cases "esc_run (False, False) s") auto
  note out = ssh_stdin_esc_run(2) [OF r]
  show ?thesis
    using esc_run_filter [OF r] esc_run_no_tilde [of s False] r out by auto
qed

theorem stdin_copies_witness:
  "filter (\<lambda>c. c \<noteq> TILDE) (snd (ssh_stdin [NL, TILDE, NL, CHR ''x''])) = [NL, NL, CHR ''x'']"
proof -
  have "\<not> fst (ssh_stdin [NL, TILDE, NL, CHR ''x''])" by code_simp
  from stdin_copies [OF this] show ?thesis by simp
qed

text \<open>The two copies of the loop agree: \<open>TTYIn\<close> writes what \<open>SSHStdin\<close> writes and closes
  the session when it does, for every writer and from every state.\<close>

lemma TTYIn_eq_SSHStdin: "TTYIn wr newLine tilde s w = SSHStdin wr newLine tilde s w"
  by (induction s arbitrary: newLine tilde w) (auto split: option.splits prod.splits)

text \<open>A tilde read after a line break can be lost or moved. It is held back until another
  ordinary byte comes, so at the end of the input it is never written, and line breaks and
  tildes read after it are written before it.\<close>

lemma stdin_tilde_lost:
  "ssh_stdin ([NL] @ [TILDE]) = (False, [NL]) \<and>
   (set xs \<subseteq> {NL, CR} \<longrightarrow> ssh_stdin (NL # TILDE # xs @ ''x'') = (False, NL # xs @ TILDE # ''x''))"
proof -
  have breaks: "set xs \<subseteq> {NL, CR} \<Longrightarrow> \<exists>nl. esc_run (b, True) xs = Some ((nl, True), xs)" for b
  proof (induction xs arbitrary: b)
    case (Cons x xs)
    then have "esc_step (b, True) x = Some ((True, True), [x])" by (auto simp: esc_step_def)
    moreover have "set xs \<subseteq> {NL, CR}" using Cons.prems by simp
    then obtain nl where "esc_run (True, True) xs = Some ((nl, True), xs)" using Cons.IH by blast
    ultimately show ?case by simp
  qed simp
  have "ssh_stdin (NL # TILDE # xs @ ''x'') = (False, NL # xs @ TILDE # ''x'')" if "set xs \<subseteq> {NL, CR}"
  proof -
    from breaks [OF that, of False] obtain nl where "esc_run (False, True) xs = Some ((nl, True), xs)" by blast
    then have "esc_run (False, False) (NL # TILDE # xs @ ''x'') = Some ((False, False), NL # xs @ TILDE # ''x'')"
      by (simp add: esc_step_def esc_run_append)
    then show ?thesis by (rule ssh_stdin_open)
  qed
  moreover have "ssh_stdin ([NL] @ [TILDE]) = (False, [NL])" by code_simp
  ultimately show ?thesis by blast
qed

theorem stdin_tilde_lost_witness:
  "ssh_stdin (NL # TILDE # [NL] @ ''x'') = (False, NL # [NL] @ TILDE # ''x'')"
  using stdin_tilde_lost [of "[NL]"] by simp

end
