(* ===== verification/ClientFns.thy ===== *)
theory ClientFns
  imports GoPath
begin

text \<open>
  The client's helpers, \<open>client/fns.go\<close>: the nonce, the lookups in the ssh configuration, vsock
  addresses, environment variables and the conversion of \<open>CPU_NAMESPACE\<close> to an fstab.

  The ssh configuration and the environment are parameters: \<open>cfg host key\<close> is \<open>config.Get\<close>
  and \<open>getenv\<close> is \<open>os.Getenv\<close>.
\<close>

section \<open>The nonce\<close>

definition hex_digit :: "nat \<Rightarrow> char" where
  "hex_digit d = (if d < 10 then char_of (48 + d) else char_of (87 + d))"

definition hex_byte :: "u8 \<Rightarrow> string" where
  "hex_byte b = [hex_digit (unat b div 16), hex_digit (unat b mod 16)]"

definition hex_alphabet :: string where
  "hex_alphabet = ''0123456789abcdef''"

text \<open>\<open>rand.Read\<close> into 16 bytes is the parameter; \<open>copy\<close> into the 32 byte array.\<close>

definition generateNonce :: "goerror + u8 list \<Rightarrow> goerror + string" where
  "generateNonce rnd =
     (case rnd of Inl e \<Rightarrow> Inl e
      | Inr b \<Rightarrow> (let s = concat (map hex_byte b) in
                  Inr (take 32 s @ replicate (32 - length s) (CHR 0x00))))"

definition nonce_String :: "string \<Rightarrow> string" where
  "nonce_String n = n"

section \<open>Key file, host, user and port\<close>

definition DefaultPort :: string where
  "DefaultPort = ''17010''"

definition DefaultKeyFile :: "(string \<Rightarrow> string) \<Rightarrow> string" where
  "DefaultKeyFile getenv = path_join [getenv ''HOME'', ''.ssh/cpu_rsa'']"

definition GetKeyFile :: "(string \<Rightarrow> string \<Rightarrow> string) \<Rightarrow> (string \<Rightarrow> string) \<Rightarrow> string \<Rightarrow> string \<Rightarrow> string" where
  "GetKeyFile cfg getenv host kf0 =
     (let kf = (if length kf0 = 0 then
                  (let k = cfg host ''IdentityFile'' in
                   if length k = 0 then DefaultKeyFile getenv else k)
                else kf0) in
      if has_prefix kf ''~'' then path_join [getenv ''HOME'', drop 1 kf] else kf)"

definition GetHostName :: "(string \<Rightarrow> string \<Rightarrow> string) \<Rightarrow> string \<Rightarrow> string" where
  "GetHostName cfg host = (let h = cfg host ''HostName'' in if length h \<noteq> 0 then h else host)"

definition GetHostUser ::
    "(string \<Rightarrow> string \<Rightarrow> string) \<Rightarrow> (string \<Rightarrow> string) \<Rightarrow> string \<Rightarrow> string \<times> string" where
  "GetHostUser cfg getenv n =
     (case cut CHR ''@'' n of
        Some (u, h) \<Rightarrow> (GetHostName cfg h, u)
      | None \<Rightarrow>
          (let cp = cfg n ''User'' in
           if length cp \<noteq> 0 then (GetHostName cfg n, cp)
           else (GetHostName cfg n, getenv ''USER'')))"

definition GetPort :: "(string \<Rightarrow> string \<Rightarrow> string) \<Rightarrow> string \<Rightarrow> string \<Rightarrow> string \<times> goerror option" where
  "GetPort cfg host port =
     (let p0 = port;
          p1 = (if length port = 0 then
                  (let cp = cfg host ''Port'' in if length cp \<noteq> 0 then cp else p0)
                else p0);
          p2 = (if length p1 = 0 \<or> p1 = ''22'' then DefaultPort else p1)
      in (p2, None))"

definition vsockIDPort :: "string \<Rightarrow> string \<Rightarrow> goerror + (u32 \<times> u32)" where
  "vsockIDPort host port =
     (case parse_uint host 32 of Inl e \<Rightarrow> Inl e
      | Inr h \<Rightarrow>
          (case parse_uint port 32 of Inl e \<Rightarrow> Inl e
           | Inr p \<Rightarrow> Inr (of_nat h, of_nat p)))"

section \<open>Environment\<close>

text \<open>
  \<open>SetEnv\<close>: \<open>setenv\<close> is the session's \<open>Setenv\<close>. The \<open>err\<close> the loop assigns is the one
  the \<open>if\<close> declares; the one returned is never assigned.
\<close>

fun SetEnv_loop :: "(string \<Rightarrow> string \<Rightarrow> 's \<Rightarrow> goerror option \<times> 's) \<Rightarrow> string list \<Rightarrow> 's
    \<Rightarrow> goerror option \<Rightarrow> goerror option \<times> 's" where
  "SetEnv_loop setenv [] s err = (err, s)"
| "SetEnv_loop setenv (v # vs) s err =
     (let env0 = splitn2 CHR ''='' v;
          env = (if length env0 = 1 then env0 @ [[]] else env0)
      in case setenv (env ! 0) (env ! 1) s of
           (Some inner, s') \<Rightarrow> SetEnv_loop setenv vs s' err
         | (None, s') \<Rightarrow> SetEnv_loop setenv vs s' err)"

definition SetEnv :: "(string \<Rightarrow> string \<Rightarrow> 's \<Rightarrow> goerror option \<times> 's) \<Rightarrow> string list \<Rightarrow> 's
    \<Rightarrow> goerror option \<times> 's" where
  "SetEnv setenv envs s = SetEnv_loop setenv envs s None"

section \<open>Binds and fstabs\<close>

definition bind_line :: "string \<Rightarrow> string \<Rightarrow> string" where
  "bind_line local_name remote =
     path_join [''/tmp'', ''cpu'', remote] @ '' '' @ local_name @ '' none defaults,bind 0 0'' @ [NL]"

text \<open>The loop of \<open>ParseBinds\<close>: the element number, the elements left and the fstab so far.\<close>

fun ParseBinds_loop :: "nat \<Rightarrow> string list \<Rightarrow> string \<Rightarrow> string \<times> goerror option" where
  "ParseBinds_loop i [] fstab = (fstab, None)"
| "ParseBinds_loop i (b # binds) fstab =
     (if length b = 0 then
        ([], Some (Wrapf ''bind: element %d is zero length:%w'' [show_nat i] (Some ErrSyntax)))
      else
        (let c = splitn2 CHR ''='' b;
             l = c ! 0;
             r = (if length c = 1 then c ! 0 else c ! 1)
         in if length l = 0 then
              (fstab, Some (Wrapf ''bind: element %d(%q): local is 0 length:%w'' [show_nat i, b] (Some ErrSyntax)))
            else if length r = 0 then
              (fstab, Some (Wrapf ''bind: element %d(%q): remote is 0 length:%w'' [show_nat i, b] (Some ErrSyntax)))
            else ParseBinds_loop (Suc i) binds (fstab @ bind_line l r)))"

definition ParseBinds :: "string \<Rightarrow> string \<times> goerror option" where
  "ParseBinds s = (if length s = 0 then ([], None) else ParseBinds_loop 0 (split_on CHR '':'' s) [])"

definition JoinFSTab :: "string list \<Rightarrow> string" where
  "JoinFSTab tables =
     (if length tables = 0 then []
      else join_with [NL] (map (\<lambda>t. if length t = 0 then t else trim_left NL (trim_right NL t)) tables) @ [NL])"

section \<open>Facts\<close>

lemma hex_digit_val: "d < 16 \<Longrightarrow> (of_char (hex_digit d) :: nat) = (if d < 10 then 48 + d else 87 + d)"
  by (simp add: hex_digit_def)

lemma hex_digit_inject:
  assumes "a < 16" and "b < 16" and "hex_digit a = hex_digit b"
  shows "a = b"
proof -
  have "(if a < 10 then 48 + a else 87 + a) = (if b < 10 then 48 + b else 87 + b)"
    using hex_digit_val [OF assms(1)] hex_digit_val [OF assms(2)] assms(3) by simp
  with assms(1,2) show ?thesis by (simp split: if_splits)
qed

lemma unat_u8_bound: "unat (b :: u8) < 256"
proof -
  have "unat b < 2 ^ LENGTH(8)" by (rule unsigned_less)
  then show ?thesis by simp
qed

lemma unat_u32_bound: "unat (b :: u32) < 2 ^ 32"
proof -
  have "unat b < 2 ^ LENGTH(32)" by (rule unsigned_less)
  then show ?thesis by simp
qed

lemma hex_byte_inject: "hex_byte a = hex_byte b \<Longrightarrow> a = b"
proof -
  assume h: "hex_byte a = hex_byte b"
  have lt: "unat a div 16 < 16" "unat b div 16 < 16"
    using unat_u8_bound [of a] unat_u8_bound [of b] by simp_all
  have "unat a div 16 = unat b div 16" "unat a mod 16 = unat b mod 16"
    using h hex_digit_inject lt by (simp_all add: hex_byte_def)
  then have "unat a = unat b" by (metis div_mult_mod_eq)
  then show "a = b" by (simp add: word_unat_eq_iff)
qed

lemma length_hex: "length (concat (map hex_byte bs)) = 2 * length bs"
  by (induction bs) (simp_all add: hex_byte_def)

lemma hex_inject: "concat (map hex_byte as) = concat (map hex_byte bs) \<Longrightarrow> as = bs"
proof (induction "as" arbitrary: bs)
  case Nil
  then show ?case using length_hex [of bs] by (metis concat.simps(1) length_0_conv list.simps(8) mult_is_0 zero_neq_numeral)
next
  case (Cons a as)
  then obtain b bs' where bs: "bs = b # bs'"
    by (cases bs) (simp_all add: hex_byte_def)
  have len: "length (hex_byte x) = 2" for x by (simp add: hex_byte_def)
  have "hex_byte a @ concat (map hex_byte as) = hex_byte b @ concat (map hex_byte bs')"
    using Cons.prems bs by simp
  then have "hex_byte a = hex_byte b" "concat (map hex_byte as) = concat (map hex_byte bs')"
    using len [of a] len [of b] by simp_all
  with Cons.IH bs show ?case using hex_byte_inject by blast
qed

text \<open>An element of the namespace string: the local and the remote name, or the error.\<close>

definition bind_ok :: "string \<Rightarrow> (string \<times> string) option" where
  "bind_ok b =
     (case cut CHR ''='' b of
        None \<Rightarrow> if b = [] then None else Some (b, b)
      | Some (l, r) \<Rightarrow> if l = [] \<or> r = [] then None else Some (l, r))"

lemma cut_Nil_parts: "cut c b = Some (l, r) \<Longrightarrow> b \<noteq> []"
  by (cases b) auto

lemma ParseBinds_loop_step:
  "ParseBinds_loop i (b # bs) fstab =
    (case bind_ok b of
       Some (l, r) \<Rightarrow> ParseBinds_loop (Suc i) bs (fstab @ bind_line l r)
     | None \<Rightarrow> ParseBinds_loop i [b] fstab)"
  by (auto simp: bind_ok_def splitn2_def Let_def split: option.splits dest: cut_Nil_parts)

lemma ParseBinds_loop_error:
  "bind_ok b = None \<Longrightarrow> \<exists>e. snd (ParseBinds_loop i [b] fstab) = Some e \<and> errors_is e ErrSyntax"
  by (auto simp: bind_ok_def splitn2_def Let_def split: option.splits if_splits dest: cut_Nil_parts)

lemma ParseBinds_loop_result:
  "(if list_all (\<lambda>b. bind_ok b \<noteq> None) bs
    then ParseBinds_loop i bs fstab = (fstab @ concat (map (\<lambda>b. case_prod bind_line (the (bind_ok b))) bs), None)
    else \<exists>e. snd (ParseBinds_loop i bs fstab) = Some e \<and> errors_is e ErrSyntax)"
proof (induction bs arbitrary: i fstab)
  case (Cons b bs)
  show ?case
  proof (cases "bind_ok b")
    case None
    with ParseBinds_loop_error [OF None, of i fstab] show ?thesis
      by (simp only: ParseBinds_loop_step [of i b bs] list.pred_inject(2)) simp
  next
    case (Some lr)
    obtain l r where lr: "lr = (l, r)" by force
    show ?thesis
      using Cons.IH [of "Suc i" "fstab @ bind_line l r"] Some lr
      by (simp only: ParseBinds_loop_step [of i b bs] list.pred_inject(2)) (simp split: if_splits)
  qed
qed simp

section \<open>Properties\<close>

text \<open>A nonce is 32 hexadecimal digits and keeps all of its 16 random bytes: different bytes
  give different nonces, and reading too few bytes is the only way to fail.\<close>

lemma nonce_injective:
  assumes "generateNonce (Inr as) = Inr m" and "generateNonce (Inr bs) = Inr n"
    and "length as = 16" and "length bs = 16"
  shows "length (nonce_String m) = 32 \<and> set m \<subseteq> set hex_alphabet \<and> (m = n \<longleftrightarrow> as = bs)"
proof -
  have mn: "m = concat (map hex_byte as)" "n = concat (map hex_byte bs)"
    using assms length_hex [of "as"] length_hex [of bs] by (auto simp: generateNonce_def Let_def)
  have hd: "hex_digit d \<in> set hex_alphabet" if "d < 16" for d
  proof -
    have "list_all (\<lambda>d. hex_digit d \<in> set hex_alphabet) [0..<16]" by code_simp
    moreover from that have "d \<in> set [0..<16]" by simp
    ultimately show ?thesis unfolding list_all_iff by (rule bspec)
  qed
  have "hex_digit (unat b div 16) \<in> set hex_alphabet" for b :: u8
    using unat_u8_bound [of b] by (intro hd) simp
  moreover have "hex_digit (unat b mod 16) \<in> set hex_alphabet" for b :: u8
    by (intro hd) simp
  ultimately have "set m \<subseteq> set hex_alphabet"
    unfolding mn by (auto simp: hex_byte_def)
  then show ?thesis
    using mn hex_inject length_hex [of "as"] assms(3) by (auto simp: nonce_String_def)
qed

theorem nonce_injective_witness:
  "length (nonce_String (concat (map hex_byte (replicate 16 0xa5)))) = 32"
proof -
  have "length (concat (map hex_byte (replicate 16 0xa5))) = 32" by (simp only: length_hex length_replicate)
  then have n: "generateNonce (Inr (replicate 16 0xa5)) = Inr (concat (map hex_byte (replicate 16 0xa5)))"
    by (simp only: generateNonce_def sum.case Let_def) simp
  from nonce_injective [OF n n] show ?thesis by simp
qed

text \<open>\<open>GetPort\<close> never fails and never checks. Its error is always nil; an explicit port that is
  not empty and not \<open>22\<close> is returned as it is, number or not; everything else is the port of
  the configuration or, for an empty port and for \<open>22\<close>, \<open>17010\<close>, so the result is never empty
  and never \<open>22\<close>.\<close>

lemma GetPort_result:
  "snd (GetPort cfg host port) = None \<and> fst (GetPort cfg host port) \<notin> {[], ''22''} \<and>
   fst (GetPort cfg host port) =
     (let p = if port = [] then cfg host ''Port'' else port in if p \<in> {[], ''22''} then ''17010'' else p)"
  by (auto simp: GetPort_def Let_def DefaultPort_def)

text \<open>Vsock addresses keep their value. \<open>vsockIDPort\<close> succeeds exactly when both strings
  are numbers that fit in 32 bits, the conversion to \<open>uint32\<close> then loses nothing, and the
  decimal notations of any two 32 bit numbers are read back as these numbers.\<close>

lemma vsockIDPort_exact:
  "(vsockIDPort host port = Inr (h, p) \<longleftrightarrow>
      parse_uint host 32 = Inr (unat h) \<and> parse_uint port 32 = Inr (unat p)) \<and>
   vsockIDPort (show_nat (unat h)) (show_nat (unat p)) = Inr (h, p)"
proof -
  have small: "parse_uint s 32 = Inr n \<Longrightarrow> unat (of_nat n :: u32) = n" for s n
    using parse_uint_bound [of s 32 n] by (simp add: unat_of_nat)
  have "unat h < 2 ^ 32" "unat p < 2 ^ 32" by (rule unat_u32_bound)+
  then have "vsockIDPort (show_nat (unat h)) (show_nat (unat p)) = Inr (h, p)"
    by (simp add: vsockIDPort_def parse_uint_show)
  moreover have "vsockIDPort host port = Inr (h, p) \<longleftrightarrow>
      parse_uint host 32 = Inr (unat h) \<and> parse_uint port 32 = Inr (unat p)"
    using small by (auto simp: vsockIDPort_def split: sum.splits)
  ultimately show ?thesis by simp
qed

text \<open>\<open>SetEnv\<close> reports nothing. Whatever the session answers, and however many of the
  variables it refuses, the error returned is nil; the variables are all tried, in order, each
  split at its first equals sign.\<close>

lemma SetEnv_swallows_errors:
  "fst (SetEnv setenv envs s) = None \<and>
   snd (SetEnv (\<lambda>k v log. (fail k, log @ [(k, v)])) envs []) =
     map (\<lambda>e. case cut CHR ''='' e of None \<Rightarrow> (e, []) | Some kv \<Rightarrow> kv) envs"
proof -
  have "fst (SetEnv_loop setenv envs s err) = err" for err
    by (induction setenv envs s err rule: SetEnv_loop.induct)
       (auto simp: Let_def split: prod.splits option.splits)
  moreover have "snd (SetEnv_loop (\<lambda>k v log. (fail k, log @ [(k, v)])) envs log err) =
      log @ map (\<lambda>e. case cut CHR ''='' e of None \<Rightarrow> (e, []) | Some kv \<Rightarrow> kv) envs" for log err
    by (induction envs arbitrary: log)
       (auto simp: Let_def splitn2_def split: option.splits)
  ultimately show ?thesis by (simp add: SetEnv_def)
qed

text \<open>\<open>ParseBinds\<close> accepts exactly the well-formed namespaces. Without an error the fstab
  has one line for each element between colons, in order: an element is a name, bound to
  itself, or a non-empty local and a non-empty remote name around the first equals sign; if
  any element is not of that form the result is a syntax error.\<close>

lemma ParseBinds_correct:
  assumes "s \<noteq> []"
  shows "if list_all (\<lambda>b. bind_ok b \<noteq> None) (split_on CHR '':'' s)
    then ParseBinds s =
      (concat (map (\<lambda>b. case_prod bind_line (the (bind_ok b))) (split_on CHR '':'' s)), None)
    else \<exists>e. snd (ParseBinds s) = Some e \<and> errors_is e ErrSyntax"
  using ParseBinds_loop_result [of "split_on CHR '':'' s" 0 "[]"] assms by (simp add: ParseBinds_def)

theorem ParseBinds_correct_witness:
  "ParseBinds ''/bin:/home=/h'' = (bind_line ''/bin'' ''/bin'' @ bind_line ''/home'' ''/h'', None)"
proof -
  have "''/bin:/home=/h'' \<noteq> []" by simp
  moreover have "map bind_ok (split_on CHR '':'' ''/bin:/home=/h'') = [Some (''/bin'', ''/bin''), Some (''/home'', ''/h'')]"
    by code_simp
  ultimately show ?thesis using ParseBinds_correct [of "''/bin:/home=/h''"] by (simp add: bind_ok_def)
qed

text \<open>A bind stays in the served tree if its remote name has no dot-dot element: the
  device of its fstab line is then \<open>/tmp/cpu\<close> followed by the elements of the remote name. A
  dot-dot element leaves it: two of them reach the root of the server's own name space.\<close>

lemma bind_line_confined:
  assumes "no_dotdot remote" and "remote \<noteq> []"
  shows "bind_line l remote =
      join_with [SLASH] ([[], ''tmp'', ''cpu''] @ filter (\<lambda>c. c \<noteq> [] \<and> c \<noteq> DOT) (split_on SLASH remote))
        @ '' '' @ l @ '' none defaults,bind 0 0'' @ [NL]
    \<and> bind_line l ''../../etc'' = ''/etc '' @ l @ '' none defaults,bind 0 0'' @ [NL]"
proof -
  have r: "all_proper [''tmp'', ''cpu'']" "[''tmp'', ''cpu''] \<noteq> []" by code_simp+
  have "path_join [''/tmp'', ''cpu'', remote] = path_join [SLASH # join_with [SLASH] [''tmp'', ''cpu''], remote]"
    by (simp add: path_join_def)
  moreover have "path_join [''/tmp'', ''cpu'', ''../../etc''] = ''/etc''" by code_simp
  ultimately show ?thesis
    using path_join_below [OF r assms] by (simp add: bind_line_def join_with_Cons)
qed

theorem bind_line_confined_witness:
  "bind_line ''/home'' ''/h//me/'' = ''/tmp/cpu/h/me /home none defaults,bind 0 0'' @ [NL]"
proof -
  have "no_dotdot ''/h//me/''" "''/h//me/'' \<noteq> []" by code_simp+
  from bind_line_confined [OF this, of "''/home''"] show ?thesis by simp
qed

end
