(* ===== verification/ShellWords.thy ===== *)
theory ShellWords
  imports GoStrings
begin

text \<open>
  Quoting of the remote command, \<open>quoteArg\<close> of \<open>client/client.go\<close>, against the word splitting
  of the POSIX shell language, which is what the other end promises to undo it with.

  \<open>shell_words\<close> is that language's splitting: white space between words, single quotes that
  keep everything, double quotes and backslashes. It is a specification; the round trip says
  that every list of arguments survives being quoted, joined by blanks and split.
\<close>

definition quoteArg :: "string \<Rightarrow> string" where
  "quoteArg arg = [QUOTE] @ replace_all arg QUOTE [QUOTE, DQUOTE, QUOTE, DQUOTE, QUOTE] @ [QUOTE]"

text \<open>The arguments as \<open>Start\<close> joins them.\<close>

definition quote_args :: "string list \<Rightarrow> string" where
  "quote_args args = join_with '' '' (map quoteArg args)"

section \<open>Word splitting\<close>

datatype quoting = Plain | Single | Double

abbreviation BACKSLASH :: char where "BACKSLASH \<equiv> CHR 0x5c"

text \<open>
  The state is the quoting and the word begun, if one is; the result is \<open>None\<close> for an
  unfinished quote or escape.
\<close>

fun shell_split :: "quoting \<Rightarrow> string option \<Rightarrow> string \<Rightarrow> string list option" where
  "shell_split q w [] =
     (if q \<noteq> Plain then None else Some (case w of None \<Rightarrow> [] | Some u \<Rightarrow> [u]))"
| "shell_split Plain w (c # cs) =
     (if is_space c then
        (case w of None \<Rightarrow> shell_split Plain None cs
         | Some u \<Rightarrow> map_option ((#) u) (shell_split Plain None cs))
      else if c = QUOTE then shell_split Single (Some (case w of None \<Rightarrow> [] | Some u \<Rightarrow> u)) cs
      else if c = DQUOTE then shell_split Double (Some (case w of None \<Rightarrow> [] | Some u \<Rightarrow> u)) cs
      else if c = BACKSLASH then
        (case cs of [] \<Rightarrow> None
         | d # ds \<Rightarrow> shell_split Plain (Some ((case w of None \<Rightarrow> [] | Some u \<Rightarrow> u) @ [d])) ds)
      else shell_split Plain (Some ((case w of None \<Rightarrow> [] | Some u \<Rightarrow> u) @ [c])) cs)"
| "shell_split Single w (c # cs) =
     (if c = QUOTE then shell_split Plain w cs
      else shell_split Single (Some ((case w of None \<Rightarrow> [] | Some u \<Rightarrow> u) @ [c])) cs)"
| "shell_split Double w (c # cs) =
     (if c = DQUOTE then shell_split Plain w cs
      else if c = BACKSLASH then
        (case cs of [] \<Rightarrow> None
         | d # ds \<Rightarrow>
             if d \<in> {DQUOTE, BACKSLASH, CHR ''$'', CHR 0x60} then
               shell_split Double (Some ((case w of None \<Rightarrow> [] | Some u \<Rightarrow> u) @ [d])) ds
             else shell_split Double (Some ((case w of None \<Rightarrow> [] | Some u \<Rightarrow> u) @ [c, d])) ds)
      else shell_split Double (Some ((case w of None \<Rightarrow> [] | Some u \<Rightarrow> u) @ [c])) cs)"

definition shell_words :: "string \<Rightarrow> string list option" where
  "shell_words s = shell_split Plain None s"

section \<open>The round trip\<close>

lemma split_quoted_body:
  "shell_split Single (Some u) (replace_all a QUOTE [QUOTE, DQUOTE, QUOTE, DQUOTE, QUOTE] @ QUOTE # cs) =
    shell_split Plain (Some (u @ a)) cs"
proof (induction a arbitrary: u)
  case Nil
  then show ?case by (simp add: replace_all_def)
next
  case (Cons x a)
  then show ?case by (simp add: replace_all_def is_space_def)
qed

lemma split_quoteArg: "shell_split Plain None (quoteArg a @ cs) = shell_split Plain (Some a) cs"
  using split_quoted_body [of "[]" a cs] by (simp add: quoteArg_def is_space_def)

lemma split_quote_args: "shell_split Plain None (quote_args args) = Some args"
proof (induction args rule: induct_list012)
  case (2 a)
  then show ?case using split_quoteArg [of a "[]"] by (simp add: quote_args_def)
next
  case (3 a b args)
  have "shell_split Plain None (quote_args (a # b # args)) =
      shell_split Plain (Some a) (CHR '' '' # quote_args (b # args))"
    using split_quoteArg [of a "CHR '' '' # quote_args (b # args)"] by (simp add: quote_args_def)
  with 3 show ?case by (simp add: is_space_def)
qed (simp add: quote_args_def)

text \<open>A plain word before the arguments.\<close>

definition plain_char :: "char \<Rightarrow> bool" where
  "plain_char c = (\<not> is_space c \<and> c \<noteq> QUOTE \<and> c \<noteq> DQUOTE \<and> c \<noteq> BACKSLASH)"

lemma split_plain_from:
  "list_all plain_char p \<Longrightarrow> shell_split Plain (Some u) (p @ cs) = shell_split Plain (Some (u @ p)) cs"
  by (induction p arbitrary: u) (auto simp: plain_char_def)

lemma split_plain:
  "list_all plain_char p \<Longrightarrow> p \<noteq> [] \<Longrightarrow> shell_split Plain None (p @ cs) = shell_split Plain (Some p) cs"
  using split_plain_from [of "tl p" "[hd p]" cs]
  by (cases p) (auto simp: plain_char_def)

lemma shell_words_command:
  "list_all plain_char p \<Longrightarrow>
    shell_words (p @ '' '' @ quote_args args) = Some ((if p = [] then [] else [p]) @ args)"
  using split_plain [of p "'' '' @ quote_args args"] split_quote_args [of args]
  by (cases "p = []") (simp_all add: shell_words_def is_space_def)

text \<open>C21: quoting is undone by shell splitting. Every list of arguments, with any bytes in
  them, empty arguments and quotes included, is what a shell reads from the arguments quoted
  and joined by blanks.\<close>

theorem quote_round_trip: "shell_words (join_with '' '' (map quoteArg args)) = Some args"
  using split_quote_args [of args] by (simp add: shell_words_def quote_args_def)

end
