(* ===== verification/ClientCmd.thy ===== *)
theory ClientCmd
  imports ClientFns ShellWords
begin

text \<open>
  The cpu client, \<open>client/client.go\<close> and \<open>client/srv.go\<close>: the record \<open>Cmd\<close>, the options,
  \<open>Dial\<close>, \<open>Start\<close>, \<open>Close\<close> and the check of the nonce before the 9P server is started.

  The ssh connection, files, the terminal and the environment are the fields of \<open>dial_ext\<close> and
  \<open>start_ext\<close>, the answers they give in one run of \<open>Dial\<close> or \<open>Start\<close>. A method returns its
  error with the changed \<open>Cmd\<close>, which keeps what was set before the error. The copying of
  standard streams by goroutines after \<open>Start\<close> is not part of the model, apart from the escape
  handling (theory Escape).
\<close>

section \<open>State\<close>

datatype closer = CloseSession | CloseSessionIn | RestoreTerminal

record 'a Cmd =
  c_Host :: string
  c_HostName :: string
  c_Args :: "string list"
  c_Root :: string
  c_HostKeyFile :: string
  c_PrivateKeyFile :: string
  c_DisablePrivateKey :: bool
  c_Port :: string
  c_Timeout :: int
  c_Env :: "string list option"
  c_Row :: int
  c_Col :: int
  c_hasTTY :: bool
  c_NameSpace :: string
  c_FSTab :: string
  c_Ninep :: bool
  c_nonce :: string
  c_network :: string
  c_port9p :: u16
  c_cmd :: string
  c_closers :: "closer list"
  c_fileServer :: "'a option"
  c_user :: string
  c_auth :: "string list"
  c_hostKey :: "string option"
  c_client :: bool
  c_session :: bool

text \<open>\<open>append\<close> to a slice that may be nil, which a nil \<open>Env\<close> is.\<close>

definition env_append :: "string list option \<Rightarrow> string list \<Rightarrow> string list option" where
  "env_append env es = Some ((case env of None \<Rightarrow> [] | Some e \<Rightarrow> e) @ es)"

text \<open>\<open>Command\<close>: \<open>lookup_shell\<close> is \<open>$SHELL\<close> and \<open>size\<close> the terminal's size. Durations are
  nanoseconds.\<close>

definition Command :: "(string \<Rightarrow> string \<Rightarrow> string) \<Rightarrow> (string \<Rightarrow> string) \<Rightarrow> string option
    \<Rightarrow> goerror + (int \<times> int) \<Rightarrow> string \<Rightarrow> string list \<Rightarrow> 'a Cmd" where
  "Command cfg getenv lookup_shell term_size host args0 =
     (let args = (if length args0 = 0 then
                    [case lookup_shell of None \<Rightarrow> ''/bin/sh'' | Some s \<Rightarrow> s] else args0);
          tty = (case term_size of Inl _ \<Rightarrow> False | Inr _ \<Rightarrow> True);
          cr = (case term_size of Inl _ \<Rightarrow> (80, 40) | Inr c \<Rightarrow> c);
          hu = GetHostUser cfg getenv host
      in \<lparr>c_Host = host, c_HostName = fst hu, c_Args = args, c_Root = [], c_HostKeyFile = [],
          c_PrivateKeyFile = [], c_DisablePrivateKey = False, c_Port = DefaultPort,
          c_Timeout = 100000000, c_Env = None, c_Row = snd cr, c_Col = fst cr, c_hasTTY = tty,
          c_NameSpace = [], c_FSTab = [], c_Ninep = False, c_nonce = replicate 32 (CHR 0x00),
          c_network = ''tcp'', c_port9p = 0, c_cmd = [], c_closers = [], c_fileServer = None,
          c_user = snd hu, c_auth = [], c_hostKey = None, c_client = False, c_session = False\<rparr>)"

section \<open>Options\<close>

type_synonym 'a cset = "'a Cmd \<Rightarrow> goerror option \<times> 'a Cmd"

fun SetOptions :: "'a Cmd \<Rightarrow> 'a cset list \<Rightarrow> goerror option \<times> 'a Cmd" where
  "SetOptions c [] = (None, c)"
| "SetOptions c (f # fs) =
     (case f c of (Some e, c') \<Rightarrow> (Some e, c') | (None, c') \<Rightarrow> SetOptions c' fs)"

definition WithServer :: "'a \<Rightarrow> 'a cset" where
  "WithServer a c = (None, c\<lparr>c_fileServer := Some a\<rparr>)"

definition With9P :: "bool \<Rightarrow> 'a cset" where
  "With9P p9 c = (None, c\<lparr>c_Ninep := p9\<rparr>)"

definition WithNameSpace :: "string \<Rightarrow> 'a cset" where
  "WithNameSpace ns c = (None, c\<lparr>c_NameSpace := ns\<rparr>)"

definition WithFSTab :: "(string \<Rightarrow> goerror + string) \<Rightarrow> string \<Rightarrow> 'a cset" where
  "WithFSTab read_file fstab c =
     (if length fstab = 0 then (None, c)
      else case read_file fstab of
        Inl e \<Rightarrow> (Some (Wrapf ''Reading fstab: %w'' [] (Some e)), c)
      | Inr b \<Rightarrow> (None, c\<lparr>c_FSTab := b\<rparr>))"

definition WithTimeout :: "(string \<Rightarrow> goerror + int) \<Rightarrow> string \<Rightarrow> 'a cset" where
  "WithTimeout parse_duration timeout c =
     (case parse_duration timeout of Inl e \<Rightarrow> (Some e, c) | Inr d \<Rightarrow> (None, c\<lparr>c_Timeout := d\<rparr>))"

definition WithPrivateKeyFile :: "string \<Rightarrow> 'a cset" where
  "WithPrivateKeyFile key c = (None, c\<lparr>c_PrivateKeyFile := key\<rparr>)"

definition WithDisablePrivateKey :: "bool \<Rightarrow> 'a cset" where
  "WithDisablePrivateKey disable c = (None, c\<lparr>c_DisablePrivateKey := disable\<rparr>)"

definition WithHostKeyFile :: "string \<Rightarrow> 'a cset" where
  "WithHostKeyFile key c = (None, c\<lparr>c_HostKeyFile := key\<rparr>)"

definition WithRoot :: "string \<Rightarrow> 'a cset" where
  "WithRoot root c = (None, c\<lparr>c_Root := root\<rparr>)"

definition WithNetwork :: "string \<Rightarrow> 'a cset" where
  "WithNetwork network c = (None, if 0 < length network then c\<lparr>c_network := network\<rparr> else c)"

definition WithPort :: "(string \<Rightarrow> string \<Rightarrow> string) \<Rightarrow> string \<Rightarrow> 'a cset" where
  "WithPort cfg port c =
     (if length port = 0 then
        (case GetPort cfg (c_HostName c) (c_Port c) of
           (p, Some e) \<Rightarrow> (Some e, c)
         | (p, None) \<Rightarrow> (None, c\<lparr>c_Port := p\<rparr>))
      else (None, c\<lparr>c_Port := port\<rparr>))"

section \<open>Keys\<close>

text \<open>\<open>UserKeyConfig\<close>: the signer is named by what \<open>ssh.ParsePrivateKey\<close> returns.\<close>

definition UserKeyConfig :: "(string \<Rightarrow> string \<Rightarrow> string) \<Rightarrow> (string \<Rightarrow> string)
    \<Rightarrow> (string \<Rightarrow> goerror + string) \<Rightarrow> (string \<Rightarrow> goerror + string) \<Rightarrow> 'a cset" where
  "UserKeyConfig cfg getenv read_file parse_key c =
     (if c_DisablePrivateKey c then (None, c)
      else
        (let kf0 = c_PrivateKeyFile c;
             kf1 = (if length kf0 = 0 then
                      (let k = cfg (c_Host c) ''IdentityFile'' in
                       if length k = 0 then DefaultKeyFile getenv else k)
                    else kf0);
             kf = (if has_prefix kf1 ''~/'' then path_join [getenv ''HOME'', drop 1 kf1] else kf1)
         in case read_file kf of
              Inl e \<Rightarrow> (Some (Wrapf ''unable to read private key %q: %w'' [kf] (Some e)), c)
            | Inr key \<Rightarrow>
                (case parse_key key of
                   Inl e \<Rightarrow> (Some (Errorf ''ParsePrivateKey %q: %v'' [kf]), c)
                 | Inr signer \<Rightarrow> (None, c\<lparr>c_auth := c_auth c @ [signer]\<rparr>))))"

definition HostKeyConfig ::
    "(string \<Rightarrow> goerror + string) \<Rightarrow> (string \<Rightarrow> goerror + string) \<Rightarrow> string \<Rightarrow> 'a cset" where
  "HostKeyConfig read_file parse_public hostKeyFile c =
     (case read_file hostKeyFile of
        Inl e \<Rightarrow> (Some (Errorf ''unable to read host key %v: %v'' [hostKeyFile]), c)
      | Inr hk \<Rightarrow>
          (case parse_public hk of
             Inl e \<Rightarrow> (Some (Errorf ''host key %v: %v'' [hk]), c)
           | Inr pk \<Rightarrow> (None, c\<lparr>c_hostKey := Some pk\<rparr>)))"

section \<open>Connecting\<close>

definition show_hex :: "nat \<Rightarrow> string" where
  "show_hex n = ''0x'' @ (let ds = dropWhile (\<lambda>d. d = 0) (map (\<lambda>i. (n div 16 ^ i) mod 16) (rev [0..<8]))
                          in map hex_digit (if ds = [] then [0] else ds))"

definition vsockDial :: "(u32 \<Rightarrow> u32 \<Rightarrow> goerror option) \<Rightarrow> string \<Rightarrow> string \<Rightarrow> goerror + string" where
  "vsockDial dial host port =
     (case vsockIDPort host port of
        Inl e \<Rightarrow> Inl e
      | Inr (id_num, portid) \<Rightarrow>
          (case dial id_num portid of
             Some e \<Rightarrow> Inl e
           | None \<Rightarrow> Inr (show_hex (unat id_num) @ '':'' @ show_nat (unat portid))))"

text \<open>
  \<open>unixVsockDial\<close> after the connect message was sent: \<open>reply\<close> is the stream of the connection,
  and the result what is left of it. \<open>io.ReadFull\<close> on a stream that ends too early is an error.
\<close>

fun skip_line :: "string \<Rightarrow> goerror + string" where
  "skip_line [] = Inl EOF_err"
| "skip_line (b # r) = (if b = NL then Inr r else skip_line r)"

definition unixVsockDial :: "goerror + string \<Rightarrow> (string \<Rightarrow> goerror option) \<Rightarrow> string \<Rightarrow> goerror + string" where
  "unixVsockDial conn write port =
     (case conn of
        Inl e \<Rightarrow> Inl e
      | Inr reply \<Rightarrow>
          (case write (''CONNECT '' @ port @ [NL]) of
             Some e \<Rightarrow> Inl (Wrapf ''sending connect request: %w'' [] (Some e))
           | None \<Rightarrow>
               if length reply < 2 then Inl (Wrapf ''reading connect request: %w'' [] (Some EOF_err))
               else if take 2 reply \<noteq> ''OK'' then
                 Inl (Errorf ''vsock: expect OK, got %s'' [take 2 reply])
               else skip_line (drop 2 reply)))"

text \<open>\<open>net.JoinHostPort\<close>.\<close>

definition JoinHostPort :: "string \<Rightarrow> string \<Rightarrow> string" where
  "JoinHostPort host port =
     (if CHR '':'' \<in> set host \<or> CHR 0x25 \<in> set host then ''['' @ host @ '']:'' @ port
      else host @ '':'' @ port)"

record dial_ext =
  dx_cfg :: "string \<Rightarrow> string \<Rightarrow> string"
  dx_getenv :: "string \<Rightarrow> string"
  dx_read_file :: "string \<Rightarrow> goerror + string"
  dx_parse_key :: "string \<Rightarrow> goerror + string"
  dx_vsock :: "u32 \<Rightarrow> u32 \<Rightarrow> goerror option"
  dx_unix_vsock :: "string \<Rightarrow> goerror + string"
  dx_unix_write :: "string \<Rightarrow> goerror option"
  dx_dial :: "string \<Rightarrow> string \<Rightarrow> goerror option"
  dx_handshake :: "string \<Rightarrow> goerror option"
  dx_listen :: "string \<Rightarrow> string \<Rightarrow> goerror + string"
  dx_rand :: "goerror + u8 list"

text \<open>The switch over the network: the address, or the error of connecting.\<close>

definition dial_network :: "dial_ext \<Rightarrow> 'a Cmd \<Rightarrow> goerror + string" where
  "dial_network x c =
     (if c_network c = ''vsock'' then vsockDial (dx_vsock x) (c_HostName c) (c_Port c)
      else if c_network c \<in> {''unix'', ''unixgram'', ''unixpacket''} then
        (case dx_dial x (c_network c) (c_HostName c) of Some e \<Rightarrow> Inl e | None \<Rightarrow> Inr (c_HostName c))
      else if c_network c = ''unix-vsock'' then
        (case unixVsockDial (dx_unix_vsock x (c_HostName c)) (dx_unix_write x) (c_Port c) of
           Inl e \<Rightarrow> Inl e | Inr _ \<Rightarrow> Inr (c_HostName c))
      else (let addr = JoinHostPort (c_HostName c) (c_Port c) in
            case dx_dial x (c_network c) addr of Some e \<Rightarrow> Inl e | None \<Rightarrow> Inr addr))"

text \<open>
  The part of \<open>Dial\<close> for 9P: the listener, its port, the nonce. A failure of the random
  source ends the process (\<open>log.Fatalf\<close>), which is a panic here.
\<close>

definition dial_9p :: "dial_ext \<Rightarrow> 'a Cmd \<Rightarrow> unit res \<times> 'a Cmd" where
  "dial_9p x c =
     (case (case dx_listen x ''tcp'' ''127.0.0.1:0'' of
              Inr a \<Rightarrow> Inr a | Inl _ \<Rightarrow> dx_listen x ''tcp'' ''[::1]:0'') of
        Inl e \<Rightarrow> (Fail (Errorf ''cpu client listen for forwarded 9p port %v'' []), c)
      | Inr addr \<Rightarrow>
          (let ap = split_on CHR '':'' addr in
           if length ap = 0 then (Fail (Errorf ''Cannot find a port number in %v'' [addr]), c)
           else (case parse_uint (last ap) 16 of
                   Inl _ \<Rightarrow> (Fail (Errorf ''Cannot find a 16-bit port number in %v'' [addr]), c)
                 | Inr port9p \<Rightarrow>
                     (let c1 = c\<lparr>c_port9p := of_nat port9p\<rparr> in
                      case generateNonce (dx_rand x) of
                        Inl e \<Rightarrow> (Panic ''Getting nonce'', c1)
                      | Inr n \<Rightarrow>
                          (Ok (), c1\<lparr>c_nonce := n,
                                     c_Env := env_append (c_Env c1) [''CPUNONCE='' @ nonce_String n]\<rparr>)))))"

definition Dial :: "dial_ext \<Rightarrow> 'a Cmd \<Rightarrow> unit res \<times> 'a Cmd" where
  "Dial x c =
     (case ParseBinds (c_NameSpace c) of
        (_, Some e) \<Rightarrow> (Fail e, c)
      | (fstab, None) \<Rightarrow>
          (let c1 = c\<lparr>c_FSTab := JoinFSTab [c_FSTab c, fstab]\<rparr> in
           case UserKeyConfig (dx_cfg x) (dx_getenv x) (dx_read_file x) (dx_parse_key x) c1 of
             (Some e, c2) \<Rightarrow> (Fail e, c2)
           | (None, c2) \<Rightarrow>
               (case dial_network x c2 of
                  Inl e \<Rightarrow> (Fail e, c2)
                | Inr addr \<Rightarrow>
                    (case dx_handshake x addr of
                       Some e \<Rightarrow> (Fail e, c2)
                     | None \<Rightarrow>
                         (let c3 = c2\<lparr>c_client := True\<rparr> in
                          if length (c_Root c3) = 0 then (Ok (), c3)
                          else (case (if c_Ninep c3 then dial_9p x c3 else (Ok (), c3)) of
                                  (Ok _, c4) \<Rightarrow>
                                    (if 0 < length (c_FSTab c4) then
                                       (Ok (), c4\<lparr>c_Env := env_append (c_Env c4)
                                          [''CPU_FSTAB='' @ c_FSTab c4, ''LC_GLENDA_CPU_FSTAB='' @ c_FSTab c4]\<rparr>)
                                     else (Ok (), c4))
                                | r \<Rightarrow> r))))))"

section \<open>Starting a command\<close>

text \<open>The string sent to the server, from the port and the arguments.\<close>

definition start_command :: "'a Cmd \<Rightarrow> string" where
  "start_command c =
     (let cmd0 = c_cmd c;
          cmd1 = (if c_port9p c \<noteq> 0 then cmd0 @ ''-port9p='' @ show_nat (unat (c_port9p c)) else cmd0)
      in cmd1 @ '' '' @ join_with '' '' (map quoteArg (c_Args c)))"

text \<open>
  The answers of the session: \<open>sx_setenv\<close> threads the variables the session has taken, and
  \<open>sx_start\<close> is what starting a command returns. \<open>sx_default\<close> is the file server made for
  a root when none was given.
\<close>

record 'a start_ext =
  sx_new_session :: "goerror option"
  sx_pty :: "goerror option"
  sx_environ :: "string list"
  sx_setenv :: "string \<Rightarrow> string \<Rightarrow> (string \<times> string) list \<Rightarrow> goerror option \<times> (string \<times> string) list"
  sx_default :: "string \<Rightarrow> 'a"
  sx_stdin :: "goerror option"
  sx_stdout :: "goerror option"
  sx_stderr :: "goerror option"
  sx_start :: "string \<Rightarrow> goerror option"
  sx_raw :: "goerror option"

text \<open>The error, the variables set and the command started, with the changed \<open>Cmd\<close>.\<close>

record started =
  st_err :: "goerror option"
  st_env :: "(string \<times> string) list"
  st_cmd :: "string option"

definition failed :: "goerror \<Rightarrow> started" where
  "failed e = \<lparr>st_err = Some e, st_env = [], st_cmd = None\<rparr>"

definition SetupInteractive :: "'a start_ext \<Rightarrow> 'a cset" where
  "SetupInteractive x c =
     (case sx_raw x of Some e \<Rightarrow> (Some e, c)
      | None \<Rightarrow> (None, c\<lparr>c_closers := c_closers c @ [RestoreTerminal]\<rparr>))"

definition Start :: "'a start_ext \<Rightarrow> 'a Cmd \<Rightarrow> started \<times> 'a Cmd" where
  "Start x c0 =
     (if \<not> c_client c0 then (failed (Errorf ''Cmd has no client'' []), c0)
      else case sx_new_session x of Some e \<Rightarrow> (failed e, c0) | None \<Rightarrow>
        (let c1 = c0\<lparr>c_session := True\<rparr> in
         case (if c_hasTTY c1 then sx_pty x else None) of
           Some e \<Rightarrow> (failed (Errorf ''request for pseudo terminal failed: %v'' []), c1)
         | None \<Rightarrow>
             (let c2 = c1\<lparr>c_closers := c_closers c1 @ [CloseSession]\<rparr>;
                  env = (case c_Env c2 of None \<Rightarrow> sx_environ x | Some e \<Rightarrow> e);
                  c3 = c2\<lparr>c_Env := Some env\<rparr>
              in case SetEnv (sx_setenv x) env [] of
                   (Some e, vars) \<Rightarrow> (\<lparr>st_err = Some e, st_env = vars, st_cmd = None\<rparr>, c3)
                 | (None, vars) \<Rightarrow>
                     (let c4 = c3\<lparr>c_fileServer := (case c_fileServer c3 of
                                   None \<Rightarrow> Some (sx_default x (c_Root c3)) | Some a \<Rightarrow> Some a)\<rparr>;
                          err = (\<lambda>e. \<lparr>st_err = Some e, st_env = vars, st_cmd = None\<rparr>)
                      in case sx_stdin x of Some e \<Rightarrow> (err e, c4) | None \<Rightarrow>
                        (let c5 = c4\<lparr>c_closers := CloseSessionIn # c_closers c4\<rparr> in
                         case sx_stdout x of Some e \<Rightarrow> (err e, c5) | None \<Rightarrow>
                           (case sx_stderr x of Some e \<Rightarrow> (err e, c5) | None \<Rightarrow>
                             (let cmd = start_command c5 in
                              case sx_start x cmd of
                                Some e \<Rightarrow> (err (Errorf ''Failed to run %v: %v'' []), c5)
                              | None \<Rightarrow>
                                  (case (if c_hasTTY c5 then SetupInteractive x c5 else (None, c5)) of
                                     (Some e, c6) \<Rightarrow> (\<lparr>st_err = Some e, st_env = vars, st_cmd = Some cmd\<rparr>, c6)
                                   | (None, c6) \<Rightarrow> (\<lparr>st_err = None, st_env = vars, st_cmd = Some cmd\<rparr>, c6)))))))))"

text \<open>\<open>Close\<close> runs every closer; \<open>run\<close> is what the session's close returns.\<close>

definition run_closer :: "goerror option \<Rightarrow> closer \<Rightarrow> goerror option" where
  "run_closer close cl =
     (case cl of
        CloseSession \<Rightarrow>
          (case close of
             Some e \<Rightarrow> if e \<noteq> EOF_err then Some (Errorf ''closing session: %v'' []) else None
           | None \<Rightarrow> None)
      | CloseSessionIn \<Rightarrow> None
      | RestoreTerminal \<Rightarrow> None)"

fun close_loop :: "goerror option \<Rightarrow> closer list \<Rightarrow> goerror option \<Rightarrow> goerror option" where
  "close_loop close [] err = err"
| "close_loop close (f # fs) err =
     (case run_closer close f of
        Some e \<Rightarrow> close_loop close fs (errors_join [err, Some e])
      | None \<Rightarrow> close_loop close fs err)"

definition Cmd_Close :: "goerror option \<Rightarrow> 'a Cmd \<Rightarrow> goerror option" where
  "Cmd_Close close c = close_loop close (c_closers c) None"

definition Outputs :: "string \<times> goerror option \<Rightarrow> string \<times> goerror option
    \<Rightarrow> string list \<times> goerror option" where
  "Outputs out err =
     (let e1 = (case snd out of Some e \<Rightarrow> if e \<noteq> EOF_err then Some e else None | None \<Rightarrow> None);
          e2 = (case snd err of
                  Some e \<Rightarrow> if e \<noteq> EOF_err then errors_join [e1, Some e] else e1
                | None \<Rightarrow> e1)
      in ([fst out, fst err], e2))"

section \<open>The file server\<close>

text \<open>
  \<open>srv\<close>: \<open>accept\<close> is the one connection accepted, as the bytes it sends, and \<open>handle\<close> what
  serving the rest of them returns. The server runs only on \<open>Served\<close>.
\<close>

datatype served = Refused goerror | Served "goerror option"

definition srv :: "'a Cmd \<Rightarrow> goerror + string \<Rightarrow> (string \<Rightarrow> goerror option) \<Rightarrow> served" where
  "srv c accept handle =
     (case (case accept of
              Inl e \<Rightarrow> Inl (Errorf ''accept 9p socket: %v'' [])
            | Inr s \<Rightarrow>
                if length s < 32 then Inl (Errorf ''Reading nonce from remote: %v'' [])
                else (let rn = take 32 s in
                      if nonce_String (c_nonce c) \<noteq> nonce_String rn then
                        Inl (Errorf ''nonce mismatch: got %s but want %s'' [rn, c_nonce c])
                      else Inr (drop 32 s))) of
        Inl e \<Rightarrow> Refused (Errorf ''srv: %v'' [])
      | Inr rest \<Rightarrow>
          (case handle rest of
             Some e \<Rightarrow> Served (if e \<noteq> EOF_err then Some e else None)
           | None \<Rightarrow> Served None))"

section \<open>Facts\<close>

lemma JoinFSTab_two: "JoinFSTab [a, b] \<noteq> []"
  by (simp add: JoinFSTab_def)

lemma UserKeyConfig_frame:
  assumes "UserKeyConfig cfg getenv rf pk c = (e, c')"
  shows "c_Env c' = c_Env c \<and> c_FSTab c' = c_FSTab c \<and> c_Root c' = c_Root c \<and> c_Ninep c' = c_Ninep c
    \<and> c_port9p c' = c_port9p c \<and> c_Args c' = c_Args c \<and> c_cmd c' = c_cmd c \<and> c_nonce c' = c_nonce c"
  using assms by (auto simp: UserKeyConfig_def Let_def split: sum.splits if_splits)

lemma dial_9p_ok:
  assumes "dial_9p x c = (Ok (), c')"
  shows "\<exists>addr port. parse_uint (last (split_on CHR '':'' addr)) 16 = Inr port \<and>
      generateNonce (dx_rand x) = Inr (c_nonce c') \<and>
      c' = c\<lparr>c_port9p := of_nat port, c_nonce := c_nonce c',
             c_Env := env_append (c_Env c) [''CPUNONCE='' @ c_nonce c']\<rparr> \<and>
      (dx_listen x ''tcp'' ''127.0.0.1:0'' = Inr addr \<or> dx_listen x ''tcp'' ''[::1]:0'' = Inr addr)"
proof -
  obtain addr where a: "dx_listen x ''tcp'' ''127.0.0.1:0'' = Inr addr \<or> dx_listen x ''tcp'' ''[::1]:0'' = Inr addr"
    "(case dx_listen x ''tcp'' ''127.0.0.1:0'' of
              Inr a \<Rightarrow> Inr a | Inl _ \<Rightarrow> dx_listen x ''tcp'' ''[::1]:0'') = Inr addr"
    using assms by (auto simp: dial_9p_def split: sum.splits)
  obtain port where p: "parse_uint (last (split_on CHR '':'' addr)) 16 = Inr port"
    using assms a(2) by (auto simp: dial_9p_def Let_def split: sum.splits)
  obtain n where n: "generateNonce (dx_rand x) = Inr n"
    using assms a(2) p by (auto simp: dial_9p_def Let_def split: sum.splits)
  have "c' = c\<lparr>c_port9p := of_nat port, c_nonce := n,
             c_Env := env_append (c_Env c) [''CPUNONCE='' @ n]\<rparr>"
    using assms a(2) p n by (simp add: dial_9p_def Let_def nonce_String_def)
  with a(1) p n show ?thesis by (intro exI [of _ addr] exI [of _ port]) simp
qed

lemma dial_9p_sel:
  assumes "dial_9p x c = (Ok (), c')"
  shows "\<exists>addr port. parse_uint (last (split_on CHR '':'' addr)) 16 = Inr port \<and>
      generateNonce (dx_rand x) = Inr (c_nonce c') \<and> c_port9p c' = of_nat port \<and>
      c_FSTab c' = c_FSTab c \<and> c_Env c' = env_append (c_Env c) [''CPUNONCE='' @ c_nonce c'] \<and>
      (dx_listen x ''tcp'' ''127.0.0.1:0'' = Inr addr \<or> dx_listen x ''tcp'' ''[::1]:0'' = Inr addr)"
proof -
  from dial_9p_ok [OF assms] obtain addr port where
    a: "parse_uint (last (split_on CHR '':'' addr)) 16 = Inr port" "generateNonce (dx_rand x) = Inr (c_nonce c')"
       "dx_listen x ''tcp'' ''127.0.0.1:0'' = Inr addr \<or> dx_listen x ''tcp'' ''[::1]:0'' = Inr addr"
    and c: "c' = c\<lparr>c_port9p := of_nat port, c_nonce := c_nonce c',
             c_Env := env_append (c_Env c) [''CPUNONCE='' @ c_nonce c']\<rparr>" by blast
  define n where "n = c_nonce c'"
  define d where "d = c\<lparr>c_port9p := of_nat port, c_nonce := n,
             c_Env := env_append (c_Env c) [''CPUNONCE='' @ n]\<rparr>"
  have "c_port9p d = of_nat port" "c_FSTab d = c_FSTab c" "c_Env d = env_append (c_Env c) [''CPUNONCE='' @ n]"
    unfolding d_def by simp_all
  moreover have "c' = d" unfolding d_def n_def by (rule c)
  ultimately show ?thesis using a n_def by blast
qed

text \<open>What a successful \<open>Dial\<close> went through.\<close>

lemma Dial_ok:
  assumes "Dial x c = (Ok (), c')"
  obtains fstab c2 c4 where "ParseBinds (c_NameSpace c) = (fstab, None)"
    and "UserKeyConfig (dx_cfg x) (dx_getenv x) (dx_read_file x) (dx_parse_key x)
          (c\<lparr>c_FSTab := JoinFSTab [c_FSTab c, fstab]\<rparr>) = (None, c2)"
    and "if c_Root c = [] then c' = c2\<lparr>c_client := True\<rparr>
         else (if c_Ninep c then dial_9p x (c2\<lparr>c_client := True\<rparr>) = (Ok (), c4)
               else c4 = c2\<lparr>c_client := True\<rparr>) \<and>
              c' = c4\<lparr>c_Env := env_append (c_Env c4)
                 [''CPU_FSTAB='' @ c_FSTab c4, ''LC_GLENDA_CPU_FSTAB='' @ c_FSTab c4]\<rparr>"
proof -
  obtain fstab err where pb: "ParseBinds (c_NameSpace c) = (fstab, err)" by force
  obtain e2 c2 where uk: "UserKeyConfig (dx_cfg x) (dx_getenv x) (dx_read_file x) (dx_parse_key x)
          (c\<lparr>c_FSTab := JoinFSTab [c_FSTab c, fstab]\<rparr>) = (e2, c2)" by force
  note fr = UserKeyConfig_frame [OF uk]
  have ne: "err = None" "e2 = None" using assms pb uk
    by (auto simp: Dial_def Let_def split: option.splits)
  obtain addr where addr: "dial_network x c2 = Inr addr" "dx_handshake x addr = None"
    using assms pb uk ne by (auto simp: Dial_def Let_def split: sum.splits option.splits)
  show thesis
  proof (cases "c_Root c = []")
    case True
    then show thesis using that [OF _ uk [unfolded ne]] assms pb uk ne addr fr
      by (simp add: Dial_def Let_def)
  next
    case False
    obtain r c4 where d9: "(if c_Ninep c then dial_9p x (c2\<lparr>c_client := True\<rparr>) else (Ok (), c2\<lparr>c_client := True\<rparr>)) = (r, c4)"
      by force
    have D: "Dial x c = (case (r, c4) of
        (Ok _, c4) \<Rightarrow>
          (if 0 < length (c_FSTab c4) then
             (Ok (), c4\<lparr>c_Env := env_append (c_Env c4)
                [''CPU_FSTAB='' @ c_FSTab c4, ''LC_GLENDA_CPU_FSTAB='' @ c_FSTab c4]\<rparr>)
           else (Ok (), c4))
      | r \<Rightarrow> r)"
      using pb uk ne addr False fr d9 by (simp add: Dial_def Let_def)
    then have r: "r = Ok ()" using assms by (cases r) auto
    have "c_FSTab c4 = JoinFSTab [c_FSTab c, fstab]"
      using d9 r fr dial_9p_sel [of x "c2\<lparr>c_client := True\<rparr>" c4] by (auto split: if_splits)
    then have "c_FSTab c4 \<noteq> []" using JoinFSTab_two by metis
    with D r assms have "c' = c4\<lparr>c_Env := env_append (c_Env c4)
                 [''CPU_FSTAB='' @ c_FSTab c4, ''LC_GLENDA_CPU_FSTAB='' @ c_FSTab c4]\<rparr>"
      by simp
    with that [OF _ uk [unfolded ne]] pb ne d9 r False show thesis by (auto split: if_splits)
  qed
qed

text \<open>What it leaves as it was, without 9P.\<close>

lemma Dial_keeps:
  assumes "Dial x c = (Ok (), c')" and "\<not> c_Ninep c"
  shows "c_Args c' = c_Args c \<and> c_cmd c' = c_cmd c \<and> c_port9p c' = c_port9p c"
proof -
  from Dial_ok [OF assms(1)] obtain fstab c2 c4 where
    uk: "UserKeyConfig (dx_cfg x) (dx_getenv x) (dx_read_file x) (dx_parse_key x)
          (c\<lparr>c_FSTab := JoinFSTab [c_FSTab c, fstab]\<rparr>) = (None, c2)" and
    d: "if c_Root c = [] then c' = c2\<lparr>c_client := True\<rparr>
         else (if c_Ninep c then dial_9p x (c2\<lparr>c_client := True\<rparr>) = (Ok (), c4)
               else c4 = c2\<lparr>c_client := True\<rparr>) \<and>
              c' = c4\<lparr>c_Env := env_append (c_Env c4)
                 [''CPU_FSTAB='' @ c_FSTab c4, ''LC_GLENDA_CPU_FSTAB='' @ c_FSTab c4]\<rparr>"
    by blast
  with UserKeyConfig_frame [OF uk] assms(2) show ?thesis by (auto split: if_splits)
qed

text \<open>A command that has started has a session.\<close>

lemma Start_env:
  assumes "Start x c = (st, c')" and "st_err st = None"
  shows "SetEnv (sx_setenv x) (case c_Env c of None \<Rightarrow> sx_environ x | Some e \<Rightarrow> e) [] = (None, st_env st) \<and>
    c_nonce c' = c_nonce c \<and> c_port9p c' = c_port9p c"
  using assms by (auto simp: Start_def Let_def failed_def SetupInteractive_def split: if_splits option.splits prod.splits)

lemma Start_session: "Start x c = (st, c') \<Longrightarrow> st_err st = None \<Longrightarrow> c_session c'"
  by (auto simp: Start_def Let_def failed_def SetupInteractive_def split: if_splits option.splits prod.splits)

section \<open>Properties\<close>

text \<open>What \<open>Dial\<close> adds to the environment. With a root, a successful \<open>Dial\<close> leaves the
  caller's variables, then the nonce if 9P is on, then the fstab under its two names; the
  fstab is never empty, even without a name space and a table, so the environment is
  never nil and \<open>Start\<close> does not replace it by that of the process. With no root it
  stays as the caller set it.\<close>

lemma dial_environment:
  assumes "Dial x c = (Ok (), c')"
  shows "c_FSTab c' \<noteq> [] \<and>
    c_Env c' = (if c_Root c = [] then c_Env c
      else env_append (c_Env c)
        ((if c_Ninep c then [''CPUNONCE='' @ c_nonce c'] else []) @
         [''CPU_FSTAB='' @ c_FSTab c', ''LC_GLENDA_CPU_FSTAB='' @ c_FSTab c']))"
proof -
  from Dial_ok [OF assms] obtain fstab c2 c4 where
    uk: "UserKeyConfig (dx_cfg x) (dx_getenv x) (dx_read_file x) (dx_parse_key x)
          (c\<lparr>c_FSTab := JoinFSTab [c_FSTab c, fstab]\<rparr>) = (None, c2)" and
    d: "if c_Root c = [] then c' = c2\<lparr>c_client := True\<rparr>
         else (if c_Ninep c then dial_9p x (c2\<lparr>c_client := True\<rparr>) = (Ok (), c4)
               else c4 = c2\<lparr>c_client := True\<rparr>) \<and>
              c' = c4\<lparr>c_Env := env_append (c_Env c4)
                 [''CPU_FSTAB='' @ c_FSTab c4, ''LC_GLENDA_CPU_FSTAB='' @ c_FSTab c4]\<rparr>"
    by blast
  note fr = UserKeyConfig_frame [OF uk]
  show ?thesis
  proof (cases "c_Root c = [] \<or> \<not> c_Ninep c")
    case True
    then show ?thesis using d fr JoinFSTab_two [of "c_FSTab c" fstab] by (auto split: if_splits)
  next
    case False
    then have "dial_9p x (c2\<lparr>c_client := True\<rparr>) = (Ok (), c4)" using d by simp
    from dial_9p_sel [OF this] False d fr JoinFSTab_two [of "c_FSTab c" fstab] show ?thesis
      by (auto simp: env_append_def)
  qed
qed

text \<open>A client and externals for evaluation: everything succeeds and the listener is at
  port 4567.\<close>

definition sample_dial :: dial_ext where
  "sample_dial = \<lparr>dx_cfg = (\<lambda>h k. []), dx_getenv = (\<lambda>k. ''/root''), dx_read_file = (\<lambda>f. Inr f),
     dx_parse_key = (\<lambda>k. Inr k), dx_vsock = (\<lambda>a b. None), dx_unix_vsock = (\<lambda>p. Inr (''OK 1'' @ [NL])),
     dx_unix_write = (\<lambda>s. None), dx_dial = (\<lambda>n a. None), dx_handshake = (\<lambda>a. None),
     dx_listen = (\<lambda>n a. Inr ''127.0.0.1:4567''), dx_rand = Inr (replicate 16 0)\<rparr>"

definition sample_cmd :: "nat Cmd" where
  "sample_cmd = (Command (\<lambda>h k. []) (\<lambda>k. ''me'') None (Inl EOF_err) ''host'' [''ls'', ''a b''])
     \<lparr>c_Root := ''/'', c_Ninep := True, c_DisablePrivateKey := True\<rparr>"

lemma sample_cmd_sel:
  "c_NameSpace sample_cmd = []" "c_FSTab sample_cmd = []" "c_DisablePrivateKey sample_cmd"
  "c_network sample_cmd = ''tcp''" "c_Root sample_cmd = ''/''" "c_Ninep sample_cmd"
  "c_Env sample_cmd = None"
  by (simp_all add: sample_cmd_def Command_def Let_def)

lemma sample_dialed: "fst (Dial sample_dial sample_cmd) = Ok ()"
proof -
  have "digit_char 4 = CHR ''4''" "digit_char 5 = CHR ''5''" "digit_char 6 = CHR ''6''" "digit_char 7 = CHR ''7''"
    by code_simp+
  then have "show_nat 4567 = ''4567''" by (simp add: show_nat.simps)
  then have "parse_uint ''4567'' 16 = Inr 4567" using parse_uint_show [of 4567 16] by simp
  moreover have "split_on CHR '':'' ''127.0.0.1:4567'' = [''127.0.0.1'', ''4567'']" by code_simp
  ultimately have p: "parse_uint (last (split_on CHR '':'' ''127.0.0.1:4567'')) 16 = Inr 4567" by simp
  let ?c = "sample_cmd\<lparr>c_FSTab := JoinFSTab [[], []], c_client := True\<rparr>"
  have "fst (dial_9p sample_dial ?c) = Ok ()"
    using p by (simp add: dial_9p_def sample_dial_def generateNonce_def Let_def del: split_on.simps)
  then show ?thesis
    by (cases "dial_9p sample_dial ?c")
       (simp add: Dial_def ParseBinds_def sample_cmd_sel UserKeyConfig_def dial_network_def sample_dial_def Let_def)
qed

theorem dial_environment_witness:
  "c_Env (snd (Dial sample_dial sample_cmd)) \<noteq> None"
proof -
  have "Dial sample_dial sample_cmd = (Ok (), snd (Dial sample_dial sample_cmd))"
    using sample_dialed by (simp add: prod_eq_iff)
  from dial_environment [OF this] show ?thesis
    by (simp add: env_append_def sample_cmd_def Command_def)
qed

text \<open>The 9P port is the listener's. After a successful \<open>Dial\<close> with a root and 9P on, the
  port is the number after the last colon of the address a listen on a loopback address
  returned, unchanged by the conversion to 16 bits, and the nonce is the one generated.\<close>

lemma dial_9p_port:
  assumes "Dial x c = (Ok (), c')" and "c_Root c \<noteq> []" and "c_Ninep c"
  shows "\<exists>addr. (dx_listen x ''tcp'' ''127.0.0.1:0'' = Inr addr \<or> dx_listen x ''tcp'' ''[::1]:0'' = Inr addr) \<and>
      parse_uint (last (split_on CHR '':'' addr)) 16 = Inr (unat (c_port9p c')) \<and>
      generateNonce (dx_rand x) = Inr (c_nonce c')"
proof -
  from Dial_ok [OF assms(1)] obtain fstab c2 c4 where
    d: "if c_Root c = [] then c' = c2\<lparr>c_client := True\<rparr>
         else (if c_Ninep c then dial_9p x (c2\<lparr>c_client := True\<rparr>) = (Ok (), c4)
               else c4 = c2\<lparr>c_client := True\<rparr>) \<and>
              c' = c4\<lparr>c_Env := env_append (c_Env c4)
                 [''CPU_FSTAB='' @ c_FSTab c4, ''LC_GLENDA_CPU_FSTAB='' @ c_FSTab c4]\<rparr>"
    by blast
  have "dial_9p x (c2\<lparr>c_client := True\<rparr>) = (Ok (), c4)" using d assms(2,3) by simp
  from dial_9p_sel [OF this] obtain addr port where
    a: "parse_uint (last (split_on CHR '':'' addr)) 16 = Inr port" "generateNonce (dx_rand x) = Inr (c_nonce c4)"
       "dx_listen x ''tcp'' ''127.0.0.1:0'' = Inr addr \<or> dx_listen x ''tcp'' ''[::1]:0'' = Inr addr"
       "c_port9p c4 = of_nat port" by blast
  have "unat (of_nat port :: u16) = port"
    using parse_uint_bound [OF a(1)] by (simp add: unat_of_nat)
  with a d assms(2,3) show ?thesis by auto
qed

theorem dial_9p_port_witness:
  "\<exists>addr. parse_uint (last (split_on CHR '':'' addr)) 16 =
     Inr (unat (c_port9p (snd (Dial sample_dial sample_cmd))))"
proof -
  have "Dial sample_dial sample_cmd = (Ok (), snd (Dial sample_dial sample_cmd))"
    using sample_dialed by (simp add: prod_eq_iff)
  from dial_9p_port [OF this] show ?thesis by (auto simp: sample_cmd_sel)
qed

lemma plain_digits: "list_all plain_char (show_nat n)"
proof -
  have "plain_char (digit_char d)" if "d < 10" for d
  proof -
    have "list_all (\<lambda>d. plain_char (digit_char d)) [0..<10]" by code_simp
    with that show ?thesis by (simp add: list_all_iff)
  qed
  then show ?thesis using set_show_nat by (fastforce simp: list_all_iff)
qed

lemma shell_words_start:
  assumes "c_cmd c = []"
  shows "shell_words (start_command c) =
    Some ((if c_port9p c = 0 then [] else [''-port9p='' @ show_nat (unat (c_port9p c))]) @ c_Args c)"
proof -
  have "list_all plain_char ''-port9p=''" by code_simp
  then have p: "list_all plain_char (''-port9p='' @ show_nat (unat (c_port9p c)))"
    using plain_digits by (simp only: list_all_append)
  show ?thesis
    using shell_words_command [OF p, of "c_Args c"] shell_words_command [of "[]" "c_Args c"] assms
    by (auto simp: start_command_def Let_def quote_args_def)
qed

text \<open>The command string carries the port and the arguments. Shell splitting of what \<open>Start\<close>
  sends gives, for a client whose command was not begun otherwise, the flag \<open>-port9p\<close> with the
  9P port if there is one and then the arguments, each as it was, whatever bytes they have.\<close>

lemma start_command_words:
  assumes "c_cmd c = []"
  shows "shell_words (start_command c) =
    Some ((if c_port9p c = 0 then [] else [''-port9p='' @ show_nat (unat (c_port9p c))]) @ c_Args c)"
  by (rule shell_words_start [OF assms])

theorem start_command_words_witness:
  "shell_words (start_command sample_cmd) = Some [''ls'', ''a b'']"
proof -
  have "c_cmd sample_cmd = []" "c_port9p sample_cmd = 0" "c_Args sample_cmd = [''ls'', ''a b'']"
    by (simp_all add: sample_cmd_def Command_def Let_def)
  then show ?thesis using start_command_words [of sample_cmd] by simp
qed

text \<open>The nonce decides whether a connection is served.\<close>

lemma srv_served:
  assumes "length (c_nonce c) = 32"
  shows "((\<exists>r. srv c accept handle = Served r) \<longleftrightarrow> (\<exists>rest. accept = Inr (c_nonce c @ rest))) \<and>
    srv c (Inr (c_nonce c @ rest)) handle =
      Served (case handle rest of Some e \<Rightarrow> if e \<noteq> EOF_err then Some e else None | None \<Rightarrow> None)"
proof
  show "(\<exists>r. srv c accept handle = Served r) \<longleftrightarrow> (\<exists>rest. accept = Inr (c_nonce c @ rest))" (is "?s \<longleftrightarrow> ?n")
  proof
    assume ?s
    then obtain s where "accept = Inr s" "\<not> length s < 32" "c_nonce c = take 32 s"
      by (auto simp: srv_def nonce_String_def Let_def split: sum.splits if_splits)
    then show ?n by (metis append_take_drop_id)
  next
    assume ?n
    then show ?s using assms by (auto simp: srv_def nonce_String_def Let_def split: option.splits)
  qed
  show "srv c (Inr (c_nonce c @ rest)) handle =
      Served (case handle rest of Some e \<Rightarrow> if e \<noteq> EOF_err then Some e else None | None \<Rightarrow> None)"
    using assms by (simp add: srv_def nonce_String_def Let_def split: option.splits)
qed

text \<open>The file server runs for the right nonce only. A connection is served exactly when the
  bytes it sends begin with the client's 32 byte nonce, and what is served is what
  comes after it.\<close>

lemma srv_needs_nonce:
  assumes "length (c_nonce c) = 32"
  shows "((\<exists>r. srv c accept handle = Served r) \<longleftrightarrow> (\<exists>rest. accept = Inr (c_nonce c @ rest))) \<and>
    srv c (Inr (c_nonce c @ rest)) handle =
      Served (case handle rest of Some e \<Rightarrow> if e \<noteq> EOF_err then Some e else None | None \<Rightarrow> None)"
  by (rule srv_served [OF assms])

theorem srv_needs_nonce_witness:
  "\<not> (\<exists>r. srv sample_cmd (Inr ''abc'') (\<lambda>s. None) = Served r)"
proof -
  have n: "c_nonce sample_cmd = replicate 32 (CHR 0x00)"
    by (simp add: sample_cmd_def Command_def Let_def)
  then have "length (c_nonce sample_cmd) = 32" by (simp only: length_replicate)
  from srv_needs_nonce [OF this, of "Inr ''abc''" "\<lambda>s. None"]
  show ?thesis by (auto simp: n numeral_eq_Suc)
qed

text \<open>The port of the ssh configuration is not used. \<open>Command\<close> sets the port to the default,
  and \<open>WithPort\<close> with no port asks \<open>GetPort\<close> about the port already set, so that the result
  is \<open>17010\<close> whatever the configuration says.\<close>

lemma WithPort_ignores_config:
  "c_Port (snd (WithPort cfg [] (Command cfg getenv sh sz host args))) = ''17010''"
  by (simp add: WithPort_def Command_def GetPort_def DefaultPort_def Let_def)

text \<open>The vsock handshake eats one line. The connection is used exactly when the reply
  begins with \<open>OK\<close> and has a newline; then all up to the first newline is gone and all after
  it is left for ssh.\<close>

lemma unixVsock_handshake:
  "unixVsockDial (Inr reply) (\<lambda>s. None) port = Inr rest \<longleftrightarrow>
    (\<exists>line. reply = ''OK'' @ line @ NL # rest \<and> NL \<notin> set line)"
proof -
  have sk: "skip_line s = Inr rest \<longleftrightarrow> (\<exists>line. s = line @ NL # rest \<and> NL \<notin> set line)" for s
  proof (induction s)
    case (Cons b s)
    show ?case
    proof (cases "b = NL")
      case True
      show ?thesis
      proof
        assume "skip_line (b # s) = Inr rest"
        with True have "b # s = [] @ NL # rest" by simp
        then show "\<exists>line. b # s = line @ NL # rest \<and> NL \<notin> set line"
          by (metis empty_iff list.set(1))
      next
        assume "\<exists>line. b # s = line @ NL # rest \<and> NL \<notin> set line"
        then obtain line where "b # s = line @ NL # rest" "NL \<notin> set line" by blast
        with True show "skip_line (b # s) = Inr rest" by (cases line) auto
      qed
    next
      case False
      then show ?thesis using Cons by (auto simp: Cons_eq_append_conv)
    qed
  qed simp
  show ?thesis
  proof (cases "\<exists>r. reply = ''OK'' @ r")
    case True
    then obtain r where "reply = ''OK'' @ r" by blast
    then show ?thesis using sk [of r] by (simp add: unixVsockDial_def)
  next
    case False
    then have "take 2 reply \<noteq> ''OK''" by (metis append_take_drop_id)
    with False show ?thesis by (auto simp: unixVsockDial_def)
  qed
qed

text \<open>\<open>Close\<close> reports the session only. Whatever closers were registered, all are run, and
  the result is an error exactly when closing the session gave an error other than \<open>io.EOF\<close> and
  a session closer was registered.\<close>

lemma Close_result:
  "Cmd_Close close c \<noteq> None \<longleftrightarrow>
    CloseSession \<in> set (c_closers c) \<and> close \<noteq> None \<and> close \<noteq> Some EOF_err"
proof -
  have "close_loop close fs err \<noteq> None \<longleftrightarrow>
      err \<noteq> None \<or> (CloseSession \<in> set fs \<and> close \<noteq> None \<and> close \<noteq> Some EOF_err)" for fs err
  proof (induction fs arbitrary: err)
    case (Cons f fs)
    have "errors_join [err, Some e] \<noteq> None" for e by (rule errors_join_last)
    with Cons [of err] Cons [of "errors_join [err, Some (Errorf ''closing session: %v'' [])]"] show ?case
      by (cases f; cases close) (auto simp: run_closer_def)
  qed simp
  then show ?thesis by (simp add: Cmd_Close_def)
qed

text \<open>A failed \<open>Start\<close> starts nothing. The command is sent only after every step before it
  succeeded, it is then the one command string of the arguments, and the session's closer
  is registered whenever a command was started.\<close>

lemma Start_sends_last:
  assumes "Start x c = (r, c')" and "st_cmd r = Some cmd"
  shows "cmd = start_command c \<and> c_client c \<and> sx_new_session x = None \<and> sx_stdin x = None \<and>
    sx_stdout x = None \<and> sx_stderr x = None \<and> sx_start x cmd = None \<and>
    CloseSession \<in> set (c_closers c') \<and>
    (st_err r = None \<longleftrightarrow> \<not> c_hasTTY c \<or> sx_raw x = None)"
  using assms
  by (auto simp: Start_def Let_def failed_def start_command_def SetupInteractive_def
      split: if_splits option.splits prod.splits)

definition sample_start :: "nat start_ext" where
  "sample_start = \<lparr>sx_new_session = None, sx_pty = None, sx_environ = [],
     sx_setenv = (\<lambda>k v l. (None, l @ [(k, v)])), sx_default = (\<lambda>p. 0), sx_stdin = None,
     sx_stdout = None, sx_stderr = None, sx_start = (\<lambda>s. None), sx_raw = None\<rparr>"

theorem Start_sends_last_witness:
  "CloseSession \<in> set (c_closers (snd (Start sample_start (sample_cmd\<lparr>c_client := True\<rparr>))))"
proof -
  let ?c = "sample_cmd\<lparr>c_client := True\<rparr>"
  have tty: "c_hasTTY sample_cmd = False" by (simp add: sample_cmd_def Command_def Let_def)
  obtain r c' where s: "Start sample_start ?c = (r, c')" by force
  have "st_cmd r = Some (start_command ?c)"
    using s by (auto simp: Start_def sample_start_def tty sample_cmd_sel SetEnv_def start_command_def Let_def)
  from Start_sends_last [OF s this] s show ?thesis by simp
qed

end
