(* ===== verification/ClientRun.thy ===== *)
theory ClientRun
  imports ClientCmd
begin

text \<open>
  Running a command to its end, the rest of \<open>client/client.go\<close>: \<open>Wait\<close>, \<open>Run\<close>, \<open>Signal\<close>, the goroutines that copy
  the output of a session, and \<open>CombinedOutput\<close>, in which both copy into one pipe.

  The goroutines are sequences of events, in the order in which they happen; the bytes are those that arrive.
\<close>

section \<open>Sessions\<close>

text \<open>A session that \<open>Start\<close> has not made yet is nil, and so are the calls on it panics.\<close>

definition on_session :: "'a Cmd \<Rightarrow> goerror option \<Rightarrow> goerror option res" where
  "on_session c answer = (if c_session c then Ok answer else Panic ''nil pointer dereference'')"

definition Cmd_Wait :: "'a Cmd \<Rightarrow> goerror option \<Rightarrow> goerror option res" where
  "Cmd_Wait c wait = on_session c wait"

definition Cmd_Signal :: "'a Cmd \<Rightarrow> (string \<Rightarrow> goerror option) \<Rightarrow> string \<Rightarrow> goerror option res" where
  "Cmd_Signal c sig s = on_session c (sig s)"

definition Cmd_Run :: "'a start_ext \<Rightarrow> goerror option \<Rightarrow> 'a Cmd \<Rightarrow> goerror option res \<times> 'a Cmd" where
  "Cmd_Run x wait c =
     (case Start x c of (st, c') \<Rightarrow>
        (case st_err st of Some e \<Rightarrow> (Ok (Some e), c') | None \<Rightarrow> (Cmd_Wait c' wait, c')))"

text \<open>\<open>Listen\<close> on the far side of the connection, which is nil before \<open>Dial\<close>.\<close>

definition Cmd_Listen :: "'a Cmd \<Rightarrow> (string \<Rightarrow> string \<Rightarrow> goerror + string) \<Rightarrow> string \<Rightarrow> string \<Rightarrow> (goerror + string) res" where
  "Cmd_Listen c listen n addr = (if c_client c then Ok (listen n addr) else Panic ''nil pointer dereference'')"

text \<open>The goroutine for the input without a terminal: everything is copied, up to an error of the writer, and the session's input is
  closed in any case. The result is what was written.\<close>

fun batch_stdin :: "(string \<Rightarrow> goerror option) \<Rightarrow> string list \<Rightarrow> string \<times> bool" where
  "batch_stdin wr [] = ([], True)"
| "batch_stdin wr (b # bs) =
     (case wr b of
        Some e \<Rightarrow> ([], True)
      | None \<Rightarrow> (case batch_stdin wr bs of (w, closed) \<Rightarrow> (b @ w, closed)))"

section \<open>The output\<close>

text \<open>A writer: a file with its descriptor, or something else.\<close>

datatype writer = OsFile nat | OtherWriter nat

definition sameFD :: "writer \<Rightarrow> nat \<Rightarrow> bool" where
  "sameFD w fd = (case w of OsFile n \<Rightarrow> n = fd | OtherWriter n \<Rightarrow> False)"

text \<open>What the copier of each stream closes at its end; the second one looks at the other stream's writer.\<close>

definition stdout_closes :: "writer \<Rightarrow> writer list" where
  "stdout_closes out = (if \<not> sameFD out 1 then [out] else [])"

definition stderr_closes :: "writer \<Rightarrow> writer \<Rightarrow> writer list" where
  "stderr_closes out err = (if \<not> sameFD out 2 then [err] else [])"

text \<open>A copier writes what arrives and at the end of its stream closes the writer. A write to a closed writer is an error, which ends
  the copier; that too is followed by the close.\<close>

datatype copy_event = OutData string | ErrData string | OutEnd | ErrEnd

record sinks =
  sk_data :: "writer \<Rightarrow> string"
  sk_closed :: "writer set"
  sk_out_done :: bool
  sk_err_done :: bool

definition put :: "writer \<Rightarrow> string \<Rightarrow> sinks \<Rightarrow> sinks" where
  "put w s k = k\<lparr>sk_data := (sk_data k)(w := sk_data k w @ s)\<rparr>"

definition end_out :: "writer \<Rightarrow> sinks \<Rightarrow> sinks" where
  "end_out out k = k\<lparr>sk_closed := sk_closed k \<union> set (stdout_closes out), sk_out_done := True\<rparr>"

definition end_err :: "writer \<Rightarrow> writer \<Rightarrow> sinks \<Rightarrow> sinks" where
  "end_err out err k = k\<lparr>sk_closed := sk_closed k \<union> set (stderr_closes out err), sk_err_done := True\<rparr>"

definition copy_step :: "writer \<Rightarrow> writer \<Rightarrow> copy_event \<Rightarrow> sinks \<Rightarrow> sinks" where
  "copy_step out err ev k =
     (case ev of
        OutData s \<Rightarrow> if sk_out_done k then k else if out \<in> sk_closed k then end_out out k else put out s k
      | ErrData s \<Rightarrow> if sk_err_done k then k else if err \<in> sk_closed k then end_err out err k else put err s k
      | OutEnd \<Rightarrow> if sk_out_done k then k else end_out out k
      | ErrEnd \<Rightarrow> if sk_err_done k then k else end_err out err k)"

fun copy_run :: "writer \<Rightarrow> writer \<Rightarrow> copy_event list \<Rightarrow> sinks \<Rightarrow> sinks" where
  "copy_run out err [] k = k"
| "copy_run out err (ev # evs) k = copy_run out err evs (copy_step out err ev k)"

definition no_sinks :: sinks where
  "no_sinks = \<lparr>sk_data = (\<lambda>w. []), sk_closed = {}, sk_out_done = False, sk_err_done = False\<rparr>"

text \<open>
  \<open>CombinedOutput\<close>: \<open>pipe\<close> gives the writing end of a pipe that both streams are copied into. Reading it ends when it is closed;
  \<open>None\<close> while it is open. The error joins that of the run with that of the reading.
\<close>

definition CombinedOutput :: "goerror + writer \<Rightarrow> goerror option \<Rightarrow> goerror option \<Rightarrow> copy_event list
    \<Rightarrow> (string \<times> goerror option) option" where
  "CombinedOutput pipe cpuerr readerr evs =
     (case pipe of
        Inl e \<Rightarrow> Some ([], Some e)
      | Inr w \<Rightarrow>
          (let k = copy_run w w evs no_sinks in
           if w \<in> sk_closed k then Some (sk_data k w, errors_join [cpuerr, readerr]) else None))"

section \<open>Facts\<close>

definition is_end :: "copy_event \<Rightarrow> bool" where
  "is_end ev = (case ev of OutEnd \<Rightarrow> True | ErrEnd \<Rightarrow> True | _ \<Rightarrow> False)"

definition data_of :: "copy_event \<Rightarrow> string" where
  "data_of ev = (case ev of OutData s \<Rightarrow> s | ErrData s \<Rightarrow> s | _ \<Rightarrow> [])"

text \<open>A pipe is none of the standard files.\<close>

definition fresh_pipe :: "writer \<Rightarrow> bool" where
  "fresh_pipe w = (\<not> sameFD w 1 \<and> \<not> sameFD w 2)"

lemma closed_stays:
  "w \<in> sk_closed k \<Longrightarrow> sk_data (copy_run w w evs k) w = sk_data k w \<and> w \<in> sk_closed (copy_run w w evs k)"
proof (induction evs arbitrary: k)
  case (Cons ev evs)
  have "sk_data (copy_step w w ev k) w = sk_data k w \<and> w \<in> sk_closed (copy_step w w ev k)"
    using Cons.prems by (cases ev) (auto simp: copy_step_def end_out_def end_err_def)
  with Cons.IH [of "copy_step w w ev k"] show ?case by simp
qed simp

lemma pipe_run:
  assumes "fresh_pipe w" and "w \<notin> sk_closed k" and "\<not> sk_out_done k" and "\<not> sk_err_done k"
  shows "(w \<in> sk_closed (copy_run w w evs k) \<longleftrightarrow> list_ex is_end evs) \<and>
    sk_data (copy_run w w evs k) w = sk_data k w @ concat (map data_of (takeWhile (\<lambda>ev. \<not> is_end ev) evs))"
  using assms(2-4)
proof (induction evs arbitrary: k)
  case (Cons ev evs)
  show ?case
  proof (cases "is_end ev")
    case True
    then have "w \<in> sk_closed (copy_step w w ev k)" "sk_data (copy_step w w ev k) = sk_data k"
      using assms(1) Cons.prems
      by (auto simp: copy_step_def end_out_def end_err_def stdout_closes_def stderr_closes_def fresh_pipe_def is_end_def
          split: copy_event.splits)
    with True closed_stays [of w "copy_step w w ev k" evs] show ?thesis by simp
  next
    case False
    then have s: "copy_step w w ev k = put w (data_of ev) k"
      using Cons.prems by (cases ev) (simp_all add: copy_step_def is_end_def data_of_def)
    have "w \<notin> sk_closed (put w (data_of ev) k)" "\<not> sk_out_done (put w (data_of ev) k)" "\<not> sk_err_done (put w (data_of ev) k)"
      "sk_data (put w (data_of ev) k) w = sk_data k w @ data_of ev"
      using Cons.prems by (simp_all add: put_def)
    with Cons.IH [of "put w (data_of ev) k"] False s show ?thesis by simp
  qed
qed simp

section \<open>Properties\<close>

text \<open>C40: \<open>CombinedOutput\<close> returns what arrived on both streams, in the order of arrival, up to the end of the stream that ends first, and
  waits until one has ended. As the copier that is done closes the pipe of both, what the other stream still
  sends is lost.\<close>

theorem combined_output:
  assumes "fresh_pipe w"
  shows "CombinedOutput (Inr w) cpuerr readerr evs =
    (if list_ex is_end evs then Some (concat (map data_of (takeWhile (\<lambda>ev. \<not> is_end ev) evs)), errors_join [cpuerr, readerr])
     else None)"
  using pipe_run [OF assms, of no_sinks evs] by (simp add: CombinedOutput_def no_sinks_def Let_def)

theorem combined_output_witness:
  "CombinedOutput (Inr (OsFile 7)) None None [OutData ''ok'', OutEnd, ErrData ''warning'', ErrEnd] = Some (''ok'', None)"
proof -
  have "fresh_pipe (OsFile 7)" by (simp add: fresh_pipe_def sameFD_def)
  from combined_output [OF this] show ?thesis by (simp add: is_end_def data_of_def)
qed

text \<open>With the writers that \<open>Command\<close> sets, the standard error of the client itself is closed at the end of a command.\<close>

lemma own_stderr_closed:
  "sk_closed (copy_run (OsFile 1) (OsFile 2) [OutEnd, ErrEnd] no_sinks) = {OsFile 2}"
  by (auto simp: copy_step_def end_out_def end_err_def stdout_closes_def stderr_closes_def sameFD_def no_sinks_def)

text \<open>\<open>Run\<close> returns the error of \<open>Start\<close> or what waiting returned, and does not panic, whatever the session does.\<close>

lemma Run_result:
  "fst (Cmd_Run x wait c) = Ok (case st_err (fst (Start x c)) of Some e \<Rightarrow> Some e | None \<Rightarrow> wait)"
  by (auto simp: Cmd_Run_def Cmd_Wait_def on_session_def dest: Start_session split: option.split prod.split)

end
