(* ===== verification/FsCpio.thy ===== *)
theory FsCpio
  imports CpioArchive
begin

text \<open>
  The file system served over NFS, \<open>client/union.go\<close>: \<open>fsCPIO\<close> is a CPIO archive with mount
  points in front of it. A call goes to the file system of a mount point if \<open>hasMount\<close> finds
  one and to the archive otherwise; the archive refuses every change.

  The mounted file systems are \<open>billy.Filesystem\<close> values of another package: handles of type
  \<open>'d\<close> (compared by the code in \<open>Rename\<close>) with operations \<open>billy_ops\<close> over a world \<open>'w\<close>,
  which give files \<open>'h\<close> and file information \<open>'i\<close> of their own.
\<close>

unbundle bit_operations_syntax

section \<open>State\<close>

record ('w, 'd, 'h, 'i) billy_ops =
  b_lstat :: "'d \<Rightarrow> string \<Rightarrow> 'w \<Rightarrow> 'i res \<times> 'w"
  b_readdir :: "'d \<Rightarrow> string \<Rightarrow> 'w \<Rightarrow> 'i list res \<times> 'w"
  b_readlink :: "'d \<Rightarrow> string \<Rightarrow> 'w \<Rightarrow> string res \<times> 'w"
  b_open :: "'d \<Rightarrow> string \<Rightarrow> 'w \<Rightarrow> 'h res \<times> 'w"
  b_create :: "'d \<Rightarrow> string \<Rightarrow> 'w \<Rightarrow> 'h res \<times> 'w"
  b_symlink :: "'d \<Rightarrow> string \<Rightarrow> string \<Rightarrow> 'w \<Rightarrow> unit res \<times> 'w"
  b_rename :: "'d \<Rightarrow> string \<Rightarrow> string \<Rightarrow> 'w \<Rightarrow> unit res \<times> 'w"
  b_mkdirall :: "'d \<Rightarrow> string \<Rightarrow> u32 \<Rightarrow> 'w \<Rightarrow> unit res \<times> 'w"
  b_openfile :: "'d \<Rightarrow> string \<Rightarrow> int \<Rightarrow> u32 \<Rightarrow> 'w \<Rightarrow> 'h res \<times> 'w"
  b_remove :: "'d \<Rightarrow> string \<Rightarrow> 'w \<Rightarrow> unit res \<times> 'w"

record 'd MountPoint =
  mp_n :: string
  mp_fs :: 'd

record 'd fsCPIO =
  fc_m :: "string \<Rightarrow> nat option"
  fc_recs :: "cpio_rec list"
  fc_mnts :: "'d MountPoint list"

record 'd cpio_file =
  fl_fs :: "'d fsCPIO"
  fl_path :: nat

text \<open>
  A \<open>billy.File\<close> is a file of a mount or a \<open>file\<close> of the archive; an \<open>os.FileInfo\<close> is
  that of a mount, a mount's under another name (\<open>ufstat\<close>) or a record (\<open>fstat\<close>).
\<close>

datatype ('d, 'h) bfile = MountFile 'h | ArchiveFile "'d cpio_file"
datatype 'i finfo = MountInfo 'i | Ufstat 'i string | Fstat cpio_rec

definition WithMount :: "string \<Rightarrow> 'd \<Rightarrow> 'd MountPoint" where
  "WithMount n f = \<lparr>mp_n = n, mp_fs = f\<rparr>"

section \<open>Mount points\<close>

fun find_mnt :: "'d MountPoint list \<Rightarrow> nat \<Rightarrow> string \<Rightarrow> (nat \<times> string) option" where
  "find_mnt [] i n = None"
| "find_mnt (v # vs) i n =
     (case path_rel (mp_n v) n of Inl _ \<Rightarrow> find_mnt vs (Suc i) n | Inr r \<Rightarrow> Some (i, r))"

text \<open>The index of the mount and the name relative to it.\<close>

definition fsCPIO_hasMount :: "'d fsCPIO \<Rightarrow> string \<Rightarrow> (nat \<times> string) res" where
  "fsCPIO_hasMount f n =
     (if \<not> is_abs n then bind_res (index_slice (fc_mnts f) 0) (\<lambda>m. Ok (0, n))
      else case find_mnt (fc_mnts f) 0 n of
        None \<Rightarrow> Fail (Wrapf ''hasMount:%q:%w'' [n] (Some ErrNotExist))
      | Some ir \<Rightarrow> Ok ir)"

text \<open>
  \<open>mount\<close>: the loop variable of the duplicate check has the name of the parameter, so it is
  the mounts already there that are checked, against themselves.
\<close>

fun mount_check :: "'d fsCPIO \<Rightarrow> 'd MountPoint list \<Rightarrow> unit res" where
  "mount_check f [] = Ok ()"
| "mount_check f (m # ms) =
     (case fsCPIO_hasMount f (mp_n m) of
        Panic s \<Rightarrow> Panic s
      | Ok _ \<Rightarrow> Fail (Wrapf ''mount:%q:%w'' [mp_n m] (Some ErrExist))
      | Fail _ \<Rightarrow> mount_check f ms)"

definition fsCPIO_mount :: "'d fsCPIO \<Rightarrow> 'd MountPoint \<Rightarrow> 'd fsCPIO res" where
  "fsCPIO_mount f m = bind_res (mount_check f (fc_mnts f)) (\<lambda>_. Ok (f\<lparr>fc_mnts := fc_mnts f @ [m]\<rparr>))"

fun mount_all :: "'d fsCPIO \<Rightarrow> 'd MountPoint list \<Rightarrow> 'd fsCPIO res" where
  "mount_all f [] = Ok f"
| "mount_all f (m # ms) = bind_res (fsCPIO_mount f m) (\<lambda>f'. mount_all f' ms)"

text \<open>
  \<open>NewfsCPIO\<close>. \<open>dir\<close> is \<open>cpio.Directory\<close>; opening the file, \<open>cpio.Format\<close>, the reader of
  the file and \<open>cpio.ReadAllRecords\<close> are the other parameters.
\<close>

definition NewfsCPIO ::
    "(string \<Rightarrow> u64 \<Rightarrow> cpio_rec) \<Rightarrow> (string \<Rightarrow> goerror + 'r) \<Rightarrow> goerror option
       \<Rightarrow> ('r \<Rightarrow> goerror + 'q) \<Rightarrow> ('q \<Rightarrow> cpio_rec list \<times> goerror option)
       \<Rightarrow> string \<Rightarrow> 'd MountPoint list \<Rightarrow> 'd fsCPIO res" where
  "NewfsCPIO dir os_open fmt new_reader read_all c mounts =
     bind_res
       (if 0 < length c then
          (case os_open c of Inl e \<Rightarrow> Fail e | Inr f \<Rightarrow>
            (case fmt of Some e \<Rightarrow> Fail e | None \<Rightarrow>
              (case new_reader f of Inl e \<Rightarrow> Fail e | Inr rr \<Rightarrow>
                (case read_all rr of (recs, err) \<Rightarrow>
                  if length recs = 0 then Fail (Wrapf ''cpio:No records: %w'' [] (Some ErrInvalid))
                  else (case err of Some e \<Rightarrow> Fail e | None \<Rightarrow> Ok recs)))))
        else Ok [dir DOT 0x1ed])
       (\<lambda>recs. mount_all \<lparr>fc_m = rec_table recs, fc_recs = recs, fc_mnts = []\<rparr> mounts)"

definition fsCPIO_getfs :: "'d fsCPIO \<Rightarrow> string \<Rightarrow> ('d \<times> string) res" where
  "fsCPIO_getfs f filename =
     (case fsCPIO_hasMount f filename of
        Panic s \<Rightarrow> Panic s
      | Fail _ \<Rightarrow> Fail ErrNotExist
      | Ok (i, rel) \<Rightarrow> bind_res (index_slice (fc_mnts f) i) (\<lambda>m. Ok (mp_fs m, rel)))"

text \<open>
  The shape all operations share: the first continuation if a mount serves the name, the second
  otherwise.
\<close>

definition with_fs ::
    "'d fsCPIO \<Rightarrow> string \<Rightarrow> ('d \<Rightarrow> string \<Rightarrow> 'w \<Rightarrow> 'a res \<times> 'w) \<Rightarrow> ('w \<Rightarrow> 'a res \<times> 'w)
       \<Rightarrow> 'w \<Rightarrow> 'a res \<times> 'w" where
  "with_fs f filename k other w =
     (case fsCPIO_getfs f filename of
        Panic s \<Rightarrow> (Panic s, w)
      | Ok (osfs, rel) \<Rightarrow> k osfs rel w
      | Fail _ \<Rightarrow> other w)"

section \<open>Files of the archive\<close>

definition fsCPIO_lookup :: "'d fsCPIO \<Rightarrow> string \<Rightarrow> 'd cpio_file res" where
  "fsCPIO_lookup f filename =
     (if 0 < length filename then
        (case fc_m f filename of None \<Rightarrow> Fail ErrNotExist | Some ino \<Rightarrow> Ok \<lparr>fl_fs = f, fl_path = ino\<rparr>)
      else Ok \<lparr>fl_fs = f, fl_path = 0\<rparr>)"

definition file_rec :: "'d cpio_file \<Rightarrow> cpio_rec res" where
  "file_rec l =
     (if length (fc_recs (fl_fs l)) < fl_path l then Fail ErrNotExist
      else index_slice (fc_recs (fl_fs l)) (fl_path l))"

text \<open>The test of the error is inverted: with a record the name stays empty, without one the
  nil record is dereferenced.\<close>

definition file_Name :: "'d cpio_file \<Rightarrow> string res" where
  "file_Name l =
     (case file_rec l of Panic s \<Rightarrow> Panic s | Fail e \<Rightarrow> Panic ''nil pointer dereference'' | Ok r \<Rightarrow> Ok [])"

definition ModeDir :: u32 where "ModeDir = 0x80000000"
definition ModeSymlink :: u32 where "ModeSymlink = 0x8000000"
definition ModeDevice :: u32 where "ModeDevice = 0x4000000"
definition ModeNamedPipe :: u32 where "ModeNamedPipe = 0x2000000"
definition ModeCharDevice :: u32 where "ModeCharDevice = 0x200000"
definition ModePerm :: u32 where "ModePerm = 0x1ff"

text \<open>\<open>fs.ModeType\<close>: the bits above and those of sockets and irregular files.\<close>

definition ModeType :: u32 where "ModeType = 0x8f280000"

definition uToGo :: "u64 \<Rightarrow> u32" where
  "uToGo m =
     (let u = ucast m :: u32;
          perm = u AND ModePerm;
          kind = u AND 0xf000;
          t = (if kind = 0x1000 then ModeNamedPipe
               else if kind = 0x2000 then ModeCharDevice
               else if kind = 0x4000 then ModeDir
               else if kind = 0x6000 then ModeDevice
               else if kind = 0x8000 then 0
               else if kind = 0xa000 then ModeSymlink
               else 0)
      in perm OR t)"

definition fstat_Name :: "cpio_rec \<Rightarrow> string" where
  "fstat_Name r = path_base (rec_name r)"

definition fstat_Size :: "cpio_rec \<Rightarrow> int" where
  "fstat_Size r = sint (i_filesize (r_info r))"

definition fstat_Mode :: "cpio_rec \<Rightarrow> u32" where
  "fstat_Mode r = uToGo (i_mode (r_info r))"

definition fstat_IsDir :: "cpio_rec \<Rightarrow> bool" where
  "fstat_IsDir r = (fstat_Mode r AND ModeDir \<noteq> 0)"

definition file_ReadAt :: "'d cpio_file \<Rightarrow> nat \<Rightarrow> int \<Rightarrow> (int \<times> string \<times> goerror option) res" where
  "file_ReadAt l n offset =
     (case file_rec l of
        Panic s \<Rightarrow> Panic s
      | Fail e \<Rightarrow> Ok (-1, [], Some e)
      | Ok r \<Rightarrow> (case r_readat r n offset of (d, e) \<Rightarrow> Ok (int (length d), d, e)))"

definition file_readdir :: "'d cpio_file \<Rightarrow> nat list res" where
  "file_readdir l = bind_res (file_rec l) (\<lambda>r.
     Ok (scan_children (rec_name r) (fl_path l + 1) (drop (fl_path l + 1) (fc_recs (fl_fs l)))))"

text \<open>The offset moves the start of the list and is added to each index of it too.\<close>

fun file_entries :: "'d fsCPIO \<Rightarrow> nat \<Rightarrow> nat list \<Rightarrow> cpio_rec list res" where
  "file_entries f offset [] = Ok []"
| "file_entries f offset (i # js) =
     (case file_rec \<lparr>fl_fs = f, fl_path = i + offset\<rparr> of
        Panic s \<Rightarrow> Panic s
      | Fail e \<Rightarrow> file_entries f offset js
      | Ok r \<Rightarrow> bind_res (file_entries f offset js) (\<lambda>rs. Ok (r # rs)))"

definition file_ReadDir :: "'d cpio_file \<Rightarrow> nat \<Rightarrow> nat \<Rightarrow> cpio_rec list res" where
  "file_ReadDir l offset count =
     bind_res (file_rec l) (\<lambda>_.
     bind_res (file_readdir l) (\<lambda>list.
       if length list < offset then Fail EOF_err
       else file_entries (fl_fs l) offset (drop offset list)))"

definition file_Readlink :: "'d cpio_file \<Rightarrow> (string \<times> goerror option) res" where
  "file_Readlink l =
     (case file_rec l of
        Panic s \<Rightarrow> Panic s
      | Fail e \<Rightarrow> Ok ([], Some e)
      | Ok r \<Rightarrow>
          if fstat_Mode r AND ModeType \<noteq> ModeSymlink then Ok ([], Some ErrInvalid)
          else let sz = unat (i_filesize (r_info r)) in
            (case r_readat r sz 0 of (d, e) \<Rightarrow>
               if e \<noteq> None \<or> length d \<noteq> sz then Ok ([], e) else Ok (d, None)))"

definition file_Truncate :: "'d cpio_file \<Rightarrow> int \<Rightarrow> goerror option" where
  "file_Truncate l sz = Some ErrPermission"

definition file_WriteAt :: "'d cpio_file \<Rightarrow> string \<Rightarrow> int \<Rightarrow> int \<times> goerror option" where
  "file_WriteAt l p offset = (-1, Some ErrPermission)"

text \<open>\<open>Read\<close>, \<open>Write\<close> and \<open>Seek\<close> without an offset are not used by NFS.\<close>

definition file_Write :: "'d cpio_file \<Rightarrow> string \<Rightarrow> int \<times> goerror option" where
  "file_Write l p = (-1, Some ErrInvalid)"

definition file_Read :: "'d cpio_file \<Rightarrow> nat \<Rightarrow> int \<times> goerror option" where
  "file_Read l n = (-1, Some ErrInvalid)"

definition file_Seek :: "'d cpio_file \<Rightarrow> int \<Rightarrow> int \<Rightarrow> int \<times> goerror option" where
  "file_Seek l offset whence = (-1, Some ErrInvalid)"

definition file_Close :: "'d cpio_file \<Rightarrow> goerror option" where
  "file_Close l = None"

definition file_Lock :: "'d cpio_file \<Rightarrow> goerror option" where
  "file_Lock l = None"

definition file_Unlock :: "'d cpio_file \<Rightarrow> goerror option" where
  "file_Unlock l = None"

text \<open>Times are the seconds of \<open>time.Unix(0, 0)\<close>, for every file.\<close>

definition fstat_ModTime :: "cpio_rec \<Rightarrow> int" where
  "fstat_ModTime r = 0"

text \<open>The name of what \<open>os.FileInfo\<close> describes; \<open>info_name\<close> is the \<open>Name\<close> of a mount's.\<close>

definition finfo_Name :: "('i \<Rightarrow> string) \<Rightarrow> 'i finfo \<Rightarrow> string" where
  "finfo_Name info_name fi = (case fi of MountInfo i \<Rightarrow> info_name i | Ufstat i n \<Rightarrow> n | Fstat r \<Rightarrow> fstat_Name r)"

section \<open>The file system's operations\<close>

definition fsCPIO_Readlink ::
    "('w, 'd, 'h, 'i) billy_ops \<Rightarrow> 'd fsCPIO \<Rightarrow> string \<Rightarrow> 'w \<Rightarrow> (string \<times> goerror option) res \<times> 'w" where
  "fsCPIO_Readlink ops f link w =
     with_fs f link
       (\<lambda>osfs rel w. case b_readlink ops osfs rel w of
            (Ok s, w') \<Rightarrow> (Ok (s, None), w')
          | (Fail e, w') \<Rightarrow> (Ok ([], Some e), w')
          | (Panic s, w') \<Rightarrow> (Panic s, w'))
       (\<lambda>w. (case fsCPIO_lookup f link of
            Panic s \<Rightarrow> Panic s | Fail e \<Rightarrow> Ok ([], Some e) | Ok l \<Rightarrow> file_Readlink l, w)) w"

text \<open>
  \<open>resolvelink\<close>: at most 21 links are read. The name and the error are returned together.
\<close>

function resolvelink_loop ::
    "('w, 'd, 'h, 'i) billy_ops \<Rightarrow> 'd fsCPIO \<Rightarrow> nat \<Rightarrow> string \<Rightarrow> 'w
       \<Rightarrow> (string \<times> goerror option) res \<times> 'w" where
  "resolvelink_loop ops f linkcount filename w =
     (if 20 < linkcount then (Ok ([], Some ELOOP), w)
      else case fsCPIO_Readlink ops f filename w of
        (Panic s, w') \<Rightarrow> (Panic s, w')
      | (Fail e, w') \<Rightarrow> (Ok (filename, Some e), w')
      | (Ok (s, err), w') \<Rightarrow>
          if 0 < linkcount \<and> err = Some ErrInvalid then (Ok (filename, None), w')
          else if err \<noteq> None then (Ok (filename, err), w')
          else resolvelink_loop ops f (linkcount + 1)
                 (if \<not> is_abs s then path_join [path_dir filename, s] else s) w')"
  by pat_completeness auto
termination
  by (relation "measure (\<lambda>(ops, f, linkcount, filename, w). 21 - linkcount)") auto

declare resolvelink_loop.simps [simp del]

definition fsCPIO_resolvelink ::
    "('w, 'd, 'h, 'i) billy_ops \<Rightarrow> 'd fsCPIO \<Rightarrow> string \<Rightarrow> 'w \<Rightarrow> (string \<times> goerror option) res \<times> 'w" where
  "fsCPIO_resolvelink ops f filename w = resolvelink_loop ops f 0 filename w"

fun mount_infos ::
    "('w, 'd, 'h, 'i) billy_ops \<Rightarrow> 'd MountPoint list \<Rightarrow> 'w \<Rightarrow> 'i finfo list res \<times> 'w" where
  "mount_infos ops [] w = (Ok [], w)"
| "mount_infos ops (m # ms) w =
     (case b_lstat ops (mp_fs m) DOT w of
        (Panic s, w') \<Rightarrow> (Panic s, w')
      | (Fail e, w') \<Rightarrow> mount_infos ops ms w'
      | (Ok i, w') \<Rightarrow>
          (case mount_infos ops ms w' of (r, w'') \<Rightarrow>
             (bind_res r (\<lambda>is. Ok (Ufstat i (mp_n m) # is)), w'')))"

definition fsCPIO_ReadDir ::
    "('w, 'd, 'h, 'i) billy_ops \<Rightarrow> 'd fsCPIO \<Rightarrow> string \<Rightarrow> 'w \<Rightarrow> 'i finfo list res \<times> 'w" where
  "fsCPIO_ReadDir ops f filename0 w0 =
     with_fs f filename0
       (\<lambda>osfs rel w. case b_readdir ops osfs rel w of (r, w') \<Rightarrow>
          (bind_res r (\<lambda>is. Ok (map MountInfo is)), w'))
       (\<lambda>w. case fsCPIO_resolvelink ops f filename0 w of
            (Panic s, w1) \<Rightarrow> (Panic s, w1)
          | (rl, w1) \<Rightarrow>
              (let filename = (case rl of Ok (s, None) \<Rightarrow> s | _ \<Rightarrow> filename0) in
               case fsCPIO_lookup f filename of
                 Panic s \<Rightarrow> (Panic s, w1)
               | Fail e \<Rightarrow> (Fail e, w1)
               | Ok l \<Rightarrow>
                   (let fi = file_ReadDir l 0 1048576 in
                    if panics fi \<or> length filename \<noteq> 0 then (bind_res fi (\<lambda>rs. Ok (map Fstat rs)), w1)
                    else (case mount_infos ops (fc_mnts f) w1 of (ms, w2) \<Rightarrow>
                      (bind_res ms (\<lambda>ms. bind_res fi (\<lambda>rs. Ok (map Fstat rs @ ms))), w2)))))
       w0"

definition fsCPIO_Stat ::
    "('w, 'd, 'h, 'i) billy_ops \<Rightarrow> 'd fsCPIO \<Rightarrow> string \<Rightarrow> 'w \<Rightarrow> 'i finfo res \<times> 'w" where
  "fsCPIO_Stat ops f filename w =
     with_fs f filename
       (\<lambda>osfs rel w. case b_lstat ops osfs rel w of (r, w') \<Rightarrow> (bind_res r (\<lambda>i. Ok (MountInfo i)), w'))
       (\<lambda>w. (bind_res (fsCPIO_lookup f filename) (\<lambda>l.
            if length (fc_recs f) < fl_path l then
              Fail (Errorf ''Stat:%q: index %d is too big'' [filename, show_nat (fl_path l)])
            else bind_res (index_slice (fc_recs f) (fl_path l)) (\<lambda>r. Ok (Fstat r))), w)) w"

definition fsCPIO_Lstat ::
    "('w, 'd, 'h, 'i) billy_ops \<Rightarrow> 'd fsCPIO \<Rightarrow> string \<Rightarrow> 'w \<Rightarrow> 'i finfo res \<times> 'w" where
  "fsCPIO_Lstat ops f filename w =
     with_fs f filename
       (\<lambda>osfs rel w. case b_lstat ops osfs rel w of (r, w') \<Rightarrow> (bind_res r (\<lambda>i. Ok (MountInfo i)), w'))
       (\<lambda>w. (bind_res (fsCPIO_lookup f filename) (\<lambda>l.
            bind_res (index_slice (fc_recs f) (fl_path l)) (\<lambda>r. Ok (Fstat r))), w)) w"

definition mount_file :: "'h res \<times> 'w \<Rightarrow> ('d, 'h) bfile res \<times> 'w" where
  "mount_file r = (bind_res (fst r) (\<lambda>h. Ok (MountFile h)), snd r)"

definition fsCPIO_Open ::
    "('w, 'd, 'h, 'i) billy_ops \<Rightarrow> 'd fsCPIO \<Rightarrow> string \<Rightarrow> 'w \<Rightarrow> ('d, 'h) bfile res \<times> 'w" where
  "fsCPIO_Open ops f filename w =
     with_fs f filename (\<lambda>osfs rel w. mount_file (b_open ops osfs rel w))
       (\<lambda>w. (bind_res (fsCPIO_lookup f filename) (\<lambda>l. Ok (ArchiveFile l)), w)) w"

definition fsCPIO_Create ::
    "('w, 'd, 'h, 'i) billy_ops \<Rightarrow> 'd fsCPIO \<Rightarrow> string \<Rightarrow> 'w \<Rightarrow> ('d, 'h) bfile res \<times> 'w" where
  "fsCPIO_Create ops f filename w =
     with_fs f filename (\<lambda>osfs rel w. mount_file (b_create ops osfs rel w))
       (\<lambda>w. (Fail ErrPermission, w)) w"

definition fsCPIO_OpenFile ::
    "('w, 'd, 'h, 'i) billy_ops \<Rightarrow> 'd fsCPIO \<Rightarrow> string \<Rightarrow> int \<Rightarrow> u32 \<Rightarrow> 'w \<Rightarrow> ('d, 'h) bfile res \<times> 'w" where
  "fsCPIO_OpenFile ops f filename flag perm w =
     with_fs f filename (\<lambda>osfs rel w. mount_file (b_openfile ops osfs rel flag perm w))
       (\<lambda>w. (Fail ErrPermission, w)) w"

definition fsCPIO_Symlink ::
    "('w, 'd, 'h, 'i) billy_ops \<Rightarrow> 'd fsCPIO \<Rightarrow> string \<Rightarrow> string \<Rightarrow> 'w \<Rightarrow> unit res \<times> 'w" where
  "fsCPIO_Symlink ops f value path w =
     with_fs f path (\<lambda>osfs rel w. b_symlink ops osfs value rel w) (\<lambda>w. (Fail ErrPermission, w)) w"

definition fsCPIO_MkdirAll ::
    "('w, 'd, 'h, 'i) billy_ops \<Rightarrow> 'd fsCPIO \<Rightarrow> string \<Rightarrow> u32 \<Rightarrow> 'w \<Rightarrow> unit res \<times> 'w" where
  "fsCPIO_MkdirAll ops f filename perm w =
     with_fs f filename (\<lambda>osfs rel w. b_mkdirall ops osfs rel perm w) (\<lambda>w. (Fail ErrPermission, w)) w"

definition fsCPIO_Remove ::
    "('w, 'd, 'h, 'i) billy_ops \<Rightarrow> 'd fsCPIO \<Rightarrow> string \<Rightarrow> 'w \<Rightarrow> unit res \<times> 'w" where
  "fsCPIO_Remove ops f filename w =
     with_fs f filename (\<lambda>osfs rel w. b_remove ops osfs rel w) (\<lambda>w. (Fail ErrPermission, w)) w"

definition fsCPIO_Rename ::
    "('w, 'd, 'h, 'i) billy_ops \<Rightarrow> 'd fsCPIO \<Rightarrow> string \<Rightarrow> string \<Rightarrow> 'w \<Rightarrow> unit res \<times> 'w" where
  "fsCPIO_Rename ops f oldpath newpath w0 =
     with_fs f oldpath
       (\<lambda>oldosfs oldrel w.
          case fsCPIO_getfs f newpath of
            Panic s \<Rightarrow> (Panic s, w)
          | Fail e \<Rightarrow> (Fail (Errorf ''Rename(%q,%q): %v'' [oldpath, newpath, ''file does not exist'']), w)
          | Ok (newosfs, newrel) \<Rightarrow>
              if newosfs \<noteq> oldosfs then
                (Fail (Errorf ''Rename(%q,%q): can not cross file systems'' [oldpath, newpath]), w)
              else b_rename ops newosfs oldrel newrel w)
       (\<lambda>w. (Fail ErrPermission, w)) w0"

definition fsCPIO_TempFile :: "'d fsCPIO \<Rightarrow> string \<Rightarrow> string \<Rightarrow> ('d, 'h) bfile res" where
  "fsCPIO_TempFile f dir pre = Fail ErrPermission"

definition fsCPIO_Chroot :: "'d fsCPIO \<Rightarrow> string \<Rightarrow> 'd fsCPIO res" where
  "fsCPIO_Chroot f n = Fail ErrInvalid"

definition fsCPIO_Root :: "'d fsCPIO \<Rightarrow> string" where
  "fsCPIO_Root f = ''/''"

definition fsCPIO_Join :: "'d fsCPIO \<Rightarrow> string list \<Rightarrow> string" where
  "fsCPIO_Join f elem = path_join elem"

definition fsCPIO_Name :: "'d fsCPIO \<Rightarrow> string res" where
  "fsCPIO_Name f = bind_res (index_slice (fc_recs f) 0) (\<lambda>r. Ok (rec_name r))"

definition fsCPIO_Size :: "'d fsCPIO \<Rightarrow> int res" where
  "fsCPIO_Size f = bind_res (index_slice (fc_recs f) 0) (\<lambda>r. Ok (sint (i_filesize (r_info r))))"

definition fsCPIO_Mode :: "'d fsCPIO \<Rightarrow> u32 res" where
  "fsCPIO_Mode f = bind_res (index_slice (fc_recs f) 0) (\<lambda>r. Ok (uToGo (i_mode (r_info r))))"

definition fsCPIO_ModTime :: "'d fsCPIO \<Rightarrow> int" where
  "fsCPIO_ModTime f = 0"

definition fsCPIO_IsDir :: "'d fsCPIO \<Rightarrow> bool" where
  "fsCPIO_IsDir f = True"

section \<open>Attribute changes\<close>

text \<open>
  \<open>COS\<close> in \<open>client/osnfs.go\<close> gives the file system the \<open>billy.Change\<close> operations by calling
  the operating system, the parameters here, on the name joined with \<open>Root\<close>.
\<close>

definition COS_Chmod :: "(string \<Rightarrow> u32 \<Rightarrow> 'w \<Rightarrow> unit res \<times> 'w) \<Rightarrow> 'd fsCPIO \<Rightarrow> string \<Rightarrow> u32 \<Rightarrow> 'w
    \<Rightarrow> unit res \<times> 'w" where
  "COS_Chmod os_chmod f name mode = os_chmod (fsCPIO_Join f [fsCPIO_Root f, name]) mode"

definition COS_Lchown :: "(string \<Rightarrow> int \<Rightarrow> int \<Rightarrow> 'w \<Rightarrow> unit res \<times> 'w) \<Rightarrow> 'd fsCPIO \<Rightarrow> string
    \<Rightarrow> int \<Rightarrow> int \<Rightarrow> 'w \<Rightarrow> unit res \<times> 'w" where
  "COS_Lchown os_lchown f name uid gid = os_lchown (fsCPIO_Join f [fsCPIO_Root f, name]) uid gid"

definition COS_Chown :: "(string \<Rightarrow> int \<Rightarrow> int \<Rightarrow> 'w \<Rightarrow> unit res \<times> 'w) \<Rightarrow> 'd fsCPIO \<Rightarrow> string
    \<Rightarrow> int \<Rightarrow> int \<Rightarrow> 'w \<Rightarrow> unit res \<times> 'w" where
  "COS_Chown os_chown f name uid gid = os_chown (fsCPIO_Join f [fsCPIO_Root f, name]) uid gid"

definition COS_Chtimes :: "(string \<Rightarrow> 't \<Rightarrow> 't \<Rightarrow> 'w \<Rightarrow> unit res \<times> 'w) \<Rightarrow> 'd fsCPIO \<Rightarrow> string
    \<Rightarrow> 't \<Rightarrow> 't \<Rightarrow> 'w \<Rightarrow> unit res \<times> 'w" where
  "COS_Chtimes os_chtimes f name atime mtime = os_chtimes (fsCPIO_Join f [fsCPIO_Root f, name]) atime mtime"

section \<open>The NFS handler\<close>

datatype nfs_status = MountStatusOk | MountStatusErrPerm | MountStatusErrNoEnt

record NullAuthHandler =
  na_count :: u32
  na_n :: string

definition NewNullAuthHandler :: "string \<Rightarrow> NullAuthHandler" where
  "NewNullAuthHandler nonce = \<lparr>na_count = 0, na_n = nonce\<rparr>"

text \<open>
  \<open>Mount\<close> counts every request in an \<open>int32\<close>; the file system is handed out only with
  \<open>MountStatusOk\<close>.
\<close>

definition NullAuthHandler_Mount :: "NullAuthHandler \<Rightarrow> string \<Rightarrow> nfs_status \<times> NullAuthHandler" where
  "NullAuthHandler_Mount h dirpath =
     (let h' = h\<lparr>na_count := na_count h + 1\<rparr> in
      if 1 <s na_count h' then (MountStatusErrPerm, h')
      else if dirpath \<noteq> na_n h then (MountStatusErrNoEnt, h')
      else (MountStatusOk, h'))"

fun mount_requests :: "NullAuthHandler \<Rightarrow> string list \<Rightarrow> nfs_status list" where
  "mount_requests h [] = []"
| "mount_requests h (d # ds) =
     (case NullAuthHandler_Mount h d of (st, h') \<Rightarrow> st # mount_requests h' ds)"

text \<open>\<open>Change\<close> answers with the file system itself if it has the operations.\<close>

definition NullAuthHandler_Change :: "'c option \<Rightarrow> 'c option" where
  "NullAuthHandler_Change c = (case c of Some ch \<Rightarrow> Some ch | None \<Rightarrow> None)"

definition NullAuthHandler_HandleLimit :: int where
  "NullAuthHandler_HandleLimit = -1"

text \<open>What the caching handler in front answers itself: every file has the same empty handle, and a handle no file system.\<close>

definition NullAuthHandler_FSStat :: "'d fsCPIO \<Rightarrow> 's \<Rightarrow> goerror option" where
  "NullAuthHandler_FSStat f s = None"

definition NullAuthHandler_ToHandle :: "'d fsCPIO \<Rightarrow> string list \<Rightarrow> string" where
  "NullAuthHandler_ToHandle f s = []"

definition NullAuthHandler_FromHandle :: "string \<Rightarrow> 'd fsCPIO option \<times> string list \<times> goerror option" where
  "NullAuthHandler_FromHandle h = (None, [], None)"

definition NullAuthHandler_InvalidateHandle :: "'d fsCPIO \<Rightarrow> string \<Rightarrow> goerror option" where
  "NullAuthHandler_InvalidateHandle f h = None"

section \<open>Serving it\<close>

text \<open>The fstab line for the client's mount of the NFS server.\<close>

definition nfs_fstab :: "string \<Rightarrow> nat \<Rightarrow> string" where
  "nfs_fstab u port =
     ''127.0.0.1:'' @ u @ '' /tmp/cpu nfs rw,relatime,vers=3,rsize=1048576,wsize=1048576,namlen=255,hard,nolock,proto=tcp,port='' @
     show_nat port @ '',timeo=600,retrans=2,sec=sys,mountaddr=127.0.0.1,mountvers=3,mountport='' @
     show_nat port @ '',mountproto=tcp,local_lock=all,addr=127.0.0.1 0 0'' @ [NL]"

text \<open>
  \<open>SrvNFS\<close>: \<open>listen\<close> is the client's \<open>Listen\<close>, giving the address of the listener as
  text, \<open>osfs\<close> the file system for a directory, \<open>new_fs\<close> is \<open>NewfsCPIO\<close> for the archive
  named, \<open>uuid\<close> the random identifier. The result is the served file system with its handler
  and the fstab line.
\<close>

definition SrvNFS ::
    "(string \<Rightarrow> string \<Rightarrow> goerror + string) \<Rightarrow> (string \<Rightarrow> 'd) \<Rightarrow> ('d MountPoint list \<Rightarrow> 'd fsCPIO res)
       \<Rightarrow> goerror + string \<Rightarrow> string \<Rightarrow> ('d fsCPIO \<times> NullAuthHandler \<times> string) res" where
  "SrvNFS listen osfs new_fs uuid dir =
     (case path_rel ''/'' dir of
        Inl e \<Rightarrow> Fail e
      | Inr mdir \<Rightarrow>
          bind_res (new_fs [WithMount mdir (osfs dir)]) (\<lambda>mem.
            case (case listen ''tcp'' ''127.0.0.1:0'' of
                    Inr a \<Rightarrow> Inr a | Inl _ \<Rightarrow> listen ''tcp'' ''[::1]:0'') of
              Inl e \<Rightarrow> Fail (Errorf ''SrvNFS:cpu client listen for forwarded nfs port %v'' [])
            | Inr addr \<Rightarrow>
                (let ap = split_on CHR '':'' addr in
                 if ap = [] then Fail (Errorf ''SrvNFS:Cannot find a port number in %v'' [addr])
                 else (case parse_uint (last ap) 16 of
                     Inl _ \<Rightarrow> Fail (Errorf ''SrvNFS:Cannot find a 16-bit port number in %v'' [addr])
                   | Inr portnfs \<Rightarrow>
                       (case uuid of
                          Inl e \<Rightarrow> Fail e
                        | Inr u \<Rightarrow> Ok (mem, NewNullAuthHandler u, nfs_fstab u portnfs))))))"

section \<open>Facts on mounts and files\<close>

lemma find_mnt_existing: "m \<in> set ms \<Longrightarrow> \<exists>ir. find_mnt ms i (mp_n m) = Some ir"
  by (induction ms arbitrary: i) (auto split: sum.splits)

lemma hasMount_existing:
  assumes "m \<in> set (fc_mnts f)"
  shows "\<exists>ir. fsCPIO_hasMount f (mp_n m) = Ok ir"
proof (cases "is_abs (mp_n m)")
  case True
  with find_mnt_existing [OF assms, of 0] show ?thesis by (auto simp: fsCPIO_hasMount_def)
next
  case False
  from assms have "0 < length (fc_mnts f)" by (cases "fc_mnts f") auto
  with False show ?thesis by (simp add: fsCPIO_hasMount_def)
qed

lemma mount_second: "fc_mnts f = m # ms \<Longrightarrow>
    fsCPIO_mount f m' = Fail (Wrapf ''mount:%q:%w'' [mp_n m] (Some ErrExist))"
  using hasMount_existing [of m f] by (auto simp: fsCPIO_mount_def)

lemma mount_all_two: "fc_mnts f = [] \<Longrightarrow>
    mount_all f (m1 # m2 # ms) = Fail (Wrapf ''mount:%q:%w'' [mp_n m1] (Some ErrExist))"
  using mount_second [of "f\<lparr>fc_mnts := [m1]\<rparr>" m1 "[]" m2] by (simp add: fsCPIO_mount_def)

lemma getfs_relative: "\<not> is_abs n \<Longrightarrow> fc_mnts f = m # ms \<Longrightarrow> fsCPIO_getfs f n = Ok (mp_fs m, n)"
  by (simp add: fsCPIO_getfs_def fsCPIO_hasMount_def)

lemma find_mnt_bound: "find_mnt ms i n = Some (j, r) \<Longrightarrow> i \<le> j \<and> j < i + length ms"
  by (induction ms arbitrary: i) (fastforce split: sum.splits)+

lemma getfs_absolute:
  "is_abs n \<Longrightarrow> fsCPIO_getfs f n =
    (case find_mnt (fc_mnts f) 0 n of None \<Rightarrow> Fail ErrNotExist
     | Some (i, r) \<Rightarrow> Ok (mp_fs (fc_mnts f ! i), r))"
  using find_mnt_bound [of "fc_mnts f" 0 n]
  by (auto simp: fsCPIO_getfs_def fsCPIO_hasMount_def split: option.splits)

lemma lookup_absolute:
  assumes "fc_m f = rec_table (fc_recs f)" and "list_all (\<lambda>r. \<not> is_abs (rec_name r)) (fc_recs f)"
    and "is_abs n"
  shows "fsCPIO_lookup f n = Fail ErrNotExist"
proof (cases "fc_m f n")
  case (Some i)
  then have "i < length (fc_recs f)" "rec_name (fc_recs f ! i) = n"
    using rec_table_bound assms(1) by simp_all
  with assms(2,3) show ?thesis by (auto simp: list_all_length)
qed (use assms(3) in \<open>simp add: fsCPIO_lookup_def is_abs_def\<close>)

section \<open>Properties\<close>

text \<open>A file system can be made with one mount point at most. With two or more mount
  points \<open>NewfsCPIO\<close> never succeeds, whatever the archive; without an archive the error says
  that the first mount point exists already, whatever the names of the two are.\<close>

lemma fscpio_single_mount:
  "NewfsCPIO dir os_open fmt new_reader read_all c (m1 # m2 # ms) \<noteq> Ok f \<and>
   NewfsCPIO dir os_open fmt new_reader read_all [] (m1 # m2 # ms) =
     Fail (Wrapf ''mount:%q:%w'' [mp_n m1] (Some ErrExist)) \<and>
   (\<exists>f. NewfsCPIO dir os_open fmt new_reader read_all [] [m1] = Ok f)"
proof -
  have two: "mount_all \<lparr>fc_m = rec_table recs, fc_recs = recs, fc_mnts = []\<rparr> (m1 # m2 # ms) =
      Fail (Wrapf ''mount:%q:%w'' [mp_n m1] (Some ErrExist))" for recs
    by (rule mount_all_two) simp
  show ?thesis
    unfolding NewfsCPIO_def two
    by (auto simp: bind_res_Ok_iff fsCPIO_mount_def)
qed


text \<open>A mounted file system that counts its calls and has one file, for evaluation.\<close>

definition count_ops :: "(nat, nat, nat, string) billy_ops" where
  "count_ops = \<lparr>b_lstat = (\<lambda>d n w. (Ok n, Suc w)), b_readdir = (\<lambda>d n w. (Ok [n], Suc w)),
     b_readlink = (\<lambda>d n w. (Ok n, Suc w)), b_open = (\<lambda>d n w. (Ok d, Suc w)),
     b_create = (\<lambda>d n w. (Ok d, Suc w)), b_symlink = (\<lambda>d v n w. (Ok (), Suc w)),
     b_rename = (\<lambda>d n n' w. (Ok (), Suc w)), b_mkdirall = (\<lambda>d n p w. (Ok (), Suc w)),
     b_openfile = (\<lambda>d n fl p w. (Ok d, Suc w)), b_remove = (\<lambda>d n w. (Ok (), Suc w))\<rparr>"

definition sample_fs :: "nat fsCPIO" where
  "sample_fs = \<lparr>fc_m = rec_table sample_recs, fc_recs = sample_recs, fc_mnts = [WithMount ''home'' 5]\<rparr>"

lemma sample_fs_simps [simp]:
  "fc_mnts sample_fs = [WithMount ''home'' 5]" "fc_m sample_fs = rec_table sample_recs"
  "fc_recs sample_fs = sample_recs"
  by (simp_all add: sample_fs_def)


text \<open>The archive is never changed. For a name no mount serves, every operation that would
  change the file system answers \<open>os.ErrPermission\<close> and calls nothing.\<close>

lemma fscpio_archive_read_only:
  assumes "fsCPIO_getfs f n = Fail e"
  shows "fsCPIO_Create ops f n w = (Fail ErrPermission, w) \<and>
    fsCPIO_OpenFile ops f n flag perm w = (Fail ErrPermission, w) \<and>
    fsCPIO_Symlink ops f v n w = (Fail ErrPermission, w) \<and>
    fsCPIO_MkdirAll ops f n perm w = (Fail ErrPermission, w) \<and>
    fsCPIO_Remove ops f n w = (Fail ErrPermission, w) \<and>
    fsCPIO_Rename ops f n n' w = (Fail ErrPermission, w)"
  using assms by (simp add: fsCPIO_Create_def fsCPIO_OpenFile_def fsCPIO_Symlink_def
      fsCPIO_MkdirAll_def fsCPIO_Remove_def fsCPIO_Rename_def with_fs_def)

theorem fscpio_archive_read_only_witness:
  "fsCPIO_Rename count_ops sample_fs ''/a/b'' ''c'' 0 = (Fail ErrPermission, 0)"
proof -
  have "fsCPIO_getfs sample_fs ''/a/b'' = Fail ErrNotExist" by code_simp
  from fscpio_archive_read_only [OF this, of count_ops 0] show ?thesis by blast
qed

lemma resolvelink_loop_end:
  "resolvelink_loop ops f k n w = (Ok (s, None), w') \<Longrightarrow>
    \<exists>w1 t. fsCPIO_Readlink ops f s w1 = (Ok (t, Some ErrInvalid), w')"
proof (induction ops f k n w rule: resolvelink_loop.induct)
  case (1 ops f k n w)
  show ?case
  proof (cases "20 < k")
    case True
    with 1(2) show ?thesis by (simp add: resolvelink_loop.simps)
  next
    case False
    obtain r w1 where rl: "fsCPIO_Readlink ops f n w = (r, w1)" by force
    show ?thesis
    proof (cases r)
      case (Ok se)
      obtain t err where se: "se = (t, err)" by force
      let ?n' = "if \<not> is_abs t then path_join [path_dir n, t] else t"
      consider "0 < k \<and> err = Some ErrInvalid" | "\<not> (0 < k \<and> err = Some ErrInvalid)" "err \<noteq> None" | "err = None"
        by blast
      then show ?thesis
      proof cases
        case 1
        with False rl Ok se \<open>resolvelink_loop ops f k n w = _\<close> show ?thesis
          by (auto simp: resolvelink_loop.simps)
      next
        case 2
        with False rl Ok se \<open>resolvelink_loop ops f k n w = _\<close> show ?thesis
          by (auto simp: resolvelink_loop.simps split: if_splits)
      next
        case 3
        then have "resolvelink_loop ops f (k + 1) ?n' w1 = (Ok (s, None), w')"
          using False rl Ok se 1(2) by (simp add: resolvelink_loop.simps [of ops f k])
        with 3 show ?thesis
          using 1(1) [OF False rl [symmetric] Ok se [symmetric]] by simp
      qed
    qed (use False rl 1(2) in \<open>simp_all add: resolvelink_loop.simps\<close>)
  qed
qed

lemma resolvelink_loop_cycle:
  assumes "\<And>n w. n \<in> S \<Longrightarrow> \<exists>s w'. fsCPIO_Readlink ops f n w = (Ok (s, None), w') \<and>
      (if \<not> is_abs s then path_join [path_dir n, s] else s) \<in> S"
  shows "n \<in> S \<Longrightarrow> fst (resolvelink_loop ops f k n w) = Ok ([], Some ELOOP)"
proof (induction "21 - k" arbitrary: k n w)
  case 0
  then show ?case by (simp add: resolvelink_loop.simps)
next
  case (Suc d)
  from assms [OF Suc.prems] obtain s w' where
    s: "fsCPIO_Readlink ops f n w = (Ok (s, None), w')"
      "(if \<not> is_abs s then path_join [path_dir n, s] else s) \<in> S" by blast
  have "d = 21 - (k + 1)" "\<not> 20 < k" using Suc.hyps(2) by simp_all
  with Suc.hyps(1) [OF _ s(2)] s(1) show ?case by (simp add: resolvelink_loop.simps [of ops f k])
qed

text \<open>C35: following links ends, and ends at what is not a link. \<open>resolvelink\<close> returns a name
  without an error only when reading that name as a link answered \<open>os.ErrInvalid\<close>; and where
  every name of a set is a link to a name of the set it returns \<open>ELOOP\<close>.\<close>

theorem fscpio_resolvelink:
  assumes "\<forall>n \<in> S. \<forall>w. \<exists>s w'. fsCPIO_Readlink ops f n w = (Ok (s, None), w') \<and>
      (if \<not> is_abs s then path_join [path_dir n, s] else s) \<in> S"
  shows "(n \<in> S \<longrightarrow> fst (fsCPIO_resolvelink ops f n w) = Ok ([], Some ELOOP)) \<and>
    (fsCPIO_resolvelink ops f n w = (Ok (s, None), w') \<longrightarrow>
      (\<exists>w1 t. fsCPIO_Readlink ops f s w1 = (Ok (t, Some ErrInvalid), w')))"
  using resolvelink_loop_cycle [of S ops f n 0 w] resolvelink_loop_end [of ops f 0 n w s w'] assms
  unfolding fsCPIO_resolvelink_def by blast

theorem fscpio_resolvelink_witness:
  "fst (fsCPIO_resolvelink count_ops sample_fs ''x'' 0) = Ok ([], Some ELOOP)"
proof -
  have g: "fsCPIO_getfs sample_fs ''x'' = Ok (5, ''x'')" by code_simp
  have j: "path_join [path_dir ''x'', ''x''] = ''x''" "\<not> is_abs ''x''" by code_simp+
  have "\<forall>n \<in> {''x''}. \<forall>w. \<exists>s w'. fsCPIO_Readlink count_ops sample_fs n w = (Ok (s, None), w') \<and>
      (if \<not> is_abs s then path_join [path_dir n, s] else s) \<in> {''x''}"
    using j by (simp add: fsCPIO_Readlink_def with_fs_def g count_ops_def)
  from fscpio_resolvelink [OF this, of "''x''" 0] show ?thesis by simp
qed

lemma file_entries_ok:
  "(\<And>i. i \<in> set js \<Longrightarrow> i + k < length (fc_recs f)) \<Longrightarrow>
    file_entries f k js = Ok (map (\<lambda>i. fc_recs f ! (i + k)) js)"
proof (induction js)
  case (Cons j js)
  have "j + k < length (fc_recs f)" using Cons.prems by simp
  then have "file_rec \<lparr>fl_fs = f, fl_path = j + k\<rparr> = Ok (fc_recs f ! (j + k))"
    by (simp add: file_rec_def)
  with Cons show ?case by simp
qed simp

lemma file_readdir_spec:
  assumes "well_formed (fc_recs (fl_fs l))" and "fl_path l < length (fc_recs (fl_fs l))"
  shows "file_readdir l =
    Ok (filter (is_child (fc_recs (fl_fs l)) (fl_path l)) [0..<length (fc_recs (fl_fs l))])"
  using scan_children_wf [OF assms, of "Suc (fl_path l)"] filter_children_from [OF assms] assms(2)
  by (simp add: file_readdir_def file_rec_def)

text \<open>A listing is right from its beginning only. On a file of a well-formed archive
  \<open>ReadDir\<close> at an offset skips that many of the directory's entries and then returns, for
  each entry left, not its record but the record as many places further on: at offset 0 the
  records of exactly the directory's entries, at any other offset records that need not be in
  the directory.\<close>

lemma fscpio_readdir_offset:
  assumes "well_formed (fc_recs (fl_fs l))" and "fl_path l < length (fc_recs (fl_fs l))"
    and "kids = filter (is_child (fc_recs (fl_fs l)) (fl_path l)) [0..<length (fc_recs (fl_fs l))]"
    and "k \<le> length kids"
    and "\<forall>i \<in> set (drop k kids). i + k < length (fc_recs (fl_fs l))"
  shows "file_ReadDir l 0 cnt = Ok (map (\<lambda>i. fc_recs (fl_fs l) ! i) kids) \<and>
    file_ReadDir l k cnt = Ok (map (\<lambda>i. fc_recs (fl_fs l) ! (i + k)) (drop k kids))"
proof -
  have r: "file_rec l = Ok (fc_recs (fl_fs l) ! fl_path l)" using assms(2) by (simp add: file_rec_def)
  have rd: "file_readdir l = Ok kids" unfolding assms(3) by (rule file_readdir_spec [OF assms(1,2)])
  have "\<And>i. i \<in> set kids \<Longrightarrow> i + 0 < length (fc_recs (fl_fs l))" using assms(3) by simp
  note e0 = file_entries_ok [OF this, of kids]
  have ek: "file_entries (fl_fs l) k (drop k kids) =
      Ok (map (\<lambda>i. fc_recs (fl_fs l) ! (i + k)) (drop k kids))"
    using assms(5) by (intro file_entries_ok) blast
  show ?thesis
    using assms(4) by (simp add: file_ReadDir_def r rd e0 ek)
qed

theorem fscpio_readdir_offset_witness:
  "file_ReadDir \<lparr>fl_fs = sample_fs, fl_path = 1\<rparr> 0 9 = Ok [sample_recs ! 2]"
proof -
  let ?l = "\<lparr>fl_fs = sample_fs, fl_path = 1\<rparr>"
  have k: "[2] = filter (is_child (fc_recs (fl_fs ?l)) (fl_path ?l)) [0..<length (fc_recs (fl_fs ?l))]"
    by code_simp
  have "well_formed (fc_recs (fl_fs ?l))" "fl_path ?l < length (fc_recs (fl_fs ?l))"
    using sample_wf by (simp_all add: sample_recs_def)
  from fscpio_readdir_offset [OF this k, of 0] show ?thesis by (simp add: sample_recs_def)
qed

text \<open>The mode conversion. The permission bits of a Unix mode are kept and the set-user,
  set-group and sticky bits are dropped; the kind becomes the one Go bit of that kind, so that
  a record is a directory or a symbolic link for Go exactly when its mode says so.\<close>

lemma uToGo_kind:
  "uToGo m AND ModePerm = ucast m AND ModePerm \<and>
   (uToGo m AND ModeDir \<noteq> 0 \<longleftrightarrow> (ucast m :: u32) AND 0xf000 = 0x4000) \<and>
   (uToGo m AND ModeType = ModeSymlink \<longleftrightarrow> (ucast m :: u32) AND 0xf000 = 0xa000)"
proof -
  let ?u = "ucast m :: u32"
  have pt: "ModePerm AND ModeType = 0" "ModePerm AND ModeDir = 0"
    by (simp_all add: ModePerm_def ModeType_def ModeDir_def)
  have z: "(?u AND ModePerm) AND ModeType = 0" "(?u AND ModePerm) AND ModeDir = 0"
    using pt by (simp_all add: and.assoc)
  have e: "(x OR y) AND z = (x AND z) OR (y AND z)" for x y z :: u32
    by (rule bit.conj_disj_distrib2)
  show ?thesis
    unfolding uToGo_def Let_def e z
    by (auto simp: and.assoc ModePerm_def ModeType_def ModeDir_def ModeSymlink_def ModeDevice_def
        ModeNamedPipe_def ModeCharDevice_def)
qed

text \<open>Attribute changes leave the served directory. Changing the mode of a file by its
  canonical relative name calls the system with that name under the root of the machine,
  while reading its attributes by the same name goes to the mounted directory; which directory
  is mounted, and where, makes no difference.\<close>

lemma cos_changes_under_root:
  assumes "all_proper cs" and "cs \<noteq> []" and "fc_mnts f = m # ms"
  shows "COS_Chmod os_chmod f (join_with [SLASH] cs) mode w = os_chmod (SLASH # join_with [SLASH] cs) mode w \<and>
    COS_Chown os_chown f (join_with [SLASH] cs) uid gid w = os_chown (SLASH # join_with [SLASH] cs) uid gid w \<and>
    fsCPIO_getfs f (join_with [SLASH] cs) = Ok (mp_fs m, join_with [SLASH] cs)"
proof -
  have n: "join_with [SLASH] cs \<noteq> []" using assms(1,2) by (simp add: join_proper_ne)
  have sp: "split_on SLASH (SLASH # SLASH # join_with [SLASH] cs) = [] # [] # cs"
    using split_join_proper [OF assms(1,2)] by simp
  have "path_clean (SLASH # SLASH # join_with [SLASH] cs) = SLASH # join_with [SLASH] cs"
    unfolding path_clean_def sp
    using clean_elems_proper [OF assms(1), of True "[]"] by (simp add: is_abs_def Let_def)
  then have "path_join [''/'', join_with [SLASH] cs] = SLASH # join_with [SLASH] cs"
    by (simp add: path_join_def)
  then show ?thesis
    using is_abs_join_proper [OF assms(1)] assms(3)
    by (simp add: COS_Chmod_def COS_Chown_def fsCPIO_Join_def fsCPIO_Root_def getfs_relative)
qed

theorem cos_changes_under_root_witness:
  "COS_Chmod (\<lambda>n mode w. (Ok (), n # w)) sample_fs ''etc/passwd'' 0 [] = (Ok (), [''/etc/passwd''])"
proof -
  have "all_proper [''etc'', ''passwd'']" "[''etc'', ''passwd''] \<noteq> []" by code_simp+
  from cos_changes_under_root [OF this sample_fs_simps(1), of "\<lambda>n mode w. (Ok (), n # w)"]
  show ?thesis by simp
qed

lemma requests_after_first:
  "2 \<le> k \<Longrightarrow> k + length ds \<le> 2 ^ 31 \<Longrightarrow>
    mount_requests \<lparr>na_count = of_nat (k - 1), na_n = n\<rparr> ds = replicate (length ds) MountStatusErrPerm"
proof (induction ds arbitrary: k)
  case (Cons d ds)
  have k: "of_nat (k - 1) + 1 = (of_nat k :: u32)"
    using Cons.prems(1) of_nat_Suc [of "k - 1", where 'a = u32] by (simp add: add.commute)
  have "sint (of_nat k :: u32) = int k"
    using Cons.prems(2) by (intro sint_small) simp
  then have "1 <s (of_nat k :: u32)" using Cons.prems(1) by (simp add: word_sless_alt)
  with Cons.IH [of "Suc k"] Cons.prems k show ?case
    by (simp add: NullAuthHandler_Mount_def Let_def)
qed simp

text \<open>One mount only. In any run of fewer than \<open>2 ^ 31\<close> mount requests on a new handler
  the first is answered by comparing its path with the nonce and every later one is refused,
  also when the first failed.\<close>

lemma nfs_one_mount_only:
  assumes "length (d # ds) < 2 ^ 31"
  shows "mount_requests (NewNullAuthHandler nonce) (d # ds) =
    (if d = nonce then MountStatusOk else MountStatusErrNoEnt) # replicate (length ds) MountStatusErrPerm"
  using requests_after_first [of 2 ds nonce] assms
  by (auto simp: NewNullAuthHandler_def NullAuthHandler_Mount_def Let_def word_sless_alt)

theorem nfs_one_mount_only_witness:
  "mount_requests (NewNullAuthHandler ''n'') [''x'', ''n'', ''n''] =
     [MountStatusErrNoEnt, MountStatusErrPerm, MountStatusErrPerm]"
proof -
  have "length [''x'', ''n'', ''n''] < 2 ^ 31" by simp
  from nfs_one_mount_only [OF this, of "''n''"] show ?thesis by (simp add: numeral_eq_Suc)
qed

text \<open>\<open>Name\<close> of an archive file never gives its name: the error test is inverted, so a file
  with a record has the empty name and one without panics on the missing record.\<close>

lemma file_Name_inverted:
  "file_Name l = (if fl_path l < length (fc_recs (fl_fs l)) then Ok []
                  else if fl_path l = length (fc_recs (fl_fs l)) then Panic ''index out of range''
                  else Panic ''nil pointer dereference'')"
  by (simp add: file_Name_def file_rec_def)

end
