(* ===== verification/Cpud.thy ===== *)
theory Cpud
  imports GoStrings
begin

text \<open>
  The daemon, \<open>cmds/cpud\<close>: \<open>main\<close> with the flags of its two roles, the listener, the
  registration, the start-up commands of an init, the reaper and \<open>serve\<close>.

  Go's \<open>flag\<close> package is modelled as far as the program relies on it: a set of boolean and of
  other flags, in the forms \<open>-f\<close>, \<open>--f\<close> and \<open>-f=value\<close>, parsed up to the first argument that
  is no flag.
\<close>

section \<open>Flags\<close>

datatype flag_result = FlagsOk "(string \<times> string) list" "string list" | FlagsExit string

definition parse_bool :: "string \<Rightarrow> bool option" where
  "parse_bool s =
     (if s \<in> {''1'', ''t'', ''T'', ''TRUE'', ''true'', ''True''} then Some True
      else if s \<in> {''0'', ''f'', ''F'', ''FALSE'', ''false'', ''False''} then Some False else None)"

text \<open>The name and the value of an argument that is a flag; \<open>None\<close> for one that is not.\<close>

definition flag_body :: "string \<Rightarrow> string option" where
  "flag_body s =
     (if length s < 2 \<or> hd s \<noteq> CHR ''-'' then None
      else if s ! 1 = CHR ''-'' then Some (drop 2 s) else Some (drop 1 s))"

text \<open>
  The loop of \<open>FlagSet.Parse\<close>: the values set, in order, and the arguments left. A boolean
  flag without a value is true; another flag takes the next argument.
\<close>

fun parse_flags :: "(string \<Rightarrow> bool option) \<Rightarrow> (string \<times> string) list \<Rightarrow> string list \<Rightarrow> flag_result" where
  "parse_flags isbool acc [] = FlagsOk acc []"
| "parse_flags isbool acc (s # args) =
     (case flag_body s of
        None \<Rightarrow> FlagsOk acc (s # args)
      | Some b \<Rightarrow>
          if b = [] then FlagsOk acc args
          else if hd b = CHR ''-'' \<or> hd b = CHR ''='' then FlagsExit ''bad flag syntax''
          else (let (name, val) = (case cut CHR ''='' b of None \<Rightarrow> (b, None) | Some (n, v) \<Rightarrow> (n, Some v)) in
            case isbool name of
              None \<Rightarrow>
                FlagsExit (if name \<in> {''help'', ''h''} then ''flag: help requested'' else ''flag provided but not defined'')
            | Some True \<Rightarrow>
                (case val of
                   None \<Rightarrow> parse_flags isbool (acc @ [(name, ''true'')]) args
                 | Some v \<Rightarrow>
                     if parse_bool v = None then FlagsExit ''invalid boolean value''
                     else parse_flags isbool (acc @ [(name, v)]) args)
            | Some False \<Rightarrow>
                (case val of
                   Some v \<Rightarrow> parse_flags isbool (acc @ [(name, v)]) args
                 | None \<Rightarrow>
                     (case args of
                        [] \<Rightarrow> FlagsExit ''flag needs an argument''
                      | v # args' \<Rightarrow> parse_flags isbool (acc @ [(name, v)]) args'))))"

text \<open>The last value set, or the default.\<close>

definition flag_value :: "(string \<times> string) list \<Rightarrow> string \<Rightarrow> string \<Rightarrow> string" where
  "flag_value acc name dflt = (case map_of (rev acc) name of None \<Rightarrow> dflt | Some v \<Rightarrow> v)"

definition flag_true :: "(string \<times> string) list \<Rightarrow> string \<Rightarrow> bool" where
  "flag_true acc name = (parse_bool (flag_value acc name ''false'') = Some True)"

section \<open>main\<close>

text \<open>The flags of the remote role; the server's are the others of \<open>main_linux.go\<close>.\<close>

definition remote_flags :: "string \<Rightarrow> bool option" where
  "remote_flags n =
     (if n \<in> {''d'', ''remote''} then Some True else if n = ''port9p'' then Some False else None)"

definition server_flags :: "string \<Rightarrow> bool option" where
  "server_flags n =
     (if n \<in> {''d'', ''init'', ''remote'', ''klog''} then Some True
      else if n \<in> {''hk'', ''pk'', ''sp'', ''net'', ''port9p'', ''register'', ''registerTO'', ''sleepBeforeServing''}
      then Some False else None)"

text \<open>What the process does: run a session, serve, or end with a message.\<close>

datatype role =
    RunSession (rs_port9p: string) (rs_cmd: string) (rs_args: "string list") (rs_debug: bool)
  | RunServer (sr_flags: "(string \<times> string) list") (sr_init: bool)
  | ExitWith string

definition is_remote :: "string list \<Rightarrow> bool" where
  "is_remote argv = (1 < length argv \<and> (argv ! 1 = ''-remote'' \<or> argv ! 1 = ''-remote=true''))"

text \<open>\<open>main\<close>: \<open>sflags\<close> are the flags of a server, \<open>shell\<close> is \<open>$SHELL\<close>, \<open>pid\<close> the process number.\<close>

definition cpud_main_on :: "(string \<Rightarrow> bool option) \<Rightarrow> string option \<Rightarrow> nat \<Rightarrow> string list \<Rightarrow> role" where
  "cpud_main_on sflags shell pid argv =
     (if is_remote argv then
        (case parse_flags remote_flags [] (drop 1 argv) of
           FlagsExit m \<Rightarrow> ExitWith m
         | FlagsOk acc args0 \<Rightarrow>
             (case (if length args0 = 0 then map_option (\<lambda>s. [s]) shell else Some args0) of
                None \<Rightarrow> ExitWith ''No arguments and $SHELL is not set''
              | Some args \<Rightarrow>
                  RunSession (flag_value acc ''port9p'' []) (hd args) (tl args) (flag_true acc ''d'')))
      else
        (case parse_flags sflags [] (drop 1 argv) of
           FlagsExit m \<Rightarrow> ExitWith m
         | FlagsOk acc args \<Rightarrow>
             if flag_true acc ''d'' \<and> flag_true acc ''klog'' then ExitWith ''klog: not yet''
             else RunServer acc (flag_true acc ''init'' \<or> pid = 1)))"

text \<open>\<open>main\<close> of a cpud built without mDNS.\<close>

abbreviation cpud_main :: "string option \<Rightarrow> nat \<Rightarrow> string list \<Rightarrow> role" where
  "cpud_main \<equiv> cpud_main_on server_flags"

section \<open>Serving\<close>

text \<open>\<open>listen\<close>: a vsock port is parsed with 16 bits.\<close>

definition listen :: "(nat \<Rightarrow> goerror + 'l) \<Rightarrow> (string \<Rightarrow> string \<Rightarrow> goerror + 'l) \<Rightarrow> string \<Rightarrow> string \<Rightarrow> goerror + 'l" where
  "listen vsock_listen net_listen network port =
     (if network = ''vsock'' then
        (case parse_uint port 16 of Inl e \<Rightarrow> Inl e | Inr p \<Rightarrow> vsock_listen p)
      else if network \<in> {''unix'', ''unixgram'', ''unixpacket''} then net_listen network port
      else net_listen network ('':'' @ port))"

definition register :: "(string \<Rightarrow> goerror option) \<Rightarrow> (string \<Rightarrow> goerror option) \<Rightarrow> string \<Rightarrow> goerror option" where
  "register dial write addr =
     (if length addr = 0 then None
      else case dial addr of
        Some e \<Rightarrow> Some e
      | None \<Rightarrow>
          (case write ''ok'' of
             Some e \<Rightarrow> Some (Wrapf ''Writing OK to register address: %w'' [] (Some e))
           | None \<Rightarrow> None))"

text \<open>\<open>initsetup\<close>: the commands started, of those that exist; a failure is only logged.\<close>

definition init_cmds :: "string list list" where
  "init_cmds = [[''/bin/sh''], [''/bbin/dhclient'', ''-v'', ''--retry'', ''1000'']]"

fun start_cmds :: "(string \<Rightarrow> bool) \<Rightarrow> (string list \<Rightarrow> goerror option) \<Rightarrow> string list list \<Rightarrow> string list list" where
  "start_cmds missing start [] = []"
| "start_cmds missing start (v # vs) =
     (if missing (hd v) then start_cmds missing start vs
      else case start v of
        Some e \<Rightarrow> start_cmds missing start vs
      | None \<Rightarrow> v # start_cmds missing start vs)"

definition initsetup :: "(string \<Rightarrow> bool) \<Rightarrow> (string list \<Rightarrow> goerror option) \<Rightarrow> goerror option \<times> string list list" where
  "initsetup missing start = (None, start_cmds missing start init_cmds)"

text \<open>
  One round of the reaper in \<open>init_linux.go\<close> on the answer of \<open>wait4\<close>: the process number, the
  error's text if there is an error, and the count so far. The round may sleep.
\<close>

definition reap_round :: "int \<Rightarrow> string option \<Rightarrow> nat \<Rightarrow> bool \<times> nat" where
  "reap_round p err numReaped =
     (if err = Some ''no child processes'' then (False, numReaped)
      else ((p = -1), numReaped + 1))"

fun reap :: "(int \<times> string option) list \<Rightarrow> nat \<Rightarrow> nat \<times> nat" where
  "reap [] n = (0, n)"
| "reap ((p, err) # ws) n =
     (case reap_round p err n of (slept, n') \<Rightarrow>
        (case reap ws n' of (sleeps, n'') \<Rightarrow> ((if slept then sleeps + 1 else sleeps), n'')))"

text \<open>
  \<open>serve\<close>: what happens, in order, and the error returned. Making the server cannot fail
  (theory Server); registration and modifiers may fail without consequence; \<open>hang\<close> sleeps for
  10000 seconds.
\<close>

datatype serve_event = Listening | Registering | Modifier string | Serving | Hang

definition serve :: "goerror + 'l \<Rightarrow> goerror option \<Rightarrow> (string \<times> goerror option) list
    \<Rightarrow> bool \<Rightarrow> goerror option \<times> serve_event list" where
  "serve ln reg modifiers closed =
     (case ln of
        Inl e \<Rightarrow> (Some e, [])
      | Inr l \<Rightarrow>
          (None, [Listening, Registering] @ map (\<lambda>m. Modifier (fst m)) modifiers @ [Serving]
             @ (if \<not> closed then [Hang] else []) @ [Hang]))"

section \<open>Facts on flags\<close>

lemma parse_flags_stop:
  "args = [] \<or> flag_body (hd args) = None \<Longrightarrow> parse_flags isbool acc args = FlagsOk acc args"
  by (cases args) auto

lemma flag_body_no_dash: "s = [] \<or> hd s \<noteq> CHR ''-'' \<Longrightarrow> flag_body s = None"
  by (cases s) (auto simp: flag_body_def)

lemma cut_port9p: "cut CHR ''='' (''port9p='' @ v) = Some (''port9p'', v)"
  by simp

lemma remote_prefix:
  "parse_flags remote_flags [] (''-remote'' # args) = parse_flags remote_flags [(''remote'', ''true'')] args"
  by (simp add: flag_body_def remote_flags_def)

lemma port9p_flag:
  "parse_flags remote_flags acc ((''-port9p='' @ v) # args) =
    parse_flags remote_flags (acc @ [(''port9p'', v)]) args"
  by (simp add: flag_body_def remote_flags_def)

text \<open>The session that a command line of the server starts.\<close>

lemma cpud_main_session:
  assumes "args \<noteq> []" and "hd args = [] \<or> hd (hd args) \<noteq> CHR ''-''"
  shows "cpud_main shell pid (cpud # ''-remote'' # args) = RunSession [] (hd args) (tl args) False"
    and "cpud_main shell pid (cpud # ''-remote'' # (''-port9p='' @ v) # args) =
      RunSession v (hd args) (tl args) False"
proof -
  have stop: "parse_flags remote_flags acc args = FlagsOk acc args" for acc
    using assms by (intro parse_flags_stop) (simp add: flag_body_no_dash)
  show "cpud_main shell pid (cpud # ''-remote'' # args) = RunSession [] (hd args) (tl args) False"
    using assms(1) by (simp add: cpud_main_on_def is_remote_def remote_prefix stop flag_value_def flag_true_def
        parse_bool_def del: parse_flags.simps)
  show "cpud_main shell pid (cpud # ''-remote'' # (''-port9p='' @ v) # args) =
      RunSession v (hd args) (tl args) False"
    using assms(1) port9p_flag [of _ v args]
    by (simp add: cpud_main_on_def is_remote_def remote_prefix stop flag_value_def flag_true_def
        parse_bool_def del: parse_flags.simps)
qed

section \<open>Properties\<close>

text \<open>The role is decided by the first argument alone. A command line whose first argument
  is \<open>-remote\<close> or \<open>-remote=true\<close> never starts a server, whatever else it has, and any other
  one never runs a session, even if it sets the remote flag.\<close>

lemma cpud_role:
  "(is_remote argv \<longrightarrow> (\<forall>acc ini. cpud_main shell pid argv \<noteq> RunServer acc ini)) \<and>
   (\<not> is_remote argv \<longrightarrow> (\<forall>p c as d. cpud_main shell pid argv \<noteq> RunSession p c as d))"
  by (auto simp: cpud_main_on_def split: flag_result.splits option.splits)

theorem cpud_role_witness:
  "\<forall>p c as d. cpud_main None 7 [''cpud'', ''-d'', ''-remote=true''] \<noteq> RunSession p c as d"
  using cpud_role [of "[''cpud'', ''-d'', ''-remote=true'']" None 7] by (simp add: is_remote_def)

text \<open>Arguments that look like flags are taken from the command. A session whose command
  begins with a dash does not run that word: \<open>-d\<close> turns debugging on and the next word is run,
  any other word of that form ends cpud, and after \<open>--\<close> the next word is run.\<close>

lemma cpud_takes_flags:
  assumes "args \<noteq> []" and "hd args = [] \<or> hd (hd args) \<noteq> CHR ''-''"
  shows "cpud_main shell pid (cpud # ''-remote'' # ''-d'' # args) = RunSession [] (hd args) (tl args) True \<and>
    cpud_main shell pid (cpud # ''-remote'' # ''--'' # args) = RunSession [] (hd args) (tl args) False \<and>
    cpud_main shell pid (cpud # ''-remote'' # ''-l'' # args) = ExitWith ''flag provided but not defined''"
proof -
  have stop: "parse_flags remote_flags acc args = FlagsOk acc args" for acc
    using assms by (intro parse_flags_stop) (simp add: flag_body_no_dash)
  have d: "parse_flags remote_flags acc (''-d'' # args) = parse_flags remote_flags (acc @ [(''d'', ''true'')]) args"
    and dd: "parse_flags remote_flags acc (''--'' # args) = FlagsOk acc args"
    and l: "parse_flags remote_flags acc (''-l'' # args) = FlagsExit ''flag provided but not defined''" for acc
    by (simp_all add: flag_body_def remote_flags_def)
  show ?thesis
    using assms(1)
    by (simp add: cpud_main_on_def is_remote_def remote_prefix d dd l stop flag_value_def flag_true_def
        parse_bool_def del: parse_flags.simps)
qed

theorem cpud_takes_flags_witness:
  "cpud_main None 7 [''cpud'', ''-remote'', ''-d'', ''ls'', ''-l''] = RunSession [] ''ls'' [''-l''] True"
  using cpud_takes_flags [of "[''ls'', ''-l'']" None 7 "''cpud''"] by simp

text \<open>A cpud with nothing to wait for does not rest. As long as \<open>wait4\<close> answers that there
  are no child processes the reaper goes round without sleeping, however long that lasts.\<close>

lemma reaper_busy:
  "reap (replicate n (-1, Some ''no child processes'')) k = (0, k)"
  by (induction n) (simp_all add: reap_round_def)

text \<open>The daemon listens on 16 bit vsock ports only: a port is passed on exactly if it is a
  number below 65536, whatever listening on it answers.\<close>

lemma listen_vsock_16bit:
  assumes "listen vl nl ''vsock'' port = Inr l"
  shows "\<exists>p. p < 65536 \<and> parse_uint port 16 = Inr p \<and> vl p = Inr l"
  using assms parse_uint_bound [of port 16] by (auto simp: listen_def split: sum.splits)

theorem listen_vsock_16bit_witness:
  "\<exists>p. p < 65536 \<and> parse_uint (show_nat 17010) 16 = Inr p"
proof -
  have "parse_uint (show_nat 17010) 16 = Inr 17010" by (rule parse_uint_show) simp
  then have "listen (\<lambda>p. Inr p) (\<lambda>n p. Inl EOF_err) ''vsock'' (show_nat 17010) = Inr (17010 :: nat)"
    by (simp add: listen_def)
  from listen_vsock_16bit [OF this] show ?thesis by blast
qed

end
