(* ===== verification/CpuCmd.thy ===== *)
theory CpuCmd
  imports ClientCmd FsCpio Cpud
begin

text \<open>
  The cpu command, \<open>cmds/cpu/cpu.go\<close>: the flags and the settings \<open>main\<close> derives from them, the key
  file and the port, and \<open>newCPU\<close>, which makes the client of theory ClientCmd, dials, starts the NFS
  server of theory FsCpio where it is asked for, and waits for the command while it passes on signals.

  Environments are lists of \<open>name=value\<close>, as \<open>os.Environ\<close> gives them. What the packages outside the
  repository and the system answer are the fields of \<open>new_ext\<close>.
\<close>

section \<open>Environments\<close>

text \<open>The value of a variable, in the first entry that sets it.\<close>

fun env_value :: "string list \<Rightarrow> string \<Rightarrow> string option" where
  "env_value [] k = None"
| "env_value (e # es) k =
     (case cut CHR ''='' e of
        None \<Rightarrow> env_value es k
      | Some (n, v) \<Rightarrow> if n = k then Some v else env_value es k)"

text \<open>\<open>os.Setenv\<close>: in the place of the variable, or at the end.\<close>

fun env_set :: "string list \<Rightarrow> string \<Rightarrow> string \<Rightarrow> string list" where
  "env_set [] k v = [k @ ''='' @ v]"
| "env_set (e # es) k v =
     (case cut CHR ''='' e of
        None \<Rightarrow> e # env_set es k v
      | Some (n, w) \<Rightarrow> if n = k then (k @ ''='' @ v) # es else e # env_set es k v)"

text \<open>What a process started with an environment sees: of two entries for a variable the later one.\<close>

definition exec_env :: "string list \<Rightarrow> string \<Rightarrow> string option" where
  "exec_env env = env_value (rev env)"

section \<open>Flags\<close>

record cpu_flags =
  cf_cpuns :: string
  cf_debug :: bool
  cf_dbg9p :: bool
  cf_dump :: bool
  cf_fstab :: string
  cf_hostKeyFile :: string
  cf_keyFile :: string
  cf_useKey :: bool
  cf_namespace :: string
  cf_network :: string
  cf_port :: string
  cf_root :: string
  cf_timeout9P :: string
  cf_ninep :: bool
  cf_srvnfs :: bool
  cf_cpioRoot :: string
  cf_ssh :: bool
  cf_sshd :: bool

definition cpu_flag_kind :: "string \<Rightarrow> bool option" where
  "cpu_flag_kind n =
     (if n \<in> {''d'', ''dbg9p'', ''dump'', ''useKey'', ''9p'', ''nfs'', ''ssh'', ''sshd''} then Some True
      else if n \<in> {''cpuns'', ''fstab'', ''hk'', ''key'', ''namespace'', ''net'', ''sp'', ''root'', ''timeout9p'', ''cpio''}
      then Some False else None)"

definition flag_bool :: "(string \<times> string) list \<Rightarrow> string \<Rightarrow> string \<Rightarrow> bool" where
  "flag_bool acc name dflt = (parse_bool (flag_value acc name dflt) = Some True)"

definition read_flags :: "(string \<times> string) list \<Rightarrow> cpu_flags" where
  "read_flags acc =
     \<lparr>cf_cpuns = flag_value acc ''cpuns'' ''cpuns'', cf_debug = flag_bool acc ''d'' ''false'',
      cf_dbg9p = flag_bool acc ''dbg9p'' ''false'', cf_dump = flag_bool acc ''dump'' ''false'',
      cf_fstab = flag_value acc ''fstab'' [], cf_hostKeyFile = flag_value acc ''hk'' [],
      cf_keyFile = flag_value acc ''key'' [], cf_useKey = flag_bool acc ''useKey'' ''true'',
      cf_namespace = flag_value acc ''namespace'' ''/lib:/lib64:/usr:/bin:/etc:/home'',
      cf_network = flag_value acc ''net'' [], cf_port = flag_value acc ''sp'' [],
      cf_root = flag_value acc ''root'' ''/'', cf_timeout9P = flag_value acc ''timeout9p'' ''100ms'',
      cf_ninep = flag_bool acc ''9p'' ''true'', cf_srvnfs = flag_bool acc ''nfs'' ''false'',
      cf_cpioRoot = flag_value acc ''cpio'' [], cf_ssh = flag_bool acc ''ssh'' ''false'',
      cf_sshd = flag_bool acc ''sshd'' ''false''\<rparr>"

text \<open>\<open>flags\<close> after parsing: \<open>Inl\<close> where the process ends with status 1; \<open>dump_file\<close> is the temporary file.\<close>

definition flags :: "goerror option \<Rightarrow> cpu_flags \<Rightarrow> goerror + cpu_flags" where
  "flags dump_file f =
     (if cf_dump f \<and> cf_debug f then Inl (Errorf ''You can only set either dump OR debug'' [])
      else case (if cf_dump f then dump_file else None) of
        Some e \<Rightarrow> Inl e
      | None \<Rightarrow>
          (let f1 = (if cf_dump f then f\<lparr>cf_dbg9p := True\<rparr> else f)
           in Inr (if cf_ssh f1 then f1\<lparr>cf_srvnfs := False, cf_ninep := False, cf_sshd := True, cf_namespace := []\<rparr> else f1)))"

definition getKeyFile :: "bool \<Rightarrow> (string \<Rightarrow> string \<Rightarrow> string) \<Rightarrow> (string \<Rightarrow> string) \<Rightarrow> string \<Rightarrow> string \<Rightarrow> string" where
  "getKeyFile useKey cfg getenv host kf0 =
     (if \<not> useKey then []
      else (let kf = (if length kf0 = 0 then
                        (let k = cfg host ''IdentityFile'' in
                         if length k = 0 then path_join [getenv ''HOME'', ''.ssh/cpu_rsa''] else k)
                      else kf0)
            in if has_prefix kf ''~'' then path_join [getenv ''HOME'', drop 1 kf] else kf))"

definition getPort :: "(string \<Rightarrow> string \<Rightarrow> string) \<Rightarrow> string \<Rightarrow> string \<Rightarrow> string" where
  "getPort cfg host port =
     (let p = (if length port = 0 then (let cp = cfg host ''Port'' in if length cp \<noteq> 0 then cp else port) else port)
      in if length p = 0 then ''17010'' else p)"

text \<open>The settings of \<open>main\<close> for a host.\<close>

definition main_settings :: "(string \<Rightarrow> string \<Rightarrow> string) \<Rightarrow> (string \<Rightarrow> string) \<Rightarrow> string \<Rightarrow> cpu_flags \<Rightarrow> cpu_flags" where
  "main_settings cfg getenv host f =
     (let f1 = f\<lparr>cf_keyFile := getKeyFile (cf_useKey f) cfg getenv host (cf_keyFile f), cf_port := getPort cfg host (cf_port f)\<rparr>;
          f2 = (if cf_port f1 = ''22'' \<and> cf_ninep f1 then f1\<lparr>cf_ninep := False\<rparr> else f1);
          f3 = (if cf_port f2 = ''22'' \<and> \<not> cf_srvnfs f2 \<and> 0 < length (cf_namespace f2) then f2\<lparr>cf_srvnfs := True\<rparr> else f2);
          f4 = (if cf_port f3 = ''22'' then f3\<lparr>cf_sshd := True\<rparr> else f3)
      in if cf_srvnfs f4 then f4\<lparr>cf_ninep := False\<rparr> else f4)"

section \<open>newCPU\<close>

record ('a, 'd) new_ext =
  ne_environ :: "string list"
  ne_term :: "goerror + (int \<times> int)"
  ne_cfg :: "string \<Rightarrow> string \<Rightarrow> string"
  ne_read_file :: "string \<Rightarrow> goerror + string"
  ne_duration :: "string \<Rightarrow> goerror + int"
  ne_dial :: dial_ext
  ne_listen :: "string \<Rightarrow> string \<Rightarrow> goerror + string"
  ne_osfs :: "string \<Rightarrow> 'd"
  ne_archive :: "string \<Rightarrow> 'd MountPoint list \<Rightarrow> 'd fsCPIO res"
  ne_uuid :: "goerror + string"
  ne_start :: "'a start_ext"
  ne_close :: "goerror option"

definition ext_getenv :: "('a, 'd) new_ext \<Rightarrow> string \<Rightarrow> string" where
  "ext_getenv x k = (case env_value (ne_environ x) k of None \<Rightarrow> [] | Some v \<Rightarrow> v)"

text \<open>The arguments: with NFS over an ssh server, cpuns with the environment.\<close>

definition remote_args :: "('a, 'd) new_ext \<Rightarrow> cpu_flags \<Rightarrow> string list \<Rightarrow> string list" where
  "remote_args x f args =
     (if cf_sshd f \<and> cf_srvnfs f then
        (let env = ne_environ x @ [''CPU_PWD='' @ ext_getenv x ''PWD'']
         in [cf_cpuns f, ''-env='' @ join_with [NL] env] @ args)
      else args)"

definition new_command :: "('a, 'd) new_ext \<Rightarrow> cpu_flags \<Rightarrow> string \<Rightarrow> string list \<Rightarrow> 'a Cmd" where
  "new_command x f host args =
     (Command (ne_cfg x) (ext_getenv x) (env_value (ne_environ x) ''SHELL'') (ne_term x) host (remote_args x f args))
       \<lparr>c_Env := Some (ne_environ x)\<rparr>"

definition cpu_options :: "('a, 'd) new_ext \<Rightarrow> cpu_flags \<Rightarrow> 'a cset list" where
  "cpu_options x f =
     [WithDisablePrivateKey (\<not> cf_useKey f), WithPrivateKeyFile (cf_keyFile f), WithHostKeyFile (cf_hostKeyFile f),
      WithPort (ne_cfg x) (cf_port f), WithRoot (cf_root f), WithNameSpace (cf_namespace f), With9P (cf_ninep f),
      WithFSTab (ne_read_file x) (cf_fstab f), WithNetwork (cf_network f), WithTimeout (ne_duration x) (cf_timeout9P f)]"

text \<open>The fstab of the first variable that has one.\<close>

fun env_fstab :: "string list \<Rightarrow> string" where
  "env_fstab [] = []"
| "env_fstab (r # rs) =
     (if \<not> has_prefix r ''CPU_FSTAB='' \<and> \<not> has_prefix r ''LC_GLENDA_CPU_FSTAB='' then env_fstab rs
      else (let s = splitn2 CHR ''='' r in if length s = 2 then s ! 1 else []))"

definition nfs_env :: "string \<Rightarrow> string list \<Rightarrow> string list" where
  "nfs_env nfsmount env =
     (let jfstab = JoinFSTab [nfsmount, env_fstab env]
      in env @ [''CPU_FSTAB='' @ jfstab, ''LC_GLENDA_CPU_FSTAB='' @ jfstab])"

text \<open>The part of \<open>newCPU\<close> for NFS.\<close>

definition add_nfs :: "('a, 'd) new_ext \<Rightarrow> cpu_flags \<Rightarrow> 'a Cmd \<Rightarrow> 'a Cmd res" where
  "add_nfs x f c =
     (if cf_srvnfs f then
        bind_res (SrvNFS (ne_listen x) (ne_osfs x) (ne_archive x (cf_cpioRoot f)) (ne_uuid x) ''/'') (\<lambda>(mem, h, nfsmount).
          Ok (c\<lparr>c_Env := Some (nfs_env nfsmount (case c_Env c of None \<Rightarrow> [] | Some e \<Rightarrow> e))\<rparr>))
      else Ok c)"

text \<open>
  What happens while \<open>newCPU\<close> waits, in some order: the goroutine runs \<open>Start\<close>, its \<open>Wait\<close> returns, a
  signal arrives. A signal is passed to the session, which is nil before \<open>Start\<close> has made it; whether
  it could be sent is only logged. \<open>None\<close> is a command that has not ended yet.
\<close>

datatype cpu_event = StartRuns | WaitReturns "goerror option" | Interrupt string

fun cpu_loop :: "'a start_ext \<Rightarrow> cpu_event list \<Rightarrow> 'a Cmd \<Rightarrow> string list
    \<Rightarrow> (goerror option \<times> 'a Cmd \<times> string list) option res" where
  "cpu_loop x [] c sent = Ok None"
| "cpu_loop x (StartRuns # evs) c sent =
     (case Start x c of (st, c') \<Rightarrow>
        (case st_err st of
           Some e \<Rightarrow> Ok (Some (Some (Errorf ''Start: %v'' []), c', sent))
         | None \<Rightarrow> cpu_loop x evs c' sent))"
| "cpu_loop x (WaitReturns e # evs) c sent =
     (if c_session c then Ok (Some (e, c, sent)) else Panic ''nil pointer dereference'')"
| "cpu_loop x (Interrupt s # evs) c sent =
     (if c_session c then cpu_loop x evs c (sent @ [s]) else Panic ''nil pointer dereference'')"

datatype new_result = Died int | Waiting | Returned "goerror option"

text \<open>The deferred \<open>Close\<close>: its error is returned if there is no other.\<close>

definition close_cpu :: "('a, 'd) new_ext \<Rightarrow> 'a Cmd \<Rightarrow> goerror option \<Rightarrow> new_result" where
  "close_cpu x c err =
     (case Cmd_Close (ne_close x) c of
        None \<Rightarrow> Returned err
      | Some e \<Rightarrow> Returned (if err = None then Some (Errorf ''Close: %v'' []) else err))"

definition newCPU :: "('a, 'd) new_ext \<Rightarrow> cpu_flags \<Rightarrow> cpu_event list \<Rightarrow> string \<Rightarrow> string list \<Rightarrow> new_result \<times> 'a Cmd" where
  "newCPU x f evs host args =
     (case SetOptions (new_command x f host args) (cpu_options x f) of
        (Some e, c1) \<Rightarrow> (Died 1, c1)
      | (None, c1) \<Rightarrow>
          (case Dial (ne_dial x) c1 of
             (Panic s, c2) \<Rightarrow> (Died 1, c2)
           | (Fail e, c2) \<Rightarrow> (close_cpu x c2 (Some (Errorf ''Dial: %v'' [])), c2)
           | (Ok _, c2) \<Rightarrow>
               (case add_nfs x f c2 of
                  Panic s \<Rightarrow> (Died 2, c2)
                | Fail e \<Rightarrow> (close_cpu x c2 (Some e), c2)
                | Ok c3 \<Rightarrow>
                    (case cpu_loop (ne_start x) evs c3 [] of
                       Ok (Some (err, c4, sent)) \<Rightarrow> (close_cpu x c4 err, c4)
                     | Ok None \<Rightarrow> (Waiting, c3)
                     | _ \<Rightarrow> (Died 2, c3)))))"

section \<open>main\<close>

text \<open>\<open>main\<close>: how the process ends, \<open>None\<close> while it waits. \<open>as_exit\<close> is \<open>errors.As\<close> for the error of
  the ssh library that holds an exit status.\<close>

definition cpu_main :: "('a, 'd) new_ext \<Rightarrow> (goerror \<Rightarrow> int option) \<Rightarrow> goerror option \<Rightarrow> cpu_event list \<Rightarrow> string list \<Rightarrow> int option" where
  "cpu_main x as_exit dump_file evs argv =
     (case parse_flags cpu_flag_kind [] (drop 1 argv) of
        FlagsExit m \<Rightarrow> Some (if m = ''flag: help requested'' then 0 else 2)
      | FlagsOk acc args \<Rightarrow>
          (case flags dump_file (read_flags acc) of
             Inl e \<Rightarrow> Some 1
           | Inr f \<Rightarrow>
               if length args = 0 then Some 1
               else (let host = args ! 0;
                         a = drop 1 args;
                         shellEnv = ext_getenv x ''SHELL'';
                         a' = (if length a = 0 then [if 0 < length shellEnv then shellEnv else ''/bin/sh''] else a);
                         x' = x\<lparr>ne_environ := env_set (ne_environ x) ''TMPDIR'' ''/tmp''\<rparr>
                     in case fst (newCPU x' (main_settings (ne_cfg x) (ext_getenv x) host f) evs host a') of
                          Died n \<Rightarrow> Some n
                        | Waiting \<Rightarrow> None
                        | Returned None \<Rightarrow> Some 0
                        | Returned (Some e) \<Rightarrow> Some (case as_exit e of Some n \<Rightarrow> n | None \<Rightarrow> 1))))"

section \<open>Facts on environments\<close>

lemma env_value_append: "env_value (a @ b) k = (case env_value a k of None \<Rightarrow> env_value b k | Some v \<Rightarrow> Some v)"
  by (induction a) (auto split: option.splits)

lemma env_value_entry: "CHR ''='' \<notin> set k \<Longrightarrow> env_value [k @ ''='' @ v] k' = (if k' = k then Some v else None)"
  by (simp add: cut_append)

lemma exec_env_append:
  "exec_env (a @ b) k = (case exec_env b k of None \<Rightarrow> exec_env a k | Some v \<Rightarrow> Some v)"
  by (simp add: exec_env_def env_value_append split: option.split)

lemma exec_env_entry: "CHR ''='' \<notin> set k \<Longrightarrow> exec_env [k @ ''='' @ v] k' = (if k' = k then Some v else None)"
  by (simp add: exec_env_def cut_append)

text \<open>The entries of an fstab.\<close>

definition fstab_entry :: "string \<Rightarrow> bool" where
  "fstab_entry r = (has_prefix r ''CPU_FSTAB='' \<or> has_prefix r ''LC_GLENDA_CPU_FSTAB='')"

lemma env_fstab_skip: "list_all (\<lambda>r. \<not> fstab_entry r) a \<Longrightarrow> env_fstab (a @ b) = env_fstab b"
  by (induction a) (auto simp: fstab_entry_def)

lemma env_fstab_found: "\<not> list_all (\<lambda>r. \<not> fstab_entry r) a \<Longrightarrow> env_fstab (a @ b) = env_fstab a"
  by (induction a) (auto simp: fstab_entry_def Let_def)

lemma cut_fstab: "cut CHR ''='' (''CPU_FSTAB='' @ t) = Some (''CPU_FSTAB'', t)"
  "cut CHR ''='' (''LC_GLENDA_CPU_FSTAB='' @ t) = Some (''LC_GLENDA_CPU_FSTAB'', t)"
  using cut_append [of "CHR ''=''" "''CPU_FSTAB''" t] cut_append [of "CHR ''=''" "''LC_GLENDA_CPU_FSTAB''" t] by simp_all

lemma env_fstab_dial:
  "env_fstab (a @ [''CPU_FSTAB='' @ t, ''LC_GLENDA_CPU_FSTAB='' @ t]) =
     (if list_all (\<lambda>r. \<not> fstab_entry r) a then t else env_fstab a)"
proof -
  have "env_fstab [''CPU_FSTAB='' @ t, ''LC_GLENDA_CPU_FSTAB='' @ t] = t"
    by (simp add: has_prefix_def splitn2_def)
  then show ?thesis by (auto simp: env_fstab_skip env_fstab_found)
qed

lemma exec_nfs_env:
  assumes "k \<in> {''CPU_FSTAB'', ''LC_GLENDA_CPU_FSTAB''}"
  shows "exec_env (nfs_env m env) k = Some (JoinFSTab [m, env_fstab env])"
  using assms by (auto simp: nfs_env_def Let_def exec_env_def)

section \<open>Properties of the command\<close>

lemma getPort_nonempty: "getPort cfg host p \<noteq> []"
  by (simp add: getPort_def Let_def)

lemma main_settings_sel:
  assumes "main_settings cfg getenv host f = g"
  shows "cf_port g = getPort cfg host (cf_port f)" and "cf_namespace g = cf_namespace f"
    and "cf_srvnfs g \<longleftrightarrow> cf_srvnfs f \<or> (cf_port g = ''22'' \<and> cf_namespace f \<noteq> [])"
    and "cf_ninep g \<longleftrightarrow> cf_ninep f \<and> cf_port g \<noteq> ''22'' \<and> \<not> cf_srvnfs g"
    and "cf_sshd g \<longleftrightarrow> cf_sshd f \<or> cf_port g = ''22''"
    and "cf_keyFile g = getKeyFile (cf_useKey f) cfg getenv host (cf_keyFile f)"
proof -
  define p where "p = getPort cfg host (cf_port f)"
  define kf where "kf = getKeyFile (cf_useKey f) cfg getenv host (cf_keyFile f)"
  let ?f1 = "f\<lparr>cf_keyFile := kf, cf_port := p\<rparr>"
  let ?f2 = "if p = ''22'' then ?f1\<lparr>cf_ninep := False, cf_srvnfs := cf_srvnfs f \<or> cf_namespace f \<noteq> [], cf_sshd := True\<rparr> else ?f1"
  have g: "g = (if cf_srvnfs ?f2 then ?f2\<lparr>cf_ninep := False\<rparr> else ?f2)"
    unfolding assms [symmetric] main_settings_def p_def [symmetric] kf_def [symmetric] Let_def
    by (cases f) simp
  note sel = g p_def kf_def
  show "cf_port g = getPort cfg host (cf_port f)" and "cf_namespace g = cf_namespace f"
    and "cf_srvnfs g \<longleftrightarrow> cf_srvnfs f \<or> (cf_port g = ''22'' \<and> cf_namespace f \<noteq> [])"
    and "cf_ninep g \<longleftrightarrow> cf_ninep f \<and> cf_port g \<noteq> ''22'' \<and> \<not> cf_srvnfs g"
    and "cf_sshd g \<longleftrightarrow> cf_sshd f \<or> cf_port g = ''22''"
    and "cf_keyFile g = getKeyFile (cf_useKey f) cfg getenv host (cf_keyFile f)"
    unfolding g by (simp_all add: p_def kf_def)
qed

lemma flags_sel:
  "flags dump_file f0 = Inr f \<Longrightarrow> cf_ssh f0 \<Longrightarrow> \<not> cf_ninep f \<and> \<not> cf_srvnfs f \<and> cf_sshd f \<and> cf_namespace f = []"
  by (auto simp: flags_def Let_def split: if_splits option.splits)

text \<open>The modes exclude each other. After the flags and the settings for the host there is a port, 9P and NFS are never both
  on, on port 22 there is no 9P, the server counts as sshd and a name space is served by NFS; with
  \<open>-ssh\<close> there is neither, whatever the port and the other flags, and the
  command is sent as it was given.\<close>

lemma cpu_modes:
  assumes "flags dump_file f0 = Inr f" and "main_settings cfg getenv host f = g"
  shows "cf_port g \<noteq> [] \<and> \<not> (cf_ninep g \<and> cf_srvnfs g) \<and>
    (cf_port g = ''22'' \<longrightarrow> \<not> cf_ninep g \<and> cf_sshd g \<and> (cf_namespace g = [] \<or> cf_srvnfs g)) \<and>
    (cf_ssh f0 \<longrightarrow> \<not> cf_ninep g \<and> \<not> cf_srvnfs g \<and> cf_sshd g \<and> cf_namespace g = [] \<and> remote_args x g args = args)"
  using flags_sel [OF assms(1)] main_settings_sel [OF assms(2)] getPort_nonempty [of cfg host "cf_port f"]
  by (auto simp: remote_args_def)

theorem cpu_modes_witness:
  "cf_srvnfs (main_settings (\<lambda>h k. if k = ''Port'' then ''22'' else []) (\<lambda>k. ''/home/u'') ''host'' (read_flags []))"
proof -
  let ?cfg = "\<lambda>h k. if k = ''Port'' then ''22'' else []"
  let ?g = "main_settings ?cfg (\<lambda>k. ''/home/u'') ''host'' (read_flags [])"
  have "flags None (read_flags []) = Inr (read_flags [])"
    by (simp add: flags_def read_flags_def flag_bool_def flag_value_def parse_bool_def)
  from cpu_modes [OF this, of ?cfg "\<lambda>k. ''/home/u''" "''host''" ?g]
  have "cf_port ?g = ''22'' \<longrightarrow> cf_namespace ?g = [] \<or> cf_srvnfs ?g" by blast
  moreover have "cf_port ?g = ''22''" "cf_namespace ?g = ''/lib:/lib64:/usr:/bin:/etc:/home''"
    using main_settings_sel(1,2) [of ?cfg "\<lambda>k. ''/home/u''" "''host''" "read_flags []" ?g]
    by (simp_all add: getPort_def read_flags_def flag_value_def)
  ultimately show ?thesis by simp
qed

lemma new_command_sel:
  "c_Env (new_command x f host args) = Some (ne_environ x)" "c_port9p (new_command x f host args) = 0"
  "c_cmd (new_command x f host args) = []" "\<not> c_session (new_command x f host args)"
  "c_closers (new_command x f host args) = []" "c_FSTab (new_command x f host args) = []"
  "remote_args x f args \<noteq> [] \<Longrightarrow> c_Args (new_command x f host args) = remote_args x f args"
  by (simp_all add: new_command_def Command_def Let_def)

lemma SetOptions_None:
  "SetOptions c (g # gs) = (None, c') \<Longrightarrow> \<exists>c1. g c = (None, c1) \<and> SetOptions c1 gs = (None, c')"
  by (auto split: prod.splits option.splits)

text \<open>What the options set, from any client.\<close>

lemma cpu_options_set:
  assumes "SetOptions (c :: 'c Cmd) (cpu_options x f) = (None, c')"
  shows "c_Env c' = c_Env c \<and> c_Root c' = cf_root f \<and> c_Ninep c' = cf_ninep f \<and> c_NameSpace c' = cf_namespace f
    \<and> c_port9p c' = c_port9p c \<and> c_cmd c' = c_cmd c \<and> c_session c' = c_session c \<and> c_closers c' = c_closers c
    \<and> c_Args c' = c_Args c"
proof -
  have W: "\<exists>p. WithPort (ne_cfg x) (cf_port f) d = (None, d\<lparr>c_Port := p\<rparr>)" for d :: "'c Cmd"
    by (auto simp: WithPort_def GetPort_def Let_def intro: exI [of _ "c_Port d"])
  have F: "WithFSTab (ne_read_file x) (cf_fstab f) d = (None, e) \<Longrightarrow> \<exists>t. e = d\<lparr>c_FSTab := t\<rparr>" for d e :: "'c Cmd"
    by (auto simp: WithFSTab_def split: if_splits sum.splits intro: exI [of _ "c_FSTab d"])
  have N: "\<exists>n. WithNetwork (cf_network f) d = (None, d\<lparr>c_network := n\<rparr>)" for d :: "'c Cmd"
    by (auto simp: WithNetwork_def intro: exI [of _ "c_network d"])
  have T: "WithTimeout (ne_duration x) (cf_timeout9P f) d = (None, e) \<Longrightarrow> \<exists>t. e = d\<lparr>c_Timeout := t\<rparr>" for d e :: "'c Cmd"
    by (auto simp: WithTimeout_def split: sum.splits)
  let ?d1 = "c\<lparr>c_DisablePrivateKey := \<not> cf_useKey f, c_PrivateKeyFile := cf_keyFile f, c_HostKeyFile := cf_hostKeyFile f\<rparr>"
  obtain p where p: "WithPort (ne_cfg x) (cf_port f) ?d1 = (None, ?d1\<lparr>c_Port := p\<rparr>)" using W by blast
  let ?d2 = "?d1\<lparr>c_Port := p, c_Root := cf_root f, c_NameSpace := cf_namespace f, c_Ninep := cf_ninep f\<rparr>"
  have "SetOptions ?d2 [WithFSTab (ne_read_file x) (cf_fstab f), WithNetwork (cf_network f),
      WithTimeout (ne_duration x) (cf_timeout9P f)] = (None, c')"
    using assms p unfolding cpu_options_def
    by (simp only: SetOptions.simps WithDisablePrivateKey_def WithPrivateKeyFile_def WithHostKeyFile_def WithRoot_def
        WithNameSpace_def With9P_def prod.case option.case)
  from SetOptions_None [OF this] obtain e where e: "WithFSTab (ne_read_file x) (cf_fstab f) ?d2 = (None, e)"
    and r: "SetOptions e [WithNetwork (cf_network f), WithTimeout (ne_duration x) (cf_timeout9P f)] = (None, c')" by blast
  obtain t where t: "e = ?d2\<lparr>c_FSTab := t\<rparr>" using F [OF e] by blast
  obtain n where n: "WithNetwork (cf_network f) e = (None, e\<lparr>c_network := n\<rparr>)" using N by blast
  then have "SetOptions (e\<lparr>c_network := n\<rparr>) [WithTimeout (ne_duration x) (cf_timeout9P f)] = (None, c')" using r by simp
  from SetOptions_None [OF this] obtain g where "WithTimeout (ne_duration x) (cf_timeout9P f) (e\<lparr>c_network := n\<rparr>) = (None, g)"
    and g: "SetOptions g [] = (None, c')" by blast
  then obtain u where "c' = e\<lparr>c_network := n, c_Timeout := u\<rparr>" using T by force
  with t show ?thesis by simp
qed

lemma cpu_options_frame:
  assumes "SetOptions (new_command x f host args) (cpu_options x f) = (None, c)"
  shows "c_Env c = Some (ne_environ x) \<and> c_Root c = cf_root f \<and> c_Ninep c = cf_ninep f \<and> c_NameSpace c = cf_namespace f
    \<and> c_port9p c = 0 \<and> c_cmd c = [] \<and> c_session c = False \<and> c_closers c = []
    \<and> (remote_args x f args \<noteq> [] \<longrightarrow> c_Args c = remote_args x f args)"
  using cpu_options_set [OF assms] by (simp add: new_command_sel)

text \<open>C25: With NFS, what the session on the server is given as fstab, under both names, has the mount of the client's NFS server
  first, then the fstab that \<open>Dial\<close> made of the name space and the fstab file; but if the environment of cpu
  names an fstab itself, that one is joined and what \<open>Dial\<close> made is lost.\<close>

theorem cpu_nfs_fstab:
  assumes "SetOptions (new_command x f host args) (cpu_options x f) = (None, c1)"
    and "Dial (ne_dial x) c1 = (Ok (), c2)" and "add_nfs x f c2 = Ok c3"
    and "cf_srvnfs f" and "\<not> cf_ninep f" and "cf_root f \<noteq> []" and "k \<in> {''CPU_FSTAB'', ''LC_GLENDA_CPU_FSTAB''}"
  shows "\<exists>env mem h m. c_Env c3 = Some env \<and>
    SrvNFS (ne_listen x) (ne_osfs x) (ne_archive x (cf_cpioRoot f)) (ne_uuid x) ''/'' = Ok (mem, h, m) \<and>
    exec_env env k = Some (JoinFSTab [m,
      if list_all (\<lambda>r. \<not> fstab_entry r) (ne_environ x) then c_FSTab c2 else env_fstab (ne_environ x)])"
proof -
  obtain mem h m where n: "SrvNFS (ne_listen x) (ne_osfs x) (ne_archive x (cf_cpioRoot f)) (ne_uuid x) ''/'' = Ok (mem, h, m)"
    and c3: "c3 = c2\<lparr>c_Env := Some (nfs_env m (case c_Env c2 of None \<Rightarrow> [] | Some e \<Rightarrow> e))\<rparr>"
    using assms(3,4) by (auto simp: add_nfs_def bind_res_Ok_iff)
  have "c_Env c2 = Some (ne_environ x @ [''CPU_FSTAB='' @ c_FSTab c2, ''LC_GLENDA_CPU_FSTAB='' @ c_FSTab c2])"
    using dial_environment [OF assms(2)] cpu_options_frame [OF assms(1)] assms(5,6) by (auto simp: env_append_def)
  with c3 n exec_nfs_env [OF assms(7)] show ?thesis by (simp add: env_fstab_dial del: append.simps)
qed

definition sample_new :: "(nat, nat) new_ext" where
  "sample_new = \<lparr>ne_environ = [''HOME=/home/u''], ne_term = Inl EOF_err, ne_cfg = (\<lambda>h k. []), ne_read_file = (\<lambda>n. Inr []),
     ne_duration = (\<lambda>s. Inr 100), ne_dial = sample_dial, ne_listen = (\<lambda>n a. Inr ''127.0.0.1:4567''), ne_osfs = (\<lambda>d. 0),
     ne_archive = (\<lambda>n ms. Ok \<lparr>fc_m = (\<lambda>n. None), fc_recs = [], fc_mnts = ms\<rparr>), ne_uuid = Inr ''u'', ne_start = sample_start, ne_close = None\<rparr>"

definition sample_cpu_flags :: cpu_flags where
  "sample_cpu_flags = (read_flags [])\<lparr>cf_useKey := False, cf_srvnfs := True, cf_ninep := False, cf_sshd := True,
     cf_port := ''22'', cf_namespace := []\<rparr>"

lemma sample_options:
  obtains c where "SetOptions (new_command sample_new sample_cpu_flags ''h'' [''ls'']) (cpu_options sample_new sample_cpu_flags) = (None, c)"
    and "c_DisablePrivateKey c" and "c_network c = ''tcp''" and "c_NameSpace c = []" and "c_Root c = ''/''" and "\<not> c_Ninep c"
    and "\<not> c_hasTTY c"
proof -
  have n: "c_network (new_command sample_new sample_cpu_flags ''h'' [''ls'']) = ''tcp''"
    "\<not> c_hasTTY (new_command sample_new sample_cpu_flags ''h'' [''ls''])"
    by (simp_all add: new_command_def Command_def Let_def sample_new_def)
  have f: "\<not> cf_useKey sample_cpu_flags" "cf_port sample_cpu_flags = ''22''" "cf_fstab sample_cpu_flags = []"
    "cf_network sample_cpu_flags = []" "cf_root sample_cpu_flags = ''/''" "\<not> cf_ninep sample_cpu_flags"
    "cf_namespace sample_cpu_flags = []"
    by (simp_all add: sample_cpu_flags_def read_flags_def flag_value_def)
  have d: "ne_duration sample_new = (\<lambda>s. Inr 100)" by (simp add: sample_new_def)
  show thesis
    by (rule that, simp add: cpu_options_def WithDisablePrivateKey_def WithPrivateKeyFile_def WithHostKeyFile_def
      WithPort_def WithRoot_def WithNameSpace_def With9P_def WithFSTab_def WithNetwork_def WithTimeout_def f d)
      (simp_all add: n f)
qed

lemma sample_dial_ok:
  assumes "c_DisablePrivateKey c" and "c_network c = ''tcp''" and "c_NameSpace c = []" and "c_Root c = ''/''" and "\<not> c_Ninep c"
  shows "\<exists>c'. Dial sample_dial c = (Ok (), c')"
  using assms
  by (simp add: Dial_def ParseBinds_def UserKeyConfig_def dial_network_def sample_dial_def Let_def)

lemma sample_nfs_ok: "\<exists>c'. add_nfs sample_new sample_cpu_flags c = Ok c'"
proof -
  have "digit_char 4 = CHR ''4''" "digit_char 5 = CHR ''5''" "digit_char 6 = CHR ''6''" "digit_char 7 = CHR ''7''"
    by code_simp+
  then have "show_nat 4567 = ''4567''" by (simp add: show_nat.simps)
  then have p: "parse_uint ''4567'' 16 = Inr 4567" using parse_uint_show [of 4567 16] by simp
  have s: "split_on CHR '':'' ''127.0.0.1:4567'' = [''127.0.0.1'', ''4567'']" by code_simp
  have r: "path_rel ''/'' ''/'' = Inr ''.''" by code_simp
  show ?thesis
    by (simp add: add_nfs_def SrvNFS_def sample_new_def r s p sample_cpu_flags_def Let_def del: split_on.simps)
qed

theorem cpu_nfs_fstab_witness:
  "\<exists>c1 c2 c3 env m. Dial sample_dial c1 = (Ok (), c2) \<and> add_nfs sample_new sample_cpu_flags c2 = Ok c3 \<and> c_Env c3 = Some env \<and>
     exec_env env ''CPU_FSTAB'' = Some (JoinFSTab [m, c_FSTab c2])"
proof -
  obtain c1 where 1: "SetOptions (new_command sample_new sample_cpu_flags ''h'' [''ls'']) (cpu_options sample_new sample_cpu_flags) = (None, c1)"
    and d: "c_DisablePrivateKey c1" "c_network c1 = ''tcp''" "c_NameSpace c1 = []" "c_Root c1 = ''/''" "\<not> c_Ninep c1"
    by (rule sample_options)
  obtain c2 where 2: "Dial sample_dial c1 = (Ok (), c2)" using sample_dial_ok [OF d] by blast
  obtain c3 where 3: "add_nfs sample_new sample_cpu_flags c2 = Ok c3" using sample_nfs_ok by blast
  have x: "ne_dial sample_new = sample_dial" "ne_environ sample_new = [''HOME=/home/u'']" by (simp_all add: sample_new_def)
  have f: "cf_srvnfs sample_cpu_flags" "\<not> cf_ninep sample_cpu_flags" "cf_root sample_cpu_flags \<noteq> []"
    by (simp_all add: sample_cpu_flags_def read_flags_def flag_value_def)
  have "list_all (\<lambda>r. \<not> fstab_entry r) [''HOME=/home/u'']" by (simp add: fstab_entry_def has_prefix_def)
  then obtain env m where "c_Env c3 = Some env" "exec_env env ''CPU_FSTAB'' = Some (JoinFSTab [m, c_FSTab c2])"
    using cpu_nfs_fstab [OF 1 _ 3 f, unfolded x, OF 2, of "''CPU_FSTAB''"] by (simp only: insert_iff if_True simp_thms) blast
  with 2 3 show ?thesis by blast
qed

section \<open>Waiting\<close>

lemma cpu_loop_signals:
  "c_session c \<Longrightarrow> cpu_loop x (map Interrupt sigs @ WaitReturns e # evs) c sent = Ok (Some (e, c, sent @ sigs))"
  by (induction sigs arbitrary: sent) simp_all

text \<open>A signal before \<open>Start\<close> has made the session panics cpu.\<close>

lemma signal_before_session:
  "\<not> c_session c \<Longrightarrow> cpu_loop x (Interrupt s # evs) c sent = Panic ''nil pointer dereference''"
  by simp


lemma sample_start_ok: "c_client c \<Longrightarrow> \<not> c_hasTTY c \<Longrightarrow> st_err (fst (Start sample_start c)) = None"
proof -
  assume c: "c_client c" "\<not> c_hasTTY c"
  have "SetEnv_loop f vs s None = (None, snd (SetEnv_loop f vs s None))" for f :: "string \<Rightarrow> string \<Rightarrow> (string \<times> string) list \<Rightarrow> _" and vs s
    by (induction f vs s "None :: goerror option" rule: SetEnv_loop.induct) (auto simp: Let_def split: prod.splits option.splits)
  then have e: "\<exists>l. SetEnv f vs s = (None, l)" for f :: "string \<Rightarrow> string \<Rightarrow> (string \<times> string) list \<Rightarrow> _" and vs s
    unfolding SetEnv_def by blast
  obtain l where l: "SetEnv (sx_setenv sample_start) (case c_Env c of None \<Rightarrow> sx_environ sample_start | Some e \<Rightarrow> e) [] = (None, l)"
    using e by blast
  have x: "sx_new_session sample_start = None" "sx_stdin sample_start = None" "sx_stdout sample_start = None"
    "sx_stderr sample_start = None" "\<And>s. sx_start sample_start s = None"
    by (simp_all add: sample_start_def)
  show ?thesis using c l by (simp add: Start_def x Let_def)
qed


end
