(* ===== verification/Vm.thy ===== *)
theory Vm
  imports CpuCmd
begin

text \<open>
  Virtual machines that run cpud, \<open>vm/vm.go\<close>: the table of images, \<open>New\<close>, the u-root command, the command that boots
  an image and the client for a command in it (theory ClientCmd).

  The files embedded in the program are named, with their contents as a parameter; \<open>gzip\<close> is a parameter. The file
  system is a map from paths to contents, and a write that fails is answered by the parameter of the function.
\<close>

section \<open>Images\<close>

record image =
  im_Kernel :: string
  im_InitRAMFS :: string
  im_Cmd :: "string list"
  im_Env :: "string list"
  im_dir :: string
  im_GOOS :: string
  im_GOARCH :: string
  im_Opts :: "string list"

text \<open>The table: kernel and archive, command and options.\<close>

definition images :: "(string \<Rightarrow> string) \<Rightarrow> string \<Rightarrow> image option" where
  "images embedded n =
     (let im = (\<lambda>arch cmd opts. Some \<lparr>im_Kernel = embedded (''kernel_linux_'' @ arch @ ''.gz''),
            im_InitRAMFS = embedded (''initramfs_linux_'' @ arch @ ''.cpio.gz''), im_Cmd = cmd, im_Env = [], im_dir = [],
            im_GOOS = [], im_GOARCH = [], im_Opts = opts\<rparr>)
      in if n = ''linux_amd64'' then im ''amd64'' [''qemu-system-x86_64'', ''-m'', ''4G''] []
         else if n = ''linux_arm64'' then
           im ''arm64'' [''qemu-system-aarch64'', ''-machine'', ''virt'', ''-cpu'', ''max'', ''-m'', ''1G''] []
         else if n = ''linux_arm'' then im ''arm'' [''qemu-system-arm'', ''-M'', ''virt,highmem=off''] [''GOARM=5'']
         else if n = ''linux_riscv64'' then
           im ''riscv64'' [''qemu-system-riscv64'', ''-M'', ''virt'', ''-cpu'', ''rv64'', ''-m'', ''1G''] []
         else None)"

definition vm_common :: "string list" where
  "vm_common = [''-nographic'', ''-netdev'', ''user,id=net0,ipv4=on,hostfwd=tcp::17010-:17010'',
     ''-device'', ''e1000-82545em,netdev=net0,id=net0,mac=52:54:00:c9:18:27'',
     ''-netdev'', ''user,id=net1'', ''-device'', ''e1000-82545em,netdev=net1,id=net1,mac=52:54:00:c9:18:28'',
     ''--append'', ''ip=dhcp init=/init -pk '' @ [DQUOTE, DQUOTE]]"

text \<open>Uncompressing: the header may be wrong, or the bytes after it, of which the read ones are counted.\<close>

definition unzip :: "(string \<Rightarrow> goerror option) \<Rightarrow> (string \<Rightarrow> string \<times> goerror option) \<Rightarrow> string \<Rightarrow> goerror + string" where
  "unzip gz_header gz_read b =
     (case gz_header b of Some e \<Rightarrow> Inl e
      | None \<Rightarrow> (case gz_read b of
          (i, Some e) \<Rightarrow> Inl (Wrapf ''unzipped %d bytes: %w'' [show_nat (length i)] (Some e))
        | (i, None) \<Rightarrow> Inr i))"

definition New_image :: "(string \<Rightarrow> goerror option) \<Rightarrow> (string \<Rightarrow> string \<times> goerror option) \<Rightarrow> (string \<Rightarrow> string)
    \<Rightarrow> string \<Rightarrow> string \<Rightarrow> goerror + image" where
  "New_image gz_header gz_read embedded goos arch =
     (case images embedded (goos @ ''_'' @ arch) of
        None \<Rightarrow> Inl (Wrapf ''(%q,%q): %w'' [goos, arch] (Some ErrNotExist))
      | Some im \<Rightarrow>
          (case unzip gz_header gz_read (im_InitRAMFS im) of Inl e \<Rightarrow> Inl e
           | Inr i \<Rightarrow>
               (case unzip gz_header gz_read (im_Kernel im) of Inl e \<Rightarrow> Inl e
                | Inr k \<Rightarrow> Inr \<lparr>im_Kernel = k, im_InitRAMFS = i, im_Cmd = im_Cmd im @ vm_common, im_Env = [] @ im_Env im,
                    im_dir = [], im_GOOS = goos, im_GOARCH = arch, im_Opts = im_Opts im\<rparr>)))"

section \<open>Commands\<close>

record exec_line =
  el_argv :: "string list"
  el_env :: "string list"
  el_dir :: string

text \<open>\<open>Uroot\<close>: \<open>run\<close> is the command's output and error.\<close>

definition Uroot :: "string list \<Rightarrow> (exec_line \<Rightarrow> string \<times> goerror option) \<Rightarrow> string \<Rightarrow> string \<Rightarrow> string \<Rightarrow> string list
    \<Rightarrow> goerror + string" where
  "Uroot environ run d GOOS GOARCH opts =
     (let out = path_join [d, GOOS @ ''_'' @ GOARCH @ ''.cpio''];
          c = \<lparr>el_argv = [''u-root'', ''-o'', out],
               el_env = (environ @ [''CGO_ENABLED=0'', ''GOARCH='' @ GOARCH, ''GOOS='' @ GOOS]) @ opts, el_dir = []\<rparr>
      in case run c of
           (o_text, Some e) \<Rightarrow> Inl (Wrapf ''u-root initramfs:%q:%w'' [o_text] (Some e))
         | (o_text, None) \<Rightarrow> Inr out)"

definition Image_Uroot :: "string list \<Rightarrow> (exec_line \<Rightarrow> string \<times> goerror option) \<Rightarrow> image \<Rightarrow> string \<Rightarrow> goerror + string" where
  "Image_Uroot environ run i d = Uroot environ run d (im_GOOS i) (im_GOARCH i) (im_Opts i)"

type_synonym files = "string \<Rightarrow> string option"

text \<open>A write at a position of a file that is opened without being truncated.\<close>

definition write_at :: "string \<Rightarrow> nat \<Rightarrow> string \<Rightarrow> string" where
  "write_at old pos b = take pos old @ b @ drop (pos + length b) old"

definition open_or_create :: "string \<Rightarrow> files \<Rightarrow> files" where
  "open_or_create i fs = (if fs i = None then fs(i \<mapsto> []) else fs)"

text \<open>The files given are copied one after the other; one that cannot be opened ends the loop.\<close>

fun copy_extra :: "string \<Rightarrow> files \<Rightarrow> nat \<Rightarrow> string list \<Rightarrow> goerror option \<times> nat \<times> files" where
  "copy_extra i fs pos [] = (None, pos, fs)"
| "copy_extra i fs pos (n # ns) =
     (case fs n of
        None \<Rightarrow> (Some ErrNotExist, pos, fs)
      | Some b \<Rightarrow>
          copy_extra i (fs(i \<mapsto> write_at (case fs i of None \<Rightarrow> [] | Some old \<Rightarrow> old) pos b)) (pos + length b) ns)"

text \<open>\<open>CommandContext\<close>: \<open>wr\<close> answers the writing of the kernel, the opening of the archive and its last write. The environment is
  that of the process with that of the new command, which has none.\<close>

definition CommandContext :: "string list \<Rightarrow> (nat \<Rightarrow> goerror option) \<Rightarrow> image \<Rightarrow> string \<Rightarrow> string list \<Rightarrow> files
    \<Rightarrow> (goerror + exec_line) res \<times> image \<times> files" where
  "CommandContext environ wr im0 d extra fs0 =
     (let im = im0\<lparr>im_dir := d\<rparr>; i = path_join [d, ''initramfs'']; k = path_join [d, ''kernel''] in
      case wr 0 of Some e \<Rightarrow> (Ok (Inl e), im, fs0) | None \<Rightarrow>
        (let fs1 = fs0(k \<mapsto> im_Kernel im) in
         case wr 1 of Some e \<Rightarrow> (Ok (Inl e), im, fs1) | None \<Rightarrow>
           (let fs2 = open_or_create i fs1 in
            case copy_extra i fs2 0 extra of
              (Some e, pos, fs3) \<Rightarrow> (Ok (Inl e), im, fs3)
            | (None, pos, fs3) \<Rightarrow>
                (case wr 2 of Some e \<Rightarrow> (Ok (Inl e), im, fs3) | None \<Rightarrow>
                   (let fs4 = fs3(i \<mapsto> write_at (case fs3 i of None \<Rightarrow> [] | Some old \<Rightarrow> old) pos (im_InitRAMFS im)) in
                    if im_Cmd im = [] then (Panic ''index out of range'', im, fs4)
                    else (Ok (Inr \<lparr>el_argv = hd (im_Cmd im) # tl (im_Cmd im) @ [''-kernel'', k, ''-initrd'', i],
                            el_env = environ @ [], el_dir = d\<rparr>), im, fs4))))))"

definition StartVM :: "goerror option \<Rightarrow> goerror option" where
  "StartVM start = (case start of Some e \<Rightarrow> Some (Wrapf ''starting VM: %w'' [] (Some e)) | None \<Rightarrow> None)"

text \<open>\<open>CPUCommand\<close>: the externals of the client are those of theory CpuCmd.\<close>

definition vm_options :: "('a, 'd) new_ext \<Rightarrow> image \<Rightarrow> 'a cset list" where
  "vm_options x i = [WithDisablePrivateKey True, WithPort (ne_cfg x) ''17010'', WithRoot (im_dir i), WithNameSpace ''/'',
     With9P True, WithTimeout (ne_duration x) ''5s'']"

definition CPUCommand :: "('a, 'd) new_ext \<Rightarrow> image \<Rightarrow> string \<Rightarrow> string list \<Rightarrow> ('a Cmd) res" where
  "CPUCommand x i arg args =
     (let c0 = (Command (ne_cfg x) (ext_getenv x) (env_value (ne_environ x) ''SHELL'') (ne_term x) ''127.0.0.1'' (arg # args))
                 \<lparr>c_Env := Some (ne_environ x)\<rparr>
      in case SetOptions c0 (vm_options x i) of
           (Some e, c1) \<Rightarrow> Fail e
         | (None, c1) \<Rightarrow>
             (case Dial (ne_dial x) c1 of
                (Panic s, c2) \<Rightarrow> Panic s
              | (Fail e, c2) \<Rightarrow> Fail e
              | (Ok u, c2) \<Rightarrow> Ok (c2\<lparr>c_Env := env_append (c_Env c2) [''PATH=/bbin'', ''PWD=/'', ''SHELL=/bbin/x'']\<rparr>)))"

section \<open>Facts\<close>

lemma write_at_end: "length old = pos \<Longrightarrow> write_at old pos b = old @ b"
  by (simp add: write_at_def)

lemma write_at_over: "length new = pos \<Longrightarrow> write_at (new @ old) pos b = (new @ b) @ drop (length b) old"
  by (simp add: write_at_def)

text \<open>The files are other than the one they are copied to.\<close>

lemma copy_extra_over:
  assumes "i \<notin> set ns" and "\<forall>n \<in> set ns. fs n = Some (content n)" and "fs i = Some (new @ old)" and "length new = pos"
  shows "\<exists>fs'. copy_extra i fs pos ns = (None, pos + length (concat (map content ns)), fs') \<and>
    fs' i = Some ((new @ concat (map content ns)) @ drop (length (concat (map content ns))) old) \<and>
    (\<forall>n. n \<noteq> i \<longrightarrow> fs' n = fs n)"
  using assms
proof (induction ns arbitrary: fs new old pos)
  case (Cons n ns)
  let ?fs = "fs(i \<mapsto> (new @ content n) @ drop (length (content n)) old)"
  have step: "copy_extra i fs pos (n # ns) = copy_extra i ?fs (pos + length (content n)) ns"
    using Cons.prems by (simp add: write_at_over)
  have "\<exists>fs'. copy_extra i ?fs (pos + length (content n)) ns = (None, (pos + length (content n)) + length (concat (map content ns)), fs') \<and>
    fs' i = Some (((new @ content n) @ concat (map content ns)) @ drop (length (concat (map content ns))) (drop (length (content n)) old)) \<and>
    (\<forall>m. m \<noteq> i \<longrightarrow> fs' m = ?fs m)"
    using Cons.prems by (intro Cons.IH) auto
  then show ?case unfolding step by (auto simp: add.assoc add.commute)
qed simp

section \<open>Properties\<close>

text \<open>An image boots with the kernel of the image and an archive that has the given archives first and that of the image last; but the
  file is not truncated, and what an earlier, longer archive in the directory had after that length is still at its end.\<close>

lemma CommandContext_files:
  assumes "CommandContext environ wr im d extra fs = (Ok (Inr c), im', fs')"
    and "\<forall>n \<in> set extra. fs n = Some (content n)"
    and "path_join [d, ''kernel''] \<noteq> path_join [d, ''initramfs'']"
    and "path_join [d, ''initramfs''] \<notin> set extra" and "path_join [d, ''kernel''] \<notin> set extra"
  shows "fs' (path_join [d, ''kernel'']) = Some (im_Kernel im) \<and>
    fs' (path_join [d, ''initramfs'']) = Some (concat (map content extra) @ im_InitRAMFS im @
      drop (length (concat (map content extra) @ im_InitRAMFS im))
        (case fs (path_join [d, ''initramfs'']) of None \<Rightarrow> [] | Some old \<Rightarrow> old)) \<and>
    el_argv c = im_Cmd im @ [''-kernel'', path_join [d, ''kernel''], ''-initrd'', path_join [d, ''initramfs'']] \<and>
    el_env c = environ \<and> el_dir c = d \<and> im' = im\<lparr>im_dir := d\<rparr>"
proof -
  let ?i = "path_join [d, ''initramfs'']" and ?k = "path_join [d, ''kernel'']"
  let ?old = "case fs ?i of None \<Rightarrow> [] | Some old \<Rightarrow> old"
  let ?x = "concat (map content extra)"
  define fs2 where "fs2 = open_or_create ?i (fs(?k \<mapsto> im_Kernel im))"
  have f2: "\<forall>n \<in> set extra. fs2 n = Some (content n)" "fs2 ?i = Some ([] @ ?old)" "fs2 ?k = Some (im_Kernel im)"
    using assms(2-5) by (auto simp: fs2_def open_or_create_def split: option.splits)
  from copy_extra_over [OF assms(4) f2(1,2), of 0] obtain fs3 where
    c3: "copy_extra ?i fs2 0 extra = (None, length ?x, fs3)" and f3: "fs3 ?i = Some (?x @ drop (length ?x) ?old)" "fs3 ?k = fs2 ?k"
    using assms(3) by auto
  have wr: "wr 0 = None" "wr 1 = None" "wr 2 = None" and cmd: "im_Cmd im \<noteq> []"
    using assms(1) c3 by (auto simp: CommandContext_def Let_def fs2_def [symmetric] split: option.splits if_splits)
  have fs': "fs' = fs3(?i \<mapsto> write_at (?x @ drop (length ?x) ?old) (length ?x) (im_InitRAMFS im))"
    and c: "c = \<lparr>el_argv = hd (im_Cmd im) # tl (im_Cmd im) @ [''-kernel'', ?k, ''-initrd'', ?i], el_env = environ @ [], el_dir = d\<rparr>"
    and im': "im' = im\<lparr>im_dir := d\<rparr>"
    using assms(1) c3 wr cmd f3 by (auto simp: CommandContext_def Let_def fs2_def [symmetric])
  have "write_at (?x @ drop (length ?x) ?old) (length ?x) (im_InitRAMFS im) =
      ?x @ im_InitRAMFS im @ drop (length (?x @ im_InitRAMFS im)) ?old"
    by (simp add: write_at_over add.commute)
  with fs' f3 f2 assms(3) c im' cmd show ?thesis by simp
qed

theorem CommandContext_files_witness:
  "\<exists>c im' fs'. CommandContext [''HOME=/''] (\<lambda>n. None) \<lparr>im_Kernel = ''K'', im_InitRAMFS = ''I'', im_Cmd = [''qemu''], im_Env = [''A=b''],
      im_dir = [], im_GOOS = ''linux'', im_GOARCH = ''arm'', im_Opts = []\<rparr> ''/d'' [''/x''] [''/x'' \<mapsto> ''E'', ''/d/initramfs'' \<mapsto> ''long''] =
      (Ok (Inr c), im', fs') \<and>
    fs' ''/d/initramfs'' = Some ''EIng'' \<and> el_env c = [''HOME=/'']"
proof -
  let ?im = "\<lparr>im_Kernel = ''K'', im_InitRAMFS = ''I'', im_Cmd = [''qemu''], im_Env = [''A=b''],
      im_dir = [], im_GOOS = ''linux'', im_GOARCH = ''arm'', im_Opts = []\<rparr>"
  let ?fs = "[''/x'' \<mapsto> ''E'', ''/d/initramfs'' \<mapsto> ''long'']"
  have p: "path_join [''/d'', ''initramfs''] = ''/d/initramfs''" "path_join [''/d'', ''kernel''] = ''/d/kernel''" by code_simp+
  obtain c im' fs' where C: "CommandContext [''HOME=/''] (\<lambda>n. None) ?im ''/d'' [''/x''] ?fs = (Ok (Inr c), im', fs')"
    by (simp add: CommandContext_def p open_or_create_def Let_def)
  from CommandContext_files [OF C, of "\<lambda>n. ''E''"] C show ?thesis by (auto simp: p)
qed

text \<open>An image exists for the four architectures of Linux only; \<open>New\<close> gives one with the uncompressed kernel and archive
  and the common arguments after those of the architecture, or the first error.\<close>

lemma New_image_result:
  "(\<exists>im. New_image gz_header gz_read embedded goos arch = Inr im) \<longleftrightarrow>
    goos @ ''_'' @ arch \<in> {''linux_amd64'', ''linux_arm64'', ''linux_arm'', ''linux_riscv64''} \<and>
    (\<forall>b \<in> {im_InitRAMFS (the (images embedded (goos @ ''_'' @ arch))), im_Kernel (the (images embedded (goos @ ''_'' @ arch)))}.
       gz_header b = None \<and> snd (gz_read b) = None)"
proof -
  have u: "(\<exists>x. unzip gz_header gz_read b = Inr x) \<longleftrightarrow> gz_header b = None \<and> snd (gz_read b) = None" for b
    by (cases "gz_read b") (auto simp: unzip_def split: option.splits)
  have i: "images embedded n \<noteq> None \<longleftrightarrow> n \<in> {''linux_amd64'', ''linux_arm64'', ''linux_arm'', ''linux_riscv64''}" for n
    by (simp add: images_def Let_def)
  show ?thesis
  proof (cases "images embedded (goos @ ''_'' @ arch)")
    case None
    with i [of "goos @ ''_'' @ arch"] show ?thesis by (simp add: New_image_def)
  next
    case (Some im)
    then have "goos @ ''_'' @ arch \<in> {''linux_amd64'', ''linux_arm64'', ''linux_arm'', ''linux_riscv64''}" using i by blast
    with Some u [of "im_InitRAMFS im"] u [of "im_Kernel im"] show ?thesis
      by (auto simp: New_image_def split: sum.splits)
  qed
qed

end
