(* ===== verification/VmBuild.thy ===== *)
theory VmBuild
  imports Vm CpioArchive
begin

text \<open>
  The generator of the images that are embedded in the program, \<open>vm/build.go\<close>, which \<open>go generate\<close> runs in the directory
  of the package: for each architecture it makes an archive with u-root, repairs it, takes a kernel from a container,
  and compresses both. Theory Vm has the table of images that reads the files.

  u-root, the cpio package, gzip, the container registry and the unpacking of its archives are parameters. The directory is a map from
  names to contents; writing, renaming and parsing a reference are answered by parameters too.
\<close>

section \<open>The builds\<close>

record build =
  b_os :: string
  b_arch :: string
  b_version :: string
  b_kernel :: string
  b_container :: string
  b_env :: "string list"
  b_cmd :: "string list"

definition builds :: "build list" where
  "builds =
     [\<lparr>b_os = ''linux'', b_arch = ''amd64'', b_version = ''v1'', b_kernel = ''bzImage'',
       b_container = ''ghcr.io/hugelgupf/vmtest/kernel-amd64:main'', b_env = [''GOARCH=amd64'', ''GOAMD64=v1''], b_cmd = []\<rparr>,
      \<lparr>b_os = ''linux'', b_arch = ''arm'', b_version = [], b_kernel = ''zImage'',
       b_container = ''ghcr.io/hugelgupf/vmtest/kernel-arm:main'', b_env = [''GOARCH=arm'', ''GOARM=5''], b_cmd = []\<rparr>,
      \<lparr>b_os = ''linux'', b_arch = ''arm64'', b_version = ''v1'', b_kernel = ''Image'',
       b_container = ''ghcr.io/hugelgupf/vmtest/kernel-arm64:main'', b_env = [''GOARCH=arm64''], b_cmd = []\<rparr>,
      \<lparr>b_os = ''linux'', b_arch = ''riscv64'', b_version = [], b_kernel = ''Image'',
       b_container = ''ghcr.io/hugelgupf/vmtest/kernel-riscv64:main'', b_env = [''GOARCH=riscv64''], b_cmd = []\<rparr>]"

record 'img build_ext =
  be_environ :: "string list"
  be_verbose :: bool
  be_uroot :: "exec_line \<Rightarrow> files \<Rightarrow> goerror option \<times> files"
  be_records :: "string \<Rightarrow> cpio_rec list"
  be_record :: "string \<Rightarrow> cpio_rec \<Rightarrow> string \<times> goerror option"
  be_gzip :: "string \<Rightarrow> goerror + string"
  be_ref :: "string \<Rightarrow> goerror option"
  be_pull :: "string \<Rightarrow> goerror + 'img"
  be_extract :: "'img \<Rightarrow> (string \<Rightarrow> bool) \<Rightarrow> files \<Rightarrow> goerror option \<times> files"
  be_write :: "string \<Rightarrow> files \<Rightarrow> goerror option"
  be_rename :: "string \<Rightarrow> string \<Rightarrow> files \<Rightarrow> goerror option"

section \<open>Repairing the archive\<close>

text \<open>\<open>ReadAt\<close> of a \<open>bytes.Reader\<close>.\<close>

definition bytes_reader :: "string \<Rightarrow> reader_at" where
  "bytes_reader b n off =
     (if off < 0 then ([], Some (Opaque ''bytes.Reader.ReadAt: negative offset''))
      else if int (length b) \<le> off then ([], Some EOF_err)
      else (let r = take n (drop (nat off) b) in (r, if length r < n then Some EOF_err else None)))"

text \<open>The record that is written for one that was read, and whether it was changed.\<close>

definition fix_record :: "cpio_rec \<Rightarrow> nat \<times> cpio_rec" where
  "fix_record r =
     (if rec_name r = ''bbin/bb'' then (1, r\<lparr>r_info := (r_info r)\<lparr>i_name := ''bbin/cibb''\<rparr>\<rparr>)
      else if rec_name r \<in> {''bbin/init'', ''bbin/dhclient'', ''bbin/cpud''} then
        (1, r\<lparr>r_readat := bytes_reader ''cibb'', r_info := (r_info r)\<lparr>i_filesize := 4\<rparr>\<rparr>)
      else (0, r))"

text \<open>The records are written in order; an error ends the loop, and what \<open>ForEachRecord\<close> returns is dropped.\<close>

fun fix_archive :: "'img build_ext \<Rightarrow> cpio_rec list \<Rightarrow> string \<Rightarrow> nat \<Rightarrow> string \<times> nat" where
  "fix_archive x [] buf fixed = (buf, fixed)"
| "fix_archive x (r # rs) buf fixed =
     (case fix_record r of (k, r') \<Rightarrow>
        (case be_record x buf r' of
           (b, Some e) \<Rightarrow> (buf @ b, fixed + k)
         | (b, None) \<Rightarrow> fix_archive x rs (buf @ b) (fixed + k)))"

section \<open>main\<close>

definition write_file :: "'img build_ext \<Rightarrow> string \<Rightarrow> string \<Rightarrow> files \<Rightarrow> goerror option \<times> files" where
  "write_file x n b fs = (case be_write x n fs of Some e \<Rightarrow> (Some e, fs) | None \<Rightarrow> (None, fs(n \<mapsto> b)))"

definition write_gz :: "'img build_ext \<Rightarrow> string \<Rightarrow> string \<Rightarrow> files \<Rightarrow> goerror option \<times> files" where
  "write_gz x n b fs = (case be_gzip x b of Inl e \<Rightarrow> (Some e, fs) | Inr z \<Rightarrow> write_file x (n @ ''.gz'') z fs)"

definition initramfs_name :: "build \<Rightarrow> string" where
  "initramfs_name b = ''initramfs_'' @ b_os b @ ''_'' @ b_arch b @ ''.cpio''"

definition kernel_name :: "build \<Rightarrow> string" where
  "kernel_name b = ''kernel_'' @ b_os b @ ''_'' @ b_arch b"

definition uroot_line :: "'img build_ext \<Rightarrow> build \<Rightarrow> exec_line" where
  "uroot_line x b =
     \<lparr>el_argv = ''u-root'' # [''-initcmd=/bbin/cpud'', ''-defaultsh='', ''-o='' @ initramfs_name b, ''../cmds/cpud'',
        ''../../u-root/cmds/core/dhclient''],
      el_env = be_environ x @ [''CGO_ENABLED=0''] @ b_env b, el_dir = []\<rparr>"

definition build_kernel :: "'img build_ext \<Rightarrow> build \<Rightarrow> files \<Rightarrow> goerror option \<times> files" where
  "build_kernel x b fs =
     (case (if be_verbose x then be_ref x (b_container b) else None) of Some e \<Rightarrow> (Some e, fs) | None \<Rightarrow>
        (case be_pull x (b_container b) of Inl e \<Rightarrow> (Some e, fs) | Inr img \<Rightarrow>
           (case be_extract x img (\<lambda>n. n = b_kernel b) fs of (Some e, fs1) \<Rightarrow> (Some e, fs1) | (None, fs1) \<Rightarrow>
              (case (be_rename x (b_kernel b) (kernel_name b) fs1, fs1 (b_kernel b)) of
                 (Some e, _) \<Rightarrow> (Some e, fs1)
               | (None, None) \<Rightarrow> (Some ErrNotExist, fs1)
               | (None, Some k) \<Rightarrow> write_gz x (kernel_name b) k (fs1(b_kernel b := None, kernel_name b \<mapsto> k))))))"

text \<open>One build; an error is fatal.\<close>

definition build_one :: "'img build_ext \<Rightarrow> build \<Rightarrow> files \<Rightarrow> goerror option \<times> files" where
  "build_one x b fs =
     (let n = initramfs_name b in
      case be_uroot x (uroot_line x b) fs of (Some e, fs1) \<Rightarrow> (Some e, fs1) | (None, fs1) \<Rightarrow>
        (case fs1 n of None \<Rightarrow> (Some ErrNotExist, fs1) | Some f \<Rightarrow>
           (case fix_archive x (be_records x f) [] 0 of (newcpio, fixed) \<Rightarrow>
              if fixed < 2 then (Some (Errorf ''Did not fix any entries in %q'' [n]), fs1)
              else (case write_file x n newcpio fs1 of (Some e, fs2) \<Rightarrow> (Some e, fs2) | (None, fs2) \<Rightarrow>
                (case write_gz x n newcpio fs2 of (Some e, fs3) \<Rightarrow> (Some e, fs3) | (None, fs3) \<Rightarrow>
                  if length (b_container b) = 0 then (None, fs3) else build_kernel x b fs3)))))"

fun build_loop :: "'img build_ext \<Rightarrow> build list \<Rightarrow> files \<Rightarrow> goerror option \<times> files" where
  "build_loop x [] fs = (None, fs)"
| "build_loop x (b # bs) fs =
     (case build_one x b fs of (Some e, fs1) \<Rightarrow> (Some e, fs1) | (None, fs1) \<Rightarrow> build_loop x bs fs1)"

definition build_main :: "'img build_ext \<Rightarrow> files \<Rightarrow> int \<times> files" where
  "build_main x fs = (case build_loop x builds fs of (Some e, fs') \<Rightarrow> (1, fs') | (None, fs') \<Rightarrow> (0, fs'))"
section \<open>Files of a build\<close>

text \<open>The files that a build leaves, and that it does: each of the two with its compressed form.\<close>

definition build_names :: "build \<Rightarrow> string list" where
  "build_names b = [initramfs_name b, initramfs_name b @ ''.gz'', kernel_name b, kernel_name b @ ''.gz'']"

text \<open>u-root writes the file it is asked for and no other, and unpacking writes files that the filter lets pass only.\<close>

definition uroot_law :: "'img build_ext \<Rightarrow> build \<Rightarrow> bool" where
  "uroot_law x b = (\<forall>fs n. n \<noteq> initramfs_name b \<longrightarrow> snd (be_uroot x (uroot_line x b) fs) n = fs n)"

definition extract_law :: "'img build_ext \<Rightarrow> build \<Rightarrow> bool" where
  "extract_law x b = (\<forall>img fs n. n \<noteq> b_kernel b \<longrightarrow> snd (be_extract x img (\<lambda>n. n = b_kernel b) fs) n = fs n)"

definition compressed :: "'img build_ext \<Rightarrow> files \<Rightarrow> string \<Rightarrow> bool" where
  "compressed x fs n = (case fs n of None \<Rightarrow> False | Some b \<Rightarrow>
     (case be_gzip x b of Inl e \<Rightarrow> False | Inr z \<Rightarrow> fs (n @ ''.gz'') = Some z))"

definition built :: "'img build_ext \<Rightarrow> files \<Rightarrow> build \<Rightarrow> bool" where
  "built x fs b = (compressed x fs (initramfs_name b) \<and> compressed x fs (kernel_name b) \<and>
     (\<exists>f. 2 \<le> snd (fix_archive x (be_records x f) [] 0) \<and> fs (initramfs_name b) = Some (fst (fix_archive x (be_records x f) [] 0))))"

lemma compressed_same: "fs' n = fs n \<Longrightarrow> fs' (n @ ''.gz'') = fs (n @ ''.gz'') \<Longrightarrow> compressed x fs' n = compressed x fs n"
  by (simp add: compressed_def split: option.split sum.split)

lemma built_same: "(\<And>m. m \<in> set (build_names b) \<Longrightarrow> fs' m = fs m) \<Longrightarrow> built x fs b \<Longrightarrow> built x fs' b"
  using compressed_same [of fs' "initramfs_name b" fs x] compressed_same [of fs' "kernel_name b" fs x]
  by (simp add: built_def build_names_def)

lemma write_gz_ok:
  assumes "write_gz x n b fs = (None, fs')"
  shows "\<exists>z. be_gzip x b = Inr z \<and> fs' = fs(n @ ''.gz'' \<mapsto> z)"
  using assms by (auto simp: write_gz_def write_file_def split: sum.splits option.splits)

lemma write_file_ok: "write_file x n b fs = (None, fs') \<Longrightarrow> fs' = fs(n \<mapsto> b)"
  by (auto simp: write_file_def split: option.splits)

lemma build_kernel_ok:
  assumes "build_kernel x b fs = (None, fs')"
    and "extract_law x b"
  shows "compressed x fs' (kernel_name b) \<and> (\<forall>m. m \<notin> {b_kernel b, kernel_name b, kernel_name b @ ''.gz''} \<longrightarrow> fs' m = fs m)"
proof -
  obtain img fs1 k where e: "be_extract x img (\<lambda>n. n = b_kernel b) fs = (None, fs1)"
    and w: "write_gz x (kernel_name b) k (fs1(b_kernel b := None, kernel_name b \<mapsto> k)) = (None, fs')"
    using assms(1) by (auto simp: build_kernel_def split: sum.splits option.splits prod.splits if_splits)
  obtain z where z: "be_gzip x k = Inr z" "fs' = fs1(b_kernel b := None, kernel_name b \<mapsto> k, kernel_name b @ ''.gz'' \<mapsto> z)"
    using write_gz_ok [OF w] by blast
  have "fs1 m = fs m" if "m \<noteq> b_kernel b" for m
    using assms(2) e that by (auto simp: extract_law_def) (metis snd_conv)
  with z show ?thesis by (simp add: compressed_def)
qed

lemma build_one_ok:
  assumes "build_one x b fs = (None, fs')" and "b_container b \<noteq> []"
    and "distinct (build_names b)" and "b_kernel b \<notin> set (build_names b)"
    and "uroot_law x b" and "extract_law x b"
  shows "built x fs' b \<and> (\<forall>m. m \<notin> insert (b_kernel b) (set (build_names b)) \<longrightarrow> fs' m = fs m)"
proof -
  let ?n = "initramfs_name b"
  obtain fs1 f newcpio fixed fs2 fs3 where u: "be_uroot x (uroot_line x b) fs = (None, fs1)"
    and n: "fix_archive x (be_records x f) [] 0 = (newcpio, fixed)" and fx: "2 \<le> fixed"
    and w2: "write_file x ?n newcpio fs1 = (None, fs2)" and w3: "write_gz x ?n newcpio fs2 = (None, fs3)"
    and k: "build_kernel x b fs3 = (None, fs')"
    using assms(1,2) by (auto simp: build_one_def Let_def split: sum.splits option.splits prod.splits if_splits)
  obtain z where z: "be_gzip x newcpio = Inr z" "fs3 = fs1(?n \<mapsto> newcpio, ?n @ ''.gz'' \<mapsto> z)"
    using write_gz_ok [OF w3] write_file_ok [OF w2] by auto
  note kk = build_kernel_ok [OF k assms(6)]
  have same: "fs' ?n = fs3 ?n" "fs' (?n @ ''.gz'') = fs3 (?n @ ''.gz'')"
    using kk assms(3,4) by (auto simp: build_names_def)
  have fs1: "fs1 m = fs m" if "m \<noteq> ?n" for m
    using assms(5) u that by (auto simp: uroot_law_def) (metis snd_conv)
  have "compressed x fs3 ?n" using z by (simp add: compressed_def)
  then have "compressed x fs' ?n" using compressed_same [OF same] by blast
  moreover have "\<forall>m. m \<notin> insert (b_kernel b) (set (build_names b)) \<longrightarrow> fs' m = fs m"
    using kk z fs1 by (auto simp: build_names_def)
  moreover have "\<exists>f. 2 \<le> snd (fix_archive x (be_records x f) [] 0) \<and> fs' ?n = Some (fst (fix_archive x (be_records x f) [] 0))"
    using n fx same(1) z by (intro exI [of _ f]) simp
  ultimately show ?thesis using kk by (simp add: built_def)
qed

lemma build_loop_ok:
  assumes "build_loop x bs fs = (None, fs')" and "distinct (concat (map build_names bs))"
    and "\<And>b. b \<in> set bs \<Longrightarrow> b_container b \<noteq> [] \<and> b_kernel b \<notin> set (concat (map build_names bs))"
    and "\<And>b. b \<in> set bs \<Longrightarrow> uroot_law x b \<and> extract_law x b"
  shows "(\<forall>b \<in> set bs. built x fs' b) \<and> (\<forall>m. m \<notin> (\<Union>b \<in> set bs. insert (b_kernel b) (set (build_names b))) \<longrightarrow> fs' m = fs m)"
  using assms
proof (induction bs arbitrary: fs)
  case (Cons b bs)
  obtain fs1 where one: "build_one x b fs = (None, fs1)" and rest: "build_loop x bs fs1 = (None, fs')"
    using Cons.prems(1) by (auto split: prod.splits option.splits)
  have B: "built x fs1 b \<and> (\<forall>m. m \<notin> insert (b_kernel b) (set (build_names b)) \<longrightarrow> fs1 m = fs m)"
    using Cons.prems(2,3) Cons.prems(4) by (intro build_one_ok [OF one]) auto
  have R: "(\<forall>b \<in> set bs. built x fs' b) \<and> (\<forall>m. m \<notin> (\<Union>b \<in> set bs. insert (b_kernel b) (set (build_names b))) \<longrightarrow> fs' m = fs1 m)"
    using Cons.prems(2,3) Cons.prems(4) by (intro Cons.IH [OF rest]) auto
  have "fs' m = fs1 m" if "m \<in> set (build_names b)" for m
  proof -
    have "m \<noteq> b_kernel c \<and> m \<notin> set (build_names c)" if "c \<in> set bs" for c
      using \<open>m \<in> set (build_names b)\<close> that Cons.prems(2) Cons.prems(3) [of c] by auto
    with R show ?thesis by simp
  qed
  then have b: "built x fs' b" using B by (intro built_same [of b fs' fs1 x]) simp_all
  have "fs' m = fs m" if "m \<notin> (\<Union>b \<in> set (b # bs). insert (b_kernel b) (set (build_names b)))" for m
    using B R that by simp
  with b R show ?case by simp
qed simp

lemma builds_distinct: "distinct (concat (map build_names builds))"
  by (simp add: builds_def build_names_def initramfs_name_def kernel_name_def)

lemma builds_sane: "b \<in> set builds \<Longrightarrow> b_container b \<noteq> [] \<and> b_kernel b \<notin> set (concat (map build_names builds))"
  by (auto simp: builds_def build_names_def initramfs_name_def kernel_name_def)

lemma images_of_builds:
  "b \<in> set builds \<Longrightarrow> \<exists>im. images embedded (b_os b @ ''_'' @ b_arch b) = Some im \<and>
     im_Kernel im = embedded (kernel_name b @ ''.gz'') \<and> im_InitRAMFS im = embedded (initramfs_name b @ ''.gz'')"
  by (auto simp: builds_def images_def initramfs_name_def kernel_name_def Let_def)

lemma images_only_builds:
  "images embedded n \<noteq> None \<longleftrightarrow> n \<in> set (map (\<lambda>b. b_os b @ ''_'' @ b_arch b) builds)"
  by (simp add: images_def builds_def Let_def)
section \<open>Properties\<close>

text \<open>The archive is repaired in its order: the program of the busybox is renamed and the links to it point to the new name, and
  all other records stay. The number of repairs is that of records with one of the four names.\<close>

lemma fix_archive_all:
  assumes "\<And>b r. snd (be_record x b r) = None"
  shows "snd (fix_archive x rs buf k) = k + length (filter (\<lambda>r. rec_name r \<in> {''bbin/bb'', ''bbin/init'', ''bbin/dhclient'', ''bbin/cpud''}) rs) \<and>
    fst (fix_archive x rs buf k) = foldl (\<lambda>b r. b @ fst (be_record x b (snd (fix_record r)))) buf rs"
  (is "snd _ = k + length (filter (\<lambda>r. _ r \<in> ?names) rs) \<and> _")
proof (induction rs arbitrary: buf k)
  case (Cons r rs)
  obtain b where b: "be_record x buf (snd (fix_record r)) = (b, None)" using assms by (metis prod.collapse)
  obtain i r' where r: "fix_record r = (i, r')" by force
  have "i = (if rec_name r \<in> ?names then 1 else 0)" using r by (auto simp: fix_record_def split: if_splits)
  with Cons [of "buf @ b" "k + i"] b r show ?case by (cases "rec_name r \<in> ?names") simp_all
qed simp

text \<open>A record that cannot be written ends the archive, and nobody is told: the records after it do not matter.\<close>

lemma fix_archive_cut:
  assumes "snd (be_record x (fst (fix_archive x rs buf k)) (snd (fix_record r))) \<noteq> None" and "\<And>b r. r \<in> snd ` fix_record ` set rs \<Longrightarrow> snd (be_record x b r) = None"
  shows "fix_archive x (rs @ r # rs') buf k = fix_archive x (rs @ [r]) buf k"
  using assms
proof (induction rs arbitrary: buf k)
  case Nil
  then show ?case by (auto split: prod.split option.split)
next
  case (Cons q rs)
  obtain b where b: "be_record x buf (snd (fix_record q)) = (b, None)" using Cons.prems(2) by (metis image_eqI list.set_intros(1) prod.collapse)
  obtain i q' where q: "fix_record q = (i, q')" by force
  from Cons.IH [of "buf @ b" "k + i"] Cons.prems b q show ?case by simp
qed

text \<open>C16: What is generated is what is booted. If the generator succeeds, u-root and the unpacking write only the files they are asked
  for, and uncompressing undoes compressing, then with the files that it left embedded in the program there is an image for every build,
  and for nothing else, whose archive and kernel are, uncompressed, the very files that were left beside.\<close>

theorem build_makes_images:
  assumes "build_main x fs = (0, fs')" and "\<forall>b \<in> set builds. uroot_law x b \<and> extract_law x b"
    and "\<forall>b z. be_gzip x b = Inr z \<longrightarrow> gz_header z = None \<and> gz_read z = (b, None)"
  shows "(\<forall>b \<in> set builds. \<exists>im. New_image gz_header gz_read (\<lambda>n. the (fs' n)) (b_os b) (b_arch b) = Inr im \<and>
       fs' (initramfs_name b) = Some (im_InitRAMFS im) \<and> fs' (kernel_name b) = Some (im_Kernel im) \<and>
       im_GOOS im = b_os b \<and> im_GOARCH im = b_arch b) \<and>
    (\<forall>goos arch im. New_image gz_header gz_read (\<lambda>n. the (fs' n)) goos arch = Inr im \<longrightarrow>
       goos @ ''_'' @ arch \<in> set (map (\<lambda>b. b_os b @ ''_'' @ b_arch b) builds))"
proof -
  have "build_loop x builds fs = (None, fs')" using assms(1) by (auto simp: build_main_def split: prod.splits option.splits)
  then have B: "\<forall>b \<in> set builds. built x fs' b"
    using build_loop_ok [of x builds fs fs'] builds_distinct builds_sane assms(2) by blast
  have C: "\<exists>c. fs' n = Some c \<and> unzip gz_header gz_read (the (fs' (n @ ''.gz''))) = Inr c" if "compressed x fs' n" for n
    using that assms(3) by (auto simp: compressed_def unzip_def split: option.splits sum.splits)
  have "\<exists>im. New_image gz_header gz_read (\<lambda>n. the (fs' n)) (b_os b) (b_arch b) = Inr im \<and>
       fs' (initramfs_name b) = Some (im_InitRAMFS im) \<and> fs' (kernel_name b) = Some (im_Kernel im) \<and>
       im_GOOS im = b_os b \<and> im_GOARCH im = b_arch b" if b: "b \<in> set builds" for b
  proof -
    obtain i k where "fs' (initramfs_name b) = Some i" "unzip gz_header gz_read (the (fs' (initramfs_name b @ ''.gz''))) = Inr i"
      "fs' (kernel_name b) = Some k" "unzip gz_header gz_read (the (fs' (kernel_name b @ ''.gz''))) = Inr k"
      using B b C by (metis built_def)
    with images_of_builds [OF b, of "\<lambda>n. the (fs' n)"] show ?thesis by (auto simp: New_image_def)
  qed
  moreover have "goos @ ''_'' @ arch \<in> set (map (\<lambda>b. b_os b @ ''_'' @ b_arch b) builds)"
    if "New_image gz_header gz_read (\<lambda>n. the (fs' n)) goos arch = Inr im" for goos arch im
    using that images_only_builds [of "\<lambda>n. the (fs' n)" "goos @ ''_'' @ arch"] by (auto simp: New_image_def split: option.splits)
  ultimately show ?thesis by blast
qed

definition sample_build :: "string build_ext" where
  "sample_build = \<lparr>be_environ = [], be_verbose = False,
     be_uroot = (\<lambda>l fs. (None, fs(drop 3 (el_argv l ! 3) \<mapsto> ''cpio''))),
     be_records = (\<lambda>f. map (\<lambda>n. \<lparr>r_info = \<lparr>i_name = n, i_mode = 0, i_uid = 0, i_gid = 0, i_nlink = 0, i_mtime = 0, i_filesize = 0,
       i_dev = 0\<rparr>, r_readat = bytes_reader []\<rparr>) [''bbin/bb'', ''bbin/init'']),
     be_record = (\<lambda>b r. (rec_name r, None)), be_gzip = (\<lambda>b. Inr (CHR ''z'' # b)), be_ref = (\<lambda>r. None), be_pull = Inr,
     be_extract = (\<lambda>img ok fs. (None, \<lambda>n. if ok n then Some img else fs n)), be_write = (\<lambda>n fs. None), be_rename = (\<lambda>a b fs. None)\<rparr>"

theorem build_makes_images_witness:
  "\<exists>fs' im. build_main sample_build Map.empty = (0, fs') \<and>
     New_image (\<lambda>z. None) (\<lambda>z. (tl z, None)) (\<lambda>n. the (fs' n)) ''linux'' ''arm'' = Inr im \<and>
     fs' ''initramfs_linux_arm.cpio'' = Some (im_InitRAMFS im)"
proof -
  have "fst (build_main sample_build Map.empty) = 0" by code_simp
  then obtain fs' where m: "build_main sample_build Map.empty = (0, fs')" by (metis prod.collapse)
  have u: "\<forall>b \<in> set builds. uroot_law sample_build b \<and> extract_law sample_build b"
    by (auto simp: uroot_law_def extract_law_def sample_build_def uroot_line_def)
  have "\<forall>b z. be_gzip sample_build b = Inr z \<longrightarrow> None = (None :: goerror option) \<and> (tl z, None :: goerror option) = (b, None)"
    by (simp add: sample_build_def)
  from build_makes_images [OF m u this] have
    "\<forall>b \<in> set builds. \<exists>im. New_image (\<lambda>z. None) (\<lambda>z. (tl z, None)) (\<lambda>n. the (fs' n)) (b_os b) (b_arch b) = Inr im \<and>
       fs' (initramfs_name b) = Some (im_InitRAMFS im)" by blast
  moreover have "builds ! 1 \<in> set builds" "b_os (builds ! 1) = ''linux''" "b_arch (builds ! 1) = ''arm''"
    "initramfs_name (builds ! 1) = ''initramfs_linux_arm.cpio''"
    by (simp_all add: builds_def initramfs_name_def)
  ultimately show ?thesis using m by metis
qed

end
