(* ===== verification/DnsSd.thy ===== *)
theory DnsSd
  imports GoStrings "HOL-Library.Multiset"
begin

text \<open>
  DNS service discovery, the package \<open>ds\<close> (\<open>ds/ds.go\<close>), and the modifier of cpud that uses it
  (\<open>cmds/cpud/main_mdns_linux.go\<close>): the requirements and the address of a query, the sort order
  of the answers, \<open>Lookup\<close>, the advertised texts and the count of tenants.

  Go's maps of texts are functions into options; the requirements of a query, over which
  the code iterates in an order of the runtime's choosing, are a list of keys and values, in some order.
  Numbers are parsed by \<open>strconv.ParseFloat\<close>, a parameter: a number of a linear order \<open>'n\<close>, or not a number at all,
  which is in no order with anything.
\<close>

section \<open>Numbers and texts\<close>

datatype 'n gofloat = NaN | Num 'n

definition fl_less :: "('n :: linorder) gofloat \<Rightarrow> 'n gofloat \<Rightarrow> bool" where
  "fl_less a b = (case (a, b) of (Num x, Num y) \<Rightarrow> (x < y) | _ \<Rightarrow> False)"

type_synonym texts = "string \<Rightarrow> string option"
type_synonym requirements = "(string \<times> string list) list"
type_synonym 'n float_parser = "string \<Rightarrow> 'n gofloat option"

text \<open>\<open>m[k]\<close> of a map of strings: the empty string for a missing key.\<close>

definition text_of :: "texts \<Rightarrow> string \<Rightarrow> string" where
  "text_of m k = (case m k of None \<Rightarrow> [] | Some v \<Rightarrow> v)"

section \<open>Requirements\<close>

text \<open>One requirement; the first byte of its first value selects the comparison.\<close>

definition required_key :: "('n :: linorder) float_parser \<Rightarrow> texts \<Rightarrow> string \<times> string list \<Rightarrow> bool res" where
  "required_key pf src kv =
     (case kv of (k, vals) \<Rightarrow>
        if k = ''sort'' then Ok True
        else bind_res (index_slice vals 0) (\<lambda>r. bind_res (index_slice r 0) (\<lambda>c.
          if c = CHR ''*'' then Ok True
          else if c = CHR ''<'' \<or> c = CHR ''>'' then
            (if length r < 2 then Ok False
             else case pf (drop 1 r) of None \<Rightarrow> Ok False
             | Some reqval \<Rightarrow>
                 if length (text_of src k) = 0 then Ok False
                 else (case pf (text_of src k) of None \<Rightarrow> Ok False
                 | Some val \<Rightarrow>
                     if c = CHR ''<'' then Ok (\<not> fl_less reqval val) else Ok (\<not> fl_less val reqval)))
          else if c = CHR ''!'' then
            (if length r < 2 then Ok False else Ok (drop 1 r \<noteq> text_of src k))
          else Ok (text_of src k \<in> set vals))))"

fun required :: "('n :: linorder) float_parser \<Rightarrow> texts \<Rightarrow> requirements \<Rightarrow> bool res" where
  "required pf src [] = Ok True"
| "required pf src (kv # req) =
     bind_res (required_key pf src kv) (\<lambda>b. if b then required pf src req else Ok False)"

section \<open>Addresses\<close>

record Query =
  q_Type :: string
  q_Instance :: string
  q_Domain :: string
  q_Text :: requirements

text \<open>What \<open>url.Parse\<close> gives of an address: the scheme, \<open>Hostname()\<close> and \<open>Query()\<close>.\<close>

record url =
  u_scheme :: string
  u_host :: string
  u_query :: requirements

text \<open>The index of the first label with an underscore in front.\<close>

fun underscore_at :: "nat \<Rightarrow> string list \<Rightarrow> nat option" where
  "underscore_at p [] = None"
| "underscore_at p (v # vs) = (if has_prefix v ''_'' then Some p else underscore_at (p + 1) vs)"

definition parse_host :: "string \<Rightarrow> Query \<Rightarrow> Query" where
  "parse_host host q =
     (if length host = 0 then q
      else (let parts = split_on CHR ''.'' host in
        case underscore_at 0 parts of
          None \<Rightarrow> q\<lparr>q_Domain := host\<rparr>
        | Some p \<Rightarrow>
            (let q1 = (if 0 < p then q\<lparr>q_Instance := join_with ''.'' (take p parts)\<rparr> else q);
                 two = p + 1 < length parts;
                 q2 = (if two then
                         (if has_prefix (parts ! (p + 1)) ''_'' then
                            q1\<lparr>q_Type := parts ! p @ ''.'' @ parts ! (p + 1)\<rparr> else q1)
                       else q1\<lparr>q_Type := parts ! p\<rparr>);
                 p' = (if two then p + 2 else p + 1)
             in if p' < length parts then q2\<lparr>q_Domain := join_with ''.'' (drop p' parts)\<rparr> else q2)))"

text \<open>An entry of the map of texts set, where its list is empty.\<close>

definition default_req :: "string \<Rightarrow> string \<Rightarrow> requirements \<Rightarrow> requirements" where
  "default_req k v req =
     (if map_of req k = None \<or> map_of req k = Some [] then
        filter (\<lambda>kv. fst kv \<noteq> k) req @ [(k, [v])] else req)"

definition Parse :: "(string \<Rightarrow> goerror + url) \<Rightarrow> string \<Rightarrow> string \<Rightarrow> string \<Rightarrow> goerror + Query" where
  "Parse url_parse goarch goos uri =
     (case url_parse uri of
        Inl e \<Rightarrow> Inl (Wrapf ''trouble parsing url %s: %w'' [uri] (Some e))
      | Inr u \<Rightarrow>
          if u_scheme u \<noteq> ''dnssd'' then Inl (Errorf ''not an dns-sd URI'' [])
          else Inr ((parse_host (u_host u) \<lparr>q_Type = ''_ncpu._tcp'', q_Instance = [], q_Domain = ''local'', q_Text = []\<rparr>)
                 \<lparr>q_Text := default_req ''os'' goos (default_req ''arch'' goarch (u_query u))\<rparr>))"

section \<open>The order of the answers\<close>

record entry =
  e_Text :: texts
  e_instance :: string
  e_ips :: "string list"
  e_port :: int

type_synonym less_fun = "entry \<Rightarrow> entry \<Rightarrow> bool"

definition genSortTxt :: "('n :: linorder) float_parser \<Rightarrow> string \<Rightarrow> char \<Rightarrow> less_fun" where
  "genSortTxt pf key operator c1 c2 =
     (let t1 = text_of (e_Text c1) key; t2 = text_of (e_Text c2) key in
      if operator = CHR ''='' then length t2 < length t1
      else if operator = CHR ''!'' then length t1 < length t2
      else case pf t1 of None \<Rightarrow> False
      | Some n1 \<Rightarrow> (case pf t2 of None \<Rightarrow> False
         | Some n2 \<Rightarrow>
             if operator = CHR ''<'' then fl_less n1 n2
             else if operator = CHR ''>'' then fl_less n2 n1
             else False))"

text \<open>\<open>multiSorter.Less\<close> on a non-empty list of comparisons.\<close>

fun multi_less :: "less_fun list \<Rightarrow> less_fun" where
  "multi_less [] p q = False"
| "multi_less [l] p q = l p q"
| "multi_less (l # l' # ls) p q =
     (if l p q then True else if l q p then False else multi_less (l' # ls) p q)"

text \<open>The key and the operator of one sort element; \<open>None\<close> for an operator alone.\<close>

definition sort_element :: "string \<Rightarrow> (char \<times> string) option res" where
  "sort_element e =
     bind_res (index_slice e 0) (\<lambda>c.
       if c \<in> {CHR ''<'', CHR ''>'', CHR ''='', CHR ''!''} then
         (if length e < 2 then Ok None else Ok (Some (c, drop 1 e)))
       else Ok (Some (CHR ''<'', e)))"

text \<open>\<open>None\<close> where the loop returns early, without sorting.\<close>

fun sort_funs :: "('n :: linorder) float_parser \<Rightarrow> string list \<Rightarrow> less_fun list option res" where
  "sort_funs pf [] = Ok (Some [])"
| "sort_funs pf (e # es) =
     bind_res (sort_element e) (\<lambda>r. case r of None \<Rightarrow> Ok None
       | Some (c, key) \<Rightarrow> bind_res (sort_funs pf es) (\<lambda>fs. Ok (map_option ((#) (genSortTxt pf key c)) fs)))"

text \<open>\<open>srt\<close> is \<open>sort.Sort\<close>, given the comparison.\<close>

definition sortEntries :: "('n :: linorder) float_parser \<Rightarrow> (less_fun \<Rightarrow> entry list \<Rightarrow> entry list)
    \<Rightarrow> requirements \<Rightarrow> entry list \<Rightarrow> entry list res" where
  "sortEntries pf srt req entries =
     (case map_of req ''sort'' of
        None \<Rightarrow> Ok entries
      | Some els \<Rightarrow>
          if length els = 0 then Ok entries
          else bind_res (sort_funs pf els) (\<lambda>fs. case fs of
            None \<Rightarrow> Ok entries | Some ls \<Rightarrow> Ok (srt (multi_less ls) entries)))"

section \<open>Looking up\<close>

text \<open>The callback for one answer, and the answers that came in time, in order.\<close>

definition add_response :: "('n :: linorder) float_parser \<Rightarrow> Query \<Rightarrow> string \<Rightarrow> entry \<Rightarrow> entry list \<Rightarrow> entry list res" where
  "add_response pf query service e responses =
     bind_res (required pf (e_Text e) (q_Text query)) (\<lambda>b.
       if b then (if q_Instance query \<noteq> [] \<and> e_instance e \<noteq> q_Instance query @ ''.'' @ service then Ok responses
                  else Ok (responses @ [e]))
       else Ok responses)"

fun add_responses :: "('n :: linorder) float_parser \<Rightarrow> Query \<Rightarrow> string \<Rightarrow> entry list \<Rightarrow> entry list \<Rightarrow> entry list res" where
  "add_responses pf query service [] responses = Ok responses"
| "add_responses pf query service (e # es) responses =
     bind_res (add_response pf query service e responses) (add_responses pf query service es)"

text \<open>The loop that copies the result stops only after an entry was added.\<close>

fun take_results :: "entry list \<Rightarrow> entry list \<Rightarrow> int \<Rightarrow> entry list" where
  "take_results [] ret n = ret"
| "take_results (l # ls) ret n =
     (if n \<le> int (length (ret @ [l])) then ret @ [l] else take_results ls (ret @ [l]) n)"

definition service_name :: "Query \<Rightarrow> string" where
  "service_name q = q_Type q @ ''.'' @ q_Domain q @ ''.''"

definition Lookup :: "('n :: linorder) float_parser \<Rightarrow> (less_fun \<Rightarrow> entry list \<Rightarrow> entry list)
    \<Rightarrow> entry list \<Rightarrow> Query \<Rightarrow> int \<Rightarrow> entry list res" where
  "Lookup pf srt answers query n =
     (if n < 0 then Panic ''makeslice: cap out of range''
      else bind_res (add_responses pf query (service_name query) answers []) (\<lambda>responses.
        if length responses = 0 then Fail (Wrapf ''dnssd: %q: %w'' [service_name query] (Some ErrNotExist))
        else bind_res (sortEntries pf srt (q_Text query) responses) (\<lambda>rs. Ok (take_results rs [] n))))"

section \<open>The advertising side\<close>

text \<open>\<open>ParseKv\<close>: a later pair of the same key replaces an earlier one.\<close>

fun parse_pairs :: "string list \<Rightarrow> texts \<Rightarrow> texts" where
  "parse_pairs [] txt = txt"
| "parse_pairs (pair # ss) txt =
     (let z = splitn2 CHR ''='' pair in
      parse_pairs ss (txt(z ! 0 \<mapsto> (if 1 < length z then z ! 1 else ''true''))))"

definition ParseKv :: "string \<Rightarrow> texts" where
  "ParseKv arg = (if length arg = 0 then Map.empty else parse_pairs (split_on CHR '','' arg) Map.empty)"

definition DefaultInstance :: "goerror + string \<Rightarrow> string" where
  "DefaultInstance hostname = (case hostname of Inl e \<Rightarrow> ''cpud'' | Inr h \<Rightarrow> h @ ''-cpud'')"

text \<open>A text set where it is missing or empty.\<close>

definition default_text :: "string \<Rightarrow> string \<Rightarrow> texts \<Rightarrow> texts" where
  "default_text k v txt = (if length (text_of txt k) = 0 then txt(k \<mapsto> v) else txt)"

definition DefaultTxt :: "string \<Rightarrow> string \<Rightarrow> nat \<Rightarrow> texts \<Rightarrow> texts" where
  "DefaultTxt goarch goos ncpu txt =
     default_text ''cores'' (show_nat ncpu) (default_text ''os'' goos (default_text ''arch'' goarch txt))"

text \<open>\<open>strconv.Itoa\<close>, on an \<open>int\<close> of 64 bits.\<close>

definition itoa :: "u64 \<Rightarrow> string" where
  "itoa n = (if sint n < 0 then ''-'' @ show_nat (nat (- sint n)) else show_nat (nat (sint n)))"

text \<open>The state of the machine: available and total memory, and the percentage as formatted.\<close>

record sysinfo =
  si_mem :: "goerror + u64 \<times> u64"
  si_cpu :: "goerror + string"

definition UpdateSysInfo :: "sysinfo \<Rightarrow> u64 \<Rightarrow> texts \<Rightarrow> texts" where
  "UpdateSysInfo si tenants txt =
     (let txt1 = (case si_mem si of Inl e \<Rightarrow> txt
          | Inr (av, tot) \<Rightarrow> txt(''mem.avail'' \<mapsto> show_nat (unat av), ''mem.total'' \<mapsto> show_nat (unat tot)));
          txt2 = (case si_cpu si of Inl e \<Rightarrow> txt1 | Inr pc \<Rightarrow> txt1(''cpu.pcnt'' \<mapsto> pc))
      in txt2(''tenants'' \<mapsto> itoa tenants))"

text \<open>The service that is advertised, or the error.\<close>

record service_config =
  sc_Name :: string
  sc_Type :: string
  sc_Domain :: string
  sc_Port :: int
  sc_Ifaces :: "string list"
  sc_Text :: texts

record ds_ext =
  de_hostname :: "goerror + string"
  de_arch :: string
  de_os :: string
  de_ncpu :: nat
  de_sysinfo :: sysinfo
  de_responder :: "goerror option"
  de_service :: "service_config \<Rightarrow> goerror option"

definition Register :: "ds_ext \<Rightarrow> u64 \<Rightarrow> string \<Rightarrow> string \<Rightarrow> string \<Rightarrow> string \<Rightarrow> int \<Rightarrow> texts \<Rightarrow> goerror + service_config" where
  "Register x tenants instanceFlag domainFlag serviceFlag interfaceFlag portFlag txtFlag =
     (case de_responder x of
        Some e \<Rightarrow> Inl (Wrapf ''dnssd newreponder fail: %w'' [] (Some e))
      | None \<Rightarrow>
          (let ifaces = (if 0 < length interfaceFlag then [interfaceFlag] else []);
               name = (if length instanceFlag = 0 then DefaultInstance (de_hostname x) else instanceFlag);
               txt = UpdateSysInfo (de_sysinfo x) tenants (DefaultTxt (de_arch x) (de_os x) (de_ncpu x) txtFlag);
               cfg = \<lparr>sc_Name = name, sc_Type = serviceFlag, sc_Domain = domainFlag, sc_Port = portFlag,
                      sc_Ifaces = ifaces, sc_Text = txt\<rparr>
           in case de_service x cfg of
                Some e \<Rightarrow> Inl (Wrapf ''cpud: advertise: New service fail: %w'' [] (Some e))
              | None \<Rightarrow> Inr cfg))"

text \<open>The loop over the changes of the count: each is added and the texts published anew.\<close>

fun tenant_loop :: "sysinfo \<Rightarrow> u64 list \<Rightarrow> u64 \<Rightarrow> texts \<Rightarrow> texts list" where
  "tenant_loop si [] tenants txt = []"
| "tenant_loop si (delta # deltas) tenants txt =
     (let txt' = UpdateSysInfo si (tenants + delta) txt
      in txt' # tenant_loop si deltas (tenants + delta) txt')"

text \<open>\<open>handleWrapper.handler\<close>: the changes sent around one session, which itself sends none.\<close>

definition wrapped_handler :: "('s \<Rightarrow> 'r) \<Rightarrow> 's \<Rightarrow> 'r \<times> u64 list" where
  "wrapped_handler handle s = (handle s, [1, -1])"

text \<open>\<open>servemDNS\<close>: \<open>atoi\<close> is \<open>strconv.Atoi\<close>; the handler is wrapped only after registering.\<close>

definition servemDNS :: "ds_ext \<Rightarrow> u64 \<Rightarrow> (string \<Rightarrow> goerror + int) \<Rightarrow> string \<Rightarrow> string \<Rightarrow> string \<Rightarrow> string
    \<Rightarrow> string \<Rightarrow> string \<Rightarrow> ('s \<Rightarrow> 'r) \<Rightarrow> goerror + (service_config \<times> ('s \<Rightarrow> 'r \<times> u64 list))" where
  "servemDNS x tenants atoi port dsInstance dsDomain dsService dsInterface dsTxtStr handle =
     (case atoi port of
        Inl e \<Rightarrow> Inl (Wrapf ''Could not parse port: %s, %w'' [port] (Some e))
      | Inr p \<Rightarrow>
          (case Register x tenants dsInstance dsDomain dsService dsInterface p (ParseKv dsTxtStr) of
             Inl e \<Rightarrow> Inl (Wrapf ''Could not advertise with dns-sd: %w'' [] (Some e))
           | Inr cfg \<Rightarrow> Inr (cfg, wrapped_handler handle)))"

section \<open>Facts on requirements\<close>

definition well_valued :: "requirements \<Rightarrow> bool" where
  "well_valued req = (\<forall>(k, vals) \<in> set req. k = ''sort'' \<or> (vals \<noteq> [] \<and> hd vals \<noteq> []))"

text \<open>What a requirement with a value asks of a service's texts.\<close>

definition meets :: "('n :: linorder) float_parser \<Rightarrow> texts \<Rightarrow> string \<times> string list \<Rightarrow> bool" where
  "meets pf src kv =
     (case kv of (k, vals) \<Rightarrow> k = ''sort'' \<or> (case hd vals of c # r \<Rightarrow>
        if c = CHR ''*'' then True
        else if c = CHR ''!'' then r \<noteq> [] \<and> text_of src k \<noteq> r
        else if c = CHR ''<'' \<or> c = CHR ''>'' then
          r \<noteq> [] \<and> text_of src k \<noteq> [] \<and>
          (\<exists>m n. pf r = Some m \<and> pf (text_of src k) = Some n \<and> \<not> (if c = CHR ''<'' then fl_less m n else fl_less n m))
        else text_of src k \<in> set vals))"

lemma required_key_meets:
  assumes "k = ''sort'' \<or> (vals \<noteq> [] \<and> hd vals \<noteq> [])"
  shows "required_key pf src (k, vals) = Ok (meets pf src (k, vals))"
proof (cases "k = ''sort''")
  case False
  with assms obtain c r vs where v: "vals = (c # r) # vs" by (metis list.collapse)
  have i: "index_slice vals 0 = Ok (c # r)" "index_slice (c # r) 0 = Ok c" by (simp_all add: v)
  have l: "length (c # r) < 2 \<longleftrightarrow> r = []" by (cases r) simp_all
  note defs = required_key_def meets_def i l
  consider "c = CHR ''*''" | "c = CHR ''!''" | "c = CHR ''<''" | "c = CHR ''>''"
    | "c \<notin> {CHR ''*'', CHR ''!'', CHR ''<'', CHR ''>''}" by blast
  then show ?thesis
  proof cases
    case 1
    with False v show ?thesis by (simp add: defs)
  next
    case 2
    with False v show ?thesis by (auto simp: defs)
  next
    case 3
    with False v show ?thesis by (auto simp: defs split: option.splits)
  next
    case 4
    with False v show ?thesis by (auto simp: defs split: option.splits)
  next
    case 5
    with False v show ?thesis by (simp add: defs)
  qed
qed (simp add: required_key_def meets_def)

lemma required_meets: "well_valued req \<Longrightarrow> required pf src req = Ok (\<forall>kv \<in> set req. meets pf src kv)"
proof (induction req)
  case (Cons kv req)
  obtain k vals where kv: "kv = (k, vals)" by force
  with Cons.prems have "required_key pf src (k, vals) = Ok (meets pf src (k, vals))"
    by (intro required_key_meets) (auto simp: well_valued_def)
  moreover have "well_valued req" using Cons.prems by (simp add: well_valued_def)
  then have "required pf src req = Ok (\<forall>kv \<in> set req. meets pf src kv)" by (rule Cons.IH)
  ultimately show ?case
    by (cases "meets pf src kv") (simp_all only: kv required.simps bind_res.simps if_True if_False list.set(2) ball_simps simp_thms)
qed simp

section \<open>Facts on the order\<close>

text \<open>What \<open>sort.Sort\<close> asks of a comparison: a strict weak order.\<close>

definition strict_weak :: "'a set \<Rightarrow> ('a \<Rightarrow> 'a \<Rightarrow> bool) \<Rightarrow> bool" where
  "strict_weak A l = ((\<forall>x \<in> A. \<forall>y \<in> A. l x y \<longrightarrow> \<not> l y x) \<and>
     (\<forall>x \<in> A. \<forall>y \<in> A. \<forall>z \<in> A. l x y \<longrightarrow> l x z \<or> l z y))"

lemma strict_weakI:
  "(\<And>x y. x \<in> A \<Longrightarrow> y \<in> A \<Longrightarrow> l x y \<Longrightarrow> \<not> l y x) \<Longrightarrow>
   (\<And>x y z. x \<in> A \<Longrightarrow> y \<in> A \<Longrightarrow> z \<in> A \<Longrightarrow> l x y \<Longrightarrow> l x z \<or> l z y) \<Longrightarrow> strict_weak A l"
  by (auto simp: strict_weak_def)

lemma strict_weak_key:
  assumes "\<And>x y. x \<in> A \<Longrightarrow> y \<in> A \<Longrightarrow> l x y \<longleftrightarrow> (f x :: 'n :: linorder) < f y"
  shows "strict_weak A l"
  using assms by (intro strict_weakI) force+

lemma strict_weak_key_rev:
  assumes "\<And>x y. x \<in> A \<Longrightarrow> y \<in> A \<Longrightarrow> l x y \<longleftrightarrow> (f y :: 'n :: linorder) < f x"
  shows "strict_weak A l"
  using assms by (intro strict_weakI) force+

lemma strict_weakD:
  assumes "strict_weak A l" and "x \<in> A" and "y \<in> A"
  shows "l x y \<Longrightarrow> \<not> l y x" and "z \<in> A \<Longrightarrow> l x y \<Longrightarrow> l x z \<or> l z y"
  using assms by (auto simp: strict_weak_def)

lemma strict_weak_lex:
  assumes l: "strict_weak A l" and m: "strict_weak A m"
  shows "strict_weak A (\<lambda>x y. if l x y then True else if l y x then False else m x y)"
proof (rule strict_weakI)
  fix x y assume A: "x \<in> A" "y \<in> A" and "if l x y then True else if l y x then False else m x y"
  then show "\<not> (if l y x then True else if l x y then False else m y x)"
    using strict_weakD(1) [OF l A] strict_weakD(1) [OF m A] by (auto split: if_splits)
next
  fix x y z assume A: "x \<in> A" "y \<in> A" "z \<in> A"
    and xy: "if l x y then True else if l y x then False else m x y"
  note lt = strict_weakD(2) [OF l] and mt = strict_weakD(2) [OF m A(1,2) A(3)] and la = strict_weakD(1) [OF l]
  show "(if l x z then True else if l z x then False else m x z) \<or> (if l z y then True else if l y z then False else m z y)"
  proof (cases "l x y")
    case True
    with lt [OF A(1,2) A(3)] show ?thesis by auto
  next
    case False
    with xy have "\<not> l y x" "m x y" by (auto split: if_splits)
    with mt have "m x z \<or> m z y" by blast
    moreover have "\<not> l z x" if "\<not> l z y" using lt [OF A(3,1) A(2)] that \<open>\<not> l y x\<close> False by blast
    moreover have "\<not> l y z" if "\<not> l x z" using lt [OF A(2,3) A(1)] that \<open>\<not> l y x\<close> by blast
    moreover have "\<not> l x z" if "l z x" using la [OF A(3,1)] that by blast
    ultimately show ?thesis by auto
  qed
qed

lemma multi_less_lex:
  "ls \<noteq> [] \<Longrightarrow> multi_less (l # ls) = (\<lambda>x y. if l x y then True else if l y x then False else multi_less ls x y)"
  by (cases ls) (auto simp: fun_eq_iff)

lemma strict_weak_multi: "\<forall>l \<in> set ls. strict_weak A l \<Longrightarrow> strict_weak A (multi_less ls)"
proof (induction ls)
  case Nil
  then show ?case by (simp add: strict_weak_def)
next
  case (Cons l ls)
  show ?case
  proof (cases "ls = []")
    case True
    have "multi_less [l] = l" by (simp add: fun_eq_iff)
    with True Cons.prems show ?thesis by simp
  next
    case False
    with Cons strict_weak_lex [of A l "multi_less ls"] show ?thesis by (simp add: multi_less_lex)
  qed
qed

text \<open>The entries for which a sort element is about a number, as far as it needs one.\<close>

definition numeric_for :: "('n :: linorder) float_parser \<Rightarrow> string \<Rightarrow> entry \<Rightarrow> bool" where
  "numeric_for pf el e =
     (case sort_element el of
        Ok (Some (c, key)) \<Rightarrow> c \<in> {CHR ''<'', CHR ''>''} \<longrightarrow> (\<exists>x. pf (text_of (e_Text e) key) = Some (Num x))
      | _ \<Rightarrow> True)"

lemma genSortTxt_weak:
  assumes "c \<in> {CHR ''<'', CHR ''>''} \<Longrightarrow> \<forall>e \<in> A. \<exists>x. pf (text_of (e_Text e) key) = Some (Num (x :: 'n :: linorder))"
  shows "strict_weak A (genSortTxt pf key c)"
proof -
  let ?t = "\<lambda>e. text_of (e_Text e) key"
  consider "c = CHR ''=''" | "c = CHR ''!''" | "c = CHR ''<''" | "c = CHR ''>''"
    | "c \<notin> {CHR ''='', CHR ''!'', CHR ''<'', CHR ''>''}" by blast
  then show ?thesis
  proof cases
    case 1
    then show ?thesis by (intro strict_weak_key_rev [of A _ "\<lambda>e. length (?t e)"]) (simp add: genSortTxt_def Let_def)
  next
    case 2
    then show ?thesis by (intro strict_weak_key [of A _ "\<lambda>e. length (?t e)"]) (simp add: genSortTxt_def Let_def)
  next
    case 3
    then obtain g where g: "\<forall>e \<in> A. pf (?t e) = Some (Num (g e))" using assms by (metis insertI1)
    show ?thesis using 3 g by (intro strict_weak_key [of A _ g]) (simp add: genSortTxt_def Let_def fl_less_def)
  next
    case 4
    then obtain g where g: "\<forall>e \<in> A. pf (?t e) = Some (Num (g e))" using assms by (metis insertCI)
    show ?thesis using 4 g by (intro strict_weak_key_rev [of A _ g]) (simp add: genSortTxt_def Let_def fl_less_def)
  next
    case 5
    then show ?thesis by (auto simp: strict_weak_def genSortTxt_def Let_def split: option.splits)
  qed
qed

lemma sort_element_ops: "sort_element el = Ok (Some (c, key)) \<Longrightarrow> c \<in> {CHR ''<'', CHR ''>'', CHR ''='', CHR ''!''}"
  by (auto simp: sort_element_def bind_res_Ok_iff split: if_splits)

lemma sort_funs_weak:
  "sort_funs pf els = Ok (Some ls) \<Longrightarrow> \<forall>e \<in> A. \<forall>el \<in> set els. numeric_for pf el e \<Longrightarrow>
    \<forall>l \<in> set ls. strict_weak A l"
proof (induction els arbitrary: ls)
  case (Cons el els)
  obtain r where r: "sort_element el = Ok r" using Cons.prems(1) by (auto simp: bind_res_Ok_iff)
  with Cons.prems(1) obtain c key where ck: "r = Some (c, key)" by (cases r) auto
  with r Cons.prems(1) obtain fs where fs: "sort_funs pf els = Ok (Some fs)" "ls = genSortTxt pf key c # fs"
    by (auto simp: bind_res_Ok_iff)
  have "strict_weak A (genSortTxt pf key c)"
    using Cons.prems(2) r ck by (intro genSortTxt_weak) (fastforce simp: numeric_for_def)
  with Cons fs show ?case by simp
qed simp

section \<open>What a query asks for\<close>

definition answers_query :: "('n :: linorder) float_parser \<Rightarrow> Query \<Rightarrow> entry \<Rightarrow> bool" where
  "answers_query pf query e =
     ((\<forall>kv \<in> set (q_Text query). meets pf (e_Text e) kv) \<and>
      (q_Instance query = [] \<or> e_instance e = q_Instance query @ ''.'' @ service_name query))"

lemma add_responses_filter:
  "well_valued (q_Text q) \<Longrightarrow>
   add_responses pf q (service_name q) es acc = Ok (acc @ filter (answers_query pf q) es)"
proof (induction es arbitrary: acc)
  case (Cons e es)
  then have "add_response pf q (service_name q) e acc = Ok (if answers_query pf q e then acc @ [e] else acc)"
    by (auto simp: add_response_def answers_query_def required_meets)
  with Cons show ?case by simp
qed simp

lemma take_results_take: "take_results ls ret n = ret @ take (max 1 (nat n - length ret)) ls"
proof (induction ls arbitrary: ret)
  case (Cons l ls)
  show ?case
  proof (cases "n \<le> int (length (ret @ [l]))")
    case True
    then have "max 1 (nat n - length ret) = 1" by simp
    with True show ?thesis by simp
  next
    case False
    then have "max 1 (nat n - length ret) = Suc (max 1 (nat n - length (ret @ [l])))" by simp
    with False Cons show ?thesis by simp
  qed
qed simp

lemma sorted_take_best:
  assumes "sorted_wrt R xs" and "r \<in> set (take n xs)" and "c \<in># mset xs - mset (take n xs)"
  shows "R r c"
proof -
  have "mset xs = mset (take n xs) + mset (drop n xs)" by (metis append_take_drop_id mset_append)
  with assms(3) have "c \<in> set (drop n xs)" by simp
  moreover have "sorted_wrt R (take n xs @ drop n xs)" using assms(1) by simp
  ultimately show ?thesis using assms(2) unfolding sorted_wrt_append by blast
qed

text \<open>What \<open>sort.Sort\<close> documents: a permutation, sorted where the comparison is an order.\<close>

locale entry_sorter =
  fixes srt :: "less_fun \<Rightarrow> entry list \<Rightarrow> entry list"
  assumes srt_perm: "mset (srt l es) = mset es"
    and srt_sorted: "strict_weak (set es) l \<Longrightarrow> sorted_wrt (\<lambda>x y. \<not> l y x) (srt l es)"
begin

lemma srt_length: "length (srt l es) = length es"
  using srt_perm by (metis size_mset)

text \<open>Every result is a match, in any case, and there are at most as many as asked for or one.\<close>

lemma lookup_matches:
  assumes "well_valued (q_Text query)" and "Lookup pf srt answers query n = Ok rs"
  shows "mset rs \<subseteq># mset (filter (answers_query pf query) answers)" and "length rs \<le> max 1 (nat n)" and "rs \<noteq> []"
proof -
  let ?m = "filter (answers_query pf query) answers"
  obtain es where s: "sortEntries pf srt (q_Text query) ?m = Ok es" and rs: "rs = take (max 1 (nat n)) es" and m: "?m \<noteq> []"
    using assms by (auto simp: Lookup_def add_responses_filter take_results_take bind_res_Ok_iff split: if_splits)
  have es: "mset es = mset ?m"
    using s by (auto simp: sortEntries_def srt_perm bind_res_Ok_iff split: option.splits if_splits)
  then show "mset rs \<subseteq># mset ?m" using rs by (metis append_take_drop_id mset_append mset_subset_eq_add_left)
  show "length rs \<le> max 1 (nat n)" using rs by simp
  have "es \<noteq> []" using es m by (metis mset_zero_iff)
  then show "rs \<noteq> []" using rs by simp
qed

text \<open>With an order on the answers, the first of the sorted list are the best.\<close>

lemma taken_best:
  assumes "strict_weak (set es) l" and "r \<in> set (take k (srt l es))" and "c \<in># mset es - mset (take k (srt l es))"
  shows "\<not> l c r"
  using sorted_take_best [OF srt_sorted [OF assms(1)] assms(2)] assms(3) by (simp add: srt_perm)

end

text \<open>
  On up to twelve entries \<open>sort.Sort\<close> is an insertion sort, \<open>insertionSort\<close>: each entry is moved to the left while it is less
  than the one before. The part that is sorted is kept with its last entry first.
\<close>

fun insert_by :: "('a \<Rightarrow> 'a \<Rightarrow> bool) \<Rightarrow> 'a \<Rightarrow> 'a list \<Rightarrow> 'a list" where
  "insert_by l x [] = [x]"
| "insert_by l x (y # ys) = (if l x y then y # insert_by l x ys else x # y # ys)"

definition sort_by :: "('a \<Rightarrow> 'a \<Rightarrow> bool) \<Rightarrow> 'a list \<Rightarrow> 'a list" where
  "sort_by l xs = rev (fold (insert_by l) xs [])"

lemma mset_insert_by [simp]: "mset (insert_by l x ys) = add_mset x (mset ys)"
  by (induction ys) auto

lemma set_insert_by [simp]: "set (insert_by l x ys) = insert x (set ys)"
  by (induction ys) auto

lemma mset_sort_by: "mset (sort_by l xs) = mset xs"
proof -
  have "mset (fold (insert_by l) xs ys) = mset xs + mset ys" for ys by (induction xs arbitrary: ys) auto
  then show ?thesis by (simp add: sort_by_def)
qed

lemma sorted_insert_by:
  assumes w: "strict_weak A l" and "insert x (set ys) \<subseteq> A" and "sorted_wrt (\<lambda>a b. \<not> l a b) ys"
  shows "sorted_wrt (\<lambda>a b. \<not> l a b) (insert_by l x ys)"
  using assms(2,3)
proof (induction ys)
  case (Cons y ys)
  then have A: "x \<in> A" "y \<in> A" "set ys \<subseteq> A" and srt: "\<forall>b \<in> set ys. \<not> l y b" "sorted_wrt (\<lambda>a b. \<not> l a b) ys"
    by auto
  show ?case
  proof (cases "l x y")
    case True
    then have "\<not> l y x" using strict_weakD(1) [OF w A(1,2)] by blast
    with True Cons.IH A srt show ?thesis by auto
  next
    case False
    have "\<not> l x b" if "b \<in> set ys" for b
    proof
      assume "l x b"
      then have "l x y \<or> l y b" using strict_weakD(2) [OF w A(1) _ A(2)] that A(3) by blast
      with False srt that show False by blast
    qed
    with False srt show ?thesis by simp
  qed
qed simp

lemma sort_by_sorted:
  assumes "strict_weak (set xs) l"
  shows "sorted_wrt (\<lambda>x y. \<not> l y x) (sort_by l xs)"
proof -
  have "set zs \<union> set ys \<subseteq> set xs \<Longrightarrow> sorted_wrt (\<lambda>a b. \<not> l a b) ys \<Longrightarrow> sorted_wrt (\<lambda>a b. \<not> l a b) (fold (insert_by l) zs ys)" for zs ys
    by (induction zs arbitrary: ys) (simp_all add: sorted_insert_by [OF assms])
  from this [of xs "[]"] show ?thesis by (simp add: sort_by_def sorted_wrt_rev)
qed

interpretation isort: entry_sorter sort_by
  by unfold_locales (simp_all add: mset_sort_by sort_by_sorted)

section \<open>Properties\<close>

text \<open>The requirements of a query whose values are not empty hold or fail the same whatever the order in which
  the runtime iterates over their map, without a panic: all of them must be met.\<close>

lemma required_any_order:
  assumes "well_valued req" and "mset req' = mset req"
  shows "required pf src req' = Ok (\<forall>kv \<in> set req. meets pf src kv)"
proof -
  have s: "set req' = set req" using assms(2) by (rule mset_eq_setD)
  then have "well_valued req'" using assms(1) by (simp add: well_valued_def)
  with s show ?thesis by (simp add: required_meets)
qed

definition nat_parser :: "int float_parser" where
  "nat_parser s = (case parse_uint s 64 of Inl e \<Rightarrow> None | Inr n \<Rightarrow> Some (Num (int n)))"

lemma nat_parser_show: "n < 2 ^ 64 \<Longrightarrow> nat_parser (show_nat n) = Some (Num (int n))"
  by (simp add: nat_parser_def parse_uint_show)

lemma show_nat_digits:
  "show_nat 0 = ''0''" "show_nat 1 = ''1''" "show_nat 2 = ''2''" "show_nat 4 = ''4''" "show_nat 8 = ''8''"
  by code_simp+

lemmas nat_parser_eval =
  nat_parser_show [of 0, simplified show_nat_digits, simplified] nat_parser_show [of 1, simplified show_nat_digits, simplified]
  nat_parser_show [of 2, simplified show_nat_digits, simplified] nat_parser_show [of 4, simplified show_nat_digits, simplified]
  nat_parser_show [of 8, simplified show_nat_digits, simplified]

lemma nat_parser_Nil: "nat_parser [] = None"
  by (simp add: nat_parser_def parse_uint_def)

theorem required_any_order_witness:
  "required nat_parser [''arch'' \<mapsto> ''arm64'', ''cores'' \<mapsto> ''8''] [(''cores'', [''>4'']), (''arch'', [''amd64'', ''arm64''])] = Ok True"
proof -
  have "well_valued [(''arch'', [''amd64'', ''arm64'']), (''cores'', [''>4''])]" by (simp add: well_valued_def)
  from required_any_order [OF this, of "[(''cores'', [''>4'']), (''arch'', [''amd64'', ''arm64''])]" nat_parser
      "[''arch'' \<mapsto> ''arm64'', ''cores'' \<mapsto> ''8'']"]
  show ?thesis by (simp add: meets_def nat_parser_eval text_of_def fl_less_def)
qed

text \<open>A requirement with an empty value, as in \<open>dnssd://?arch=\<close>, is kept by \<open>Parse\<close> and panics the client
  when the first answer arrives.\<close>

lemma empty_value_panics:
  "Parse (\<lambda>uri. Inr \<lparr>u_scheme = ''dnssd'', u_host = [], u_query = [(''arch'', [[]])]\<rparr>) goarch goos ''dnssd://?arch='' =
     Inr \<lparr>q_Type = ''_ncpu._tcp'', q_Instance = [], q_Domain = ''local'', q_Text = [(''arch'', [[]]), (''os'', [goos])]\<rparr> \<and>
   Lookup pf srt (e # es)
     \<lparr>q_Type = ''_ncpu._tcp'', q_Instance = [], q_Domain = ''local'', q_Text = [(''arch'', [[]]), (''os'', [goos])]\<rparr> (int n) =
     Panic ''index out of range''"
  by (simp add: Parse_def parse_host_def default_req_def Lookup_def add_response_def required_key_def)

text \<open>C39: An address \<open>instance._type._proto.domain\<close> is taken apart at its type, whatever the number of labels of the
  instance and of the domain; what is left out keeps its default, and so do the architecture and the system.\<close>

theorem Parse_address:
  assumes labels: "\<forall>l \<in> set (inst @ [t, pr] @ ds). CHR ''.'' \<notin> set l"
    and i: "\<forall>l \<in> set inst. \<not> has_prefix l ''_''" and t: "has_prefix t ''_''" "has_prefix pr ''_''"
    and u: "url_parse uri = Inr \<lparr>u_scheme = ''dnssd'', u_host = join_with ''.'' (inst @ [t, pr] @ ds), u_query = req\<rparr>"
  shows "Parse url_parse goarch goos uri =
    Inr \<lparr>q_Type = t @ ''.'' @ pr, q_Instance = join_with ''.'' inst,
         q_Domain = (if ds = [] then ''local'' else join_with ''.'' ds),
         q_Text = default_req ''os'' goos (default_req ''arch'' goarch req)\<rparr>"
proof -
  let ?parts = "inst @ [t, pr] @ ds"
  have sp: "split_on CHR ''.'' (join_with ''.'' ?parts) = ?parts" using labels by (intro split_join) auto
  have "underscore_at p ?parts = Some (p + length inst)" for p
    using i t by (induction inst arbitrary: p) auto
  then have at: "underscore_at 0 ?parts = Some (length inst)" by simp
  have ne: "join_with ''.'' ?parts \<noteq> []"
  proof
    assume "join_with ''.'' ?parts = []"
    then have "?parts = [[]]" using sp by simp
    then show False by (cases inst) auto
  qed
  have "parse_host (join_with ''.'' ?parts) q = q\<lparr>q_Type := t @ ''.'' @ pr,
      q_Instance := (if inst = [] then q_Instance q else join_with ''.'' inst),
      q_Domain := (if ds = [] then q_Domain q else join_with ''.'' ds)\<rparr>" for q
    unfolding parse_host_def sp at Let_def using ne t by (simp add: nth_append)
  then show ?thesis unfolding Parse_def u by simp
qed

theorem Parse_address_witness:
  "Parse (\<lambda>uri. Inr \<lparr>u_scheme = ''dnssd'', u_host = ''big.rack._ncpu._tcp.example.com'', u_query = [(''arch'', [''*''])]\<rparr>)
     ''amd64'' ''linux'' ''dnssd://big.rack._ncpu._tcp.example.com?arch=*'' =
   Inr \<lparr>q_Type = ''_ncpu._tcp'', q_Instance = ''big.rack'', q_Domain = ''example.com'',
        q_Text = [(''arch'', [''*'']), (''os'', [''linux''])]\<rparr>"
  using Parse_address [of "[''big'', ''rack'']" "''_ncpu''" "''_tcp''" "[''example'', ''com'']"
      "\<lambda>uri. Inr \<lparr>u_scheme = ''dnssd'', u_host = ''big.rack._ncpu._tcp.example.com'', u_query = [(''arch'', [''*''])]\<rparr>"
      "''dnssd://big.rack._ncpu._tcp.example.com?arch=*''" "[(''arch'', [''*''])]" "''amd64''" "''linux''"]
  by (simp add: has_prefix_def default_req_def)

text \<open>A single label with an underscore is not taken as the type, and the label after it is dropped.\<close>

lemma lone_underscore_label: "parse_host ''_ipp.example.com'' q = q\<lparr>q_Domain := ''com''\<rparr>"
  by (simp add: parse_host_def has_prefix_def Let_def)

text \<open>The answers that are taken of the sorted matches.\<close>

lemma lookup_best:
  assumes srt: "entry_sorter srt" and wv: "well_valued (q_Text query)"
    and els: "map_of (q_Text query) ''sort'' = Some els" "els \<noteq> []" "sort_funs pf els = Ok (Some ls)"
    and num: "\<forall>e \<in> set answers. \<forall>el \<in> set els. numeric_for pf el e"
    and ms: "filter (answers_query pf query) answers = matches" "matches \<noteq> []"
  shows "\<exists>rs. Lookup pf srt answers query (int n) = Ok rs \<and> length rs = min (max 1 n) (length matches) \<and>
    mset rs \<subseteq># mset matches \<and> sorted_wrt (\<lambda>x y. \<not> multi_less ls y x) rs \<and>
    (\<forall>r \<in> set rs. \<forall>c \<in># mset matches - mset rs. \<not> multi_less ls c r)"
proof -
  note perm = entry_sorter.srt_perm [OF srt] and len = entry_sorter.srt_length [OF srt]
  let ?s = "srt (multi_less ls) matches"
  let ?rs = "take (max 1 n) ?s"
  have L: "Lookup pf srt answers query (int n) = Ok ?rs"
    using wv els ms by (simp add: Lookup_def add_responses_filter sortEntries_def take_results_take)
  have w: "strict_weak (set matches) (multi_less ls)"
    using num ms(1) by (intro strict_weak_multi sort_funs_weak [OF els(3)]) auto
  have "mset ?rs \<subseteq># mset matches"
    by (metis perm append_take_drop_id mset_append mset_subset_eq_add_left)
  moreover have "\<not> multi_less ls c r" if "r \<in> set ?rs" "c \<in># mset matches - mset ?rs" for r c
    using entry_sorter.taken_best [OF srt w that] .
  ultimately show ?thesis using L len entry_sorter.srt_sorted [OF srt w] by (auto simp: sorted_wrt_take)
qed

text \<open>C10: \<open>Lookup\<close> gives the best answers: with a sort order that parses and answers that have the numbers it compares, a
  number of results that is asked for (one at least, all answers that match at most), sorted, every one
  a match of the requirements and of the instance, and no match that was left out comes before one that was given.\<close>

theorem Lookup_best:
  assumes srt: "entry_sorter srt" and wv: "well_valued (q_Text query)"
    and els: "map_of (q_Text query) ''sort'' = Some els" "els \<noteq> []" "sort_funs pf els = Ok (Some ls)"
    and num: "\<forall>e \<in> set answers. \<forall>el \<in> set els. numeric_for pf el e"
    and ms: "filter (answers_query pf query) answers = matches" "matches \<noteq> []"
  shows "\<exists>rs. Lookup pf srt answers query (int n) = Ok rs \<and> length rs = min (max 1 n) (length matches) \<and>
    mset rs \<subseteq># mset matches \<and> sorted_wrt (\<lambda>x y. \<not> multi_less ls y x) rs \<and>
    (\<forall>r \<in> set rs. \<forall>c \<in># mset matches - mset rs. \<not> multi_less ls c r)"
  by (rule lookup_best [OF assms])

definition host_entry :: "string \<Rightarrow> string \<Rightarrow> entry" where
  "host_entry name tenants = \<lparr>e_Text = [''tenants'' \<mapsto> tenants], e_instance = name, e_ips = [''10.0.0.1''], e_port = 17010\<rparr>"

theorem Lookup_best_witness:
  "\<exists>rs. Lookup nat_parser sort_by [host_entry ''a'' ''4'', host_entry ''b'' ''1'']
      \<lparr>q_Type = ''_ncpu._tcp'', q_Instance = [], q_Domain = ''local'', q_Text = [(''sort'', [''tenants''])]\<rparr> (int 1) = Ok rs \<and>
    length rs = 1"
proof -
  let ?q = "\<lparr>q_Type = ''_ncpu._tcp'', q_Instance = [], q_Domain = ''local'', q_Text = [(''sort'', [''tenants''])]\<rparr>"
  let ?a = "[host_entry ''a'' ''4'', host_entry ''b'' ''1'']"
  have el: "sort_element ''tenants'' = Ok (Some (CHR ''<'', ''tenants''))" by code_simp
  have 1: "filter (answers_query nat_parser ?q) ?a = ?a" by (simp add: answers_query_def meets_def)
  have 2: "\<forall>e \<in> set ?a. \<forall>x \<in> set [''tenants'']. numeric_for nat_parser x e"
    by (simp add: numeric_for_def el host_entry_def text_of_def nat_parser_eval)
  have 3: "sort_funs nat_parser [''tenants''] = Ok (Some [genSortTxt nat_parser ''tenants'' CHR ''<''])"
    by (simp add: el)
  have "\<exists>rs. Lookup nat_parser sort_by ?a ?q (int 1) = Ok rs \<and> length rs = min (max 1 1) (length ?a) \<and>
    mset rs \<subseteq># mset ?a \<and> sorted_wrt (\<lambda>x y. \<not> multi_less [genSortTxt nat_parser ''tenants'' CHR ''<''] y x) rs \<and>
    (\<forall>r \<in> set rs. \<forall>c \<in># mset ?a - mset rs. \<not> multi_less [genSortTxt nat_parser ''tenants'' CHR ''<''] c r)"
    by (rule Lookup_best [OF isort.entry_sorter_axioms _ _ _ 3 2 1]) (simp_all add: well_valued_def)
  then show ?thesis by auto
qed

text \<open>A service that does not publish a number under a key takes the order from the answers: with two services whose
  numbers differ beside it, the comparison by that key is no strict weak order, which is all that
  \<open>sort.Sort\<close> is promised to sort by, in either direction; the numbers alone are one.\<close>

lemma sort_needs_numbers:
  assumes "pf (text_of (e_Text e1) key) = Some (Num x)" and "pf (text_of (e_Text e2) key) = Some (Num y)" and "x < y"
    and "pf (text_of (e_Text e3) key) = None" and "c \<in> {CHR ''<'', CHR ''>''}"
  shows "strict_weak {e1, e2} (genSortTxt pf key c) \<and> \<not> strict_weak {e1, e2, e3} (genSortTxt pf key c)"
proof (rule conjI)
  show "strict_weak {e1, e2} (genSortTxt pf key c)" using assms by (intro genSortTxt_weak) auto
  have "\<not> genSortTxt pf key c e1 e3 \<and> \<not> genSortTxt pf key c e3 e2 \<and> \<not> genSortTxt pf key c e2 e3 \<and> \<not> genSortTxt pf key c e3 e1"
    and "genSortTxt pf key c e1 e2 \<or> genSortTxt pf key c e2 e1"
    using assms by (auto simp: genSortTxt_def Let_def fl_less_def)
  then show "\<not> strict_weak {e1, e2, e3} (genSortTxt pf key c)"
    using strict_weakD(2) [of "{e1, e2, e3}" "genSortTxt pf key c" e1 e2 e3]
      strict_weakD(2) [of "{e1, e2, e3}" "genSortTxt pf key c" e2 e1 e3] by blast
qed

theorem sort_needs_numbers_witness:
  "\<not> strict_weak {host_entry ''a'' ''1'', host_entry ''b'' ''4'', host_entry ''c'' []} (genSortTxt nat_parser ''tenants'' CHR ''<'')"
  using sort_needs_numbers [of nat_parser "host_entry ''a'' ''1''" "''tenants''" 1 "host_entry ''b'' ''4''" 4
      "host_entry ''c'' []" "CHR ''<''"]
  by (simp add: host_entry_def text_of_def nat_parser_eval nat_parser_Nil)

text \<open>The operator of existence compares lengths: a longer value comes first.\<close>

lemma existence_is_length:
  "genSortTxt pf ''gpu'' CHR ''='' (e\<lparr>e_Text := [''gpu'' \<mapsto> ''none'']\<rparr>) (e\<lparr>e_Text := [''gpu'' \<mapsto> ''yes'']\<rparr>)"
  by (simp add: genSortTxt_def text_of_def)

text \<open>The texts of an advertisement are read back from the list of pairs they are written as; of two values for
  one key the later one is advertised, and a value may hold further equals signs.\<close>

lemma ParseKv_round_trip:
  assumes "kvs \<noteq> []" and "\<forall>(k, v) \<in> set kvs. CHR ''='' \<notin> set k \<and> CHR '','' \<notin> set k \<and> CHR '','' \<notin> set v"
  shows "ParseKv (join_with '','' (map (\<lambda>(k, v). k @ ''='' @ v) kvs)) = map_of (rev kvs)"
proof -
  let ?ps = "map (\<lambda>(k, v). k @ ''='' @ v) kvs"
  have sp: "split_on CHR '','' (join_with '','' ?ps) = ?ps" using assms by (intro split_join) auto
  have "parse_pairs ?ps txt = txt ++ map_of (rev kvs)" for "txt"
    using assms(2)
  proof (induction kvs arbitrary: "txt")
    case (Cons kv kvs)
    obtain k v where kv: "kv = (k, v)" by force
    with Cons.prems have "splitn2 CHR ''='' (k @ ''='' @ v) = [k, v]" by (simp add: splitn2_def cut_append)
    with Cons kv show ?case by simp
  qed simp
  moreover have "join_with '','' ?ps \<noteq> []"
  proof
    assume "join_with '','' ?ps = []"
    then have "?ps = [[]]" using sp by simp
    then show False using assms(1) by (cases kvs) auto
  qed
  ultimately show ?thesis unfolding ParseKv_def sp by simp
qed

theorem ParseKv_round_trip_witness:
  "ParseKv ''gpu=a=b,disk=,gpu=c'' = map_of [(''gpu'', ''c''), (''disk'', []), (''gpu'', ''a=b'')]"
  using ParseKv_round_trip [of "[(''gpu'', ''a=b''), (''disk'', []), (''gpu'', ''c'')]"] by simp

lemma tenant_loop_length [simp]: "length (tenant_loop si ds t txt) = length ds"
  by (induction ds arbitrary: t "txt") (simp_all add: Let_def)

lemma tenant_loop_nth:
  "i < length ds \<Longrightarrow> text_of (tenant_loop si ds t txt ! i) ''tenants'' = itoa (t + sum_list (take (Suc i) ds))"
proof (induction ds arbitrary: i t "txt")
  case (Cons d ds)
  then show ?case
    by (cases i) (simp_all add: Let_def UpdateSysInfo_def text_of_def add.assoc)
qed simp

text \<open>The number of tenants that is published after each change is the number of sessions that were open, however the
  changes of concurrent sessions and the periodic updates are ordered; once every session has ended, the
  first number is published again.\<close>

lemma tenants_published:
  assumes "mset (filter (\<lambda>d. d \<noteq> 0) deltas) = mset (concat (map (\<lambda>s. snd (wrapped_handler handle s)) sessions))"
    and "i < length deltas"
  shows "text_of (tenant_loop si deltas t txt ! i) ''tenants'' = itoa (t + sum_list (take (Suc i) deltas)) \<and>
    text_of (tenant_loop si deltas t txt ! (length deltas - 1)) ''tenants'' = itoa t"
proof -
  have "sum_list (filter (\<lambda>d. d \<noteq> 0) deltas) = sum_list (concat (map (\<lambda>s. snd (wrapped_handler handle s)) sessions))"
    using assms(1) by (metis sum_mset_sum_list)
  moreover have "sum_list (filter (\<lambda>d. d \<noteq> 0) deltas) = sum_list deltas" by (induction deltas) auto
  moreover have "sum_list (concat (map (\<lambda>s. snd (wrapped_handler handle s)) sessions)) = 0"
    by (induction sessions) (simp_all add: wrapped_handler_def)
  ultimately have "sum_list deltas = 0" by simp
  with assms(2) show ?thesis by (cases deltas rule: rev_cases) (simp_all add: tenant_loop_nth)
qed

theorem tenants_published_witness:
  "text_of (tenant_loop \<lparr>si_mem = Inl ErrNotExist, si_cpu = Inl ErrNotExist\<rparr> [1, 0, 1, -1, -1] 0 Map.empty ! 2) ''tenants'' = itoa 2"
  using tenants_published [of "[1, 0, 1, -1, -1]" "\<lambda>s. s" "[1 :: nat, 2]" 2 "\<lparr>si_mem = Inl ErrNotExist, si_cpu = Inl ErrNotExist\<rparr>" 0 Map.empty]
  by (simp add: wrapped_handler_def add_mset_commute)

lemma text_of_default:
  "text_of (default_text k v m) k' = (if k' = k \<and> text_of m k = [] then v else text_of m k')"
  by (auto simp: default_text_def text_of_def)

lemma text_of_tenants: "text_of (UpdateSysInfo si t m) ''tenants'' = itoa t"
  by (simp add: UpdateSysInfo_def text_of_def Let_def)

lemma text_of_update:
  "k \<notin> {''mem.avail'', ''mem.total'', ''cpu.pcnt'', ''tenants''} \<Longrightarrow> text_of (UpdateSysInfo si t m) k = text_of m k"
  by (auto simp: UpdateSysInfo_def text_of_def Let_def split: sum.splits prod.splits)

text \<open>What is registered always names the architecture, the system, the cores and the number of tenants; a text of the
  command line wins over the default unless it is empty, and the number of tenants over the command line.\<close>

lemma servemDNS_registers:
  assumes "servemDNS x t atoi port dsInstance dsDomain dsService dsInterface dsTxtStr handle = Inr (cfg, h)"
  shows "atoi port = Inr (sc_Port cfg) \<and> sc_Type cfg = dsService \<and> sc_Domain cfg = dsDomain \<and>
    text_of (sc_Text cfg) ''tenants'' = itoa t \<and>
    (\<forall>(k, v) \<in> {(''arch'', de_arch x), (''os'', de_os x), (''cores'', show_nat (de_ncpu x))}.
       text_of (sc_Text cfg) k = (if text_of (ParseKv dsTxtStr) k = [] then v else text_of (ParseKv dsTxtStr) k)) \<and>
    (\<forall>s. fst (h s) = handle s)"
proof -
  have c: "atoi port = Inr (sc_Port cfg)" "sc_Type cfg = dsService" "sc_Domain cfg = dsDomain"
    "sc_Text cfg = UpdateSysInfo (de_sysinfo x) t (DefaultTxt (de_arch x) (de_os x) (de_ncpu x) (ParseKv dsTxtStr))"
    "h = wrapped_handler handle"
    using assms by (auto simp: servemDNS_def Register_def Let_def split: sum.splits option.splits)
  show ?thesis unfolding c(1) c(2) c(3) c(4) c(5) DefaultTxt_def
    by (simp add: text_of_default text_of_update text_of_tenants wrapped_handler_def)
qed

theorem servemDNS_registers_witness:
  "\<exists>cfg h. servemDNS \<lparr>de_hostname = Inr ''node'', de_arch = ''arm64'', de_os = ''linux'', de_ncpu = 4,
       de_sysinfo = \<lparr>si_mem = Inr (1, 2), si_cpu = Inl ErrNotExist\<rparr>, de_responder = None, de_service = (\<lambda>c. None)\<rparr>
       0 (\<lambda>s. Inr 17010) ''17010'' [] ''local'' ''_ncpu._tcp'' [] ''arch=riscv64,tenants=9'' (\<lambda>s :: nat. s) = Inr (cfg, h) \<and>
     text_of (sc_Text cfg) ''arch'' = ''riscv64'' \<and> text_of (sc_Text cfg) ''tenants'' = itoa 0"
proof -
  let ?x = "\<lparr>de_hostname = Inr ''node'', de_arch = ''arm64'', de_os = ''linux'', de_ncpu = 4,
       de_sysinfo = \<lparr>si_mem = Inr (1, 2), si_cpu = Inl ErrNotExist\<rparr>, de_responder = None, de_service = (\<lambda>c. None)\<rparr>"
  obtain cfg h where "servemDNS ?x 0 (\<lambda>s. Inr 17010) ''17010'' [] ''local'' ''_ncpu._tcp'' [] ''arch=riscv64,tenants=9'' (\<lambda>s :: nat. s) = Inr (cfg, h)"
    by (simp add: servemDNS_def Register_def Let_def)
  from this servemDNS_registers [OF this] show ?thesis
    by (auto simp: ParseKv_def splitn2_def text_of_def)
qed

end
