(* ===== verification/Tenants.thy ===== *)
theory Tenants
  imports DnsSd
begin

text \<open>
  The goroutines that keep the number of tenants of a cpud that is announced by DNS service discovery: the sessions, which send
  1 and -1 around the work of the ssh server (\<open>handleWrapper.handler\<close> in \<open>cmds/cpud/main_mdns_linux.go\<close>), the one that
  sends 0 every minute, and the one that receives (\<open>Register\<close> and \<open>Tenant\<close> in \<open>ds/ds.go\<close>). They share a channel
  that holds one change; a send to it waits while it is full. The interleavings are a step relation.
\<close>

section \<open>States and steps\<close>

text \<open>A session waits to send its 1, works, and is over once it has sent its -1.\<close>

datatype session_phase = Arriving | Working | Over

text \<open>A session goes through its phases in this order.\<close>

instantiation session_phase :: linorder
begin

fun phase_number :: "session_phase \<Rightarrow> nat" where
  "phase_number Arriving = 0"
| "phase_number Working = 1"
| "phase_number Over = 2"

definition less_eq_session_phase :: "session_phase \<Rightarrow> session_phase \<Rightarrow> bool" where
  "less_eq_session_phase a b = (phase_number a \<le> phase_number b)"

definition less_session_phase :: "session_phase \<Rightarrow> session_phase \<Rightarrow> bool" where
  "less_session_phase a b = (phase_number a < phase_number b)"

instance
proof
  fix a b :: session_phase
  assume "a \<le> b" and "b \<le> a"
  then show "a = b" by (cases a; cases b) (simp_all add: less_eq_session_phase_def)
qed (auto simp: less_eq_session_phase_def less_session_phase_def)

end

text \<open>
  \<open>tn_started\<close> says that the goroutines run, which is a second after the registration, \<open>tn_handle\<close> that the responder gave them a
  handle, and \<open>tn_dead\<close> that the program has died of a nil handle.
\<close>

record tenant_state =
  tn_sessions :: "session_phase list"
  tn_chan :: "u64 option"
  tn_started :: bool
  tn_handle :: bool
  tn_tenants :: u64
  tn_txt :: texts
  tn_published :: "texts list"
  tn_dead :: bool

text \<open>\<open>Tenant\<close>, when the channel has room.\<close>

definition send :: "u64 \<Rightarrow> tenant_state \<Rightarrow> tenant_state option" where
  "send d s = (if tn_dead s \<or> tn_chan s \<noteq> None then None else Some (s\<lparr>tn_chan := Some d\<rparr>))"

definition set_phase :: "nat \<Rightarrow> session_phase \<Rightarrow> tenant_state \<Rightarrow> tenant_state" where
  "set_phase i ph s = s\<lparr>tn_sessions := (tn_sessions s)[i := ph]\<rparr>"

text \<open>The round of the receiver.\<close>

definition receive :: "sysinfo \<Rightarrow> tenant_state \<Rightarrow> tenant_state option" where
  "receive si s =
     (if tn_dead s \<or> \<not> tn_started s then None
      else case tn_chan s of
        None \<Rightarrow> None
      | Some delta \<Rightarrow>
          (let t = tn_tenants s + delta;
               txt' = UpdateSysInfo si t (tn_txt s);
               s' = s\<lparr>tn_chan := None, tn_tenants := t, tn_txt := txt'\<rparr>
           in Some (if tn_handle s then s'\<lparr>tn_published := tn_published s @ [txt']\<rparr> else s'\<lparr>tn_dead := True\<rparr>)))"

inductive tenant_step :: "tenant_state \<Rightarrow> tenant_state \<Rightarrow> bool" where
  connect: "\<not> tn_dead s \<Longrightarrow> tenant_step s (s\<lparr>tn_sessions := tn_sessions s @ [Arriving]\<rparr>)"
| enter: "i < length (tn_sessions s) \<Longrightarrow> tn_sessions s ! i = Arriving \<Longrightarrow> send 1 s = Some s' \<Longrightarrow>
    tenant_step s (set_phase i Working s')"
| leave: "i < length (tn_sessions s) \<Longrightarrow> tn_sessions s ! i = Working \<Longrightarrow> send (-1) s = Some s' \<Longrightarrow>
    tenant_step s (set_phase i Over s')"
| start: "\<not> tn_dead s \<Longrightarrow> \<not> tn_started s \<Longrightarrow> tenant_step s (s\<lparr>tn_started := True, tn_handle := h\<rparr>)"
| tick: "tn_started s \<Longrightarrow> send 0 s = Some s' \<Longrightarrow> tenant_step s s'"
| receive: "receive si s = Some s' \<Longrightarrow> tenant_step s s'"

inductive_cases tenant_stepE [elim!]: "tenant_step s s'"

text \<open>The state after \<open>Register\<close>, with the number of tenants and the texts it published.\<close>

definition tenant_init :: "u64 \<Rightarrow> texts \<Rightarrow> tenant_state" where
  "tenant_init t txt = \<lparr>tn_sessions = [], tn_chan = None, tn_started = False, tn_handle = False, tn_tenants = t, tn_txt = txt,
     tn_published = [], tn_dead = False\<rparr>"

inductive tenant_reach :: "u64 \<Rightarrow> texts \<Rightarrow> tenant_state \<Rightarrow> bool" for t0 txt0 where
  init: "tenant_reach t0 txt0 (tenant_init t0 txt0)"
| step: "tenant_reach t0 txt0 s \<Longrightarrow> tenant_step s s' \<Longrightarrow> tenant_reach t0 txt0 s'"

section \<open>The invariant\<close>

abbreviation working :: "tenant_state \<Rightarrow> nat" where
  "working s \<equiv> count_list (tn_sessions s) Working"

definition pending :: "tenant_state \<Rightarrow> u64" where
  "pending s = (case tn_chan s of None \<Rightarrow> 0 | Some d \<Rightarrow> d)"

definition tenants_ok :: "u64 \<Rightarrow> tenant_state \<Rightarrow> bool" where
  "tenants_ok t0 s =
     (tn_tenants s + pending s = t0 + of_nat (working s) \<and> pending s \<in> {-1, 0, 1} \<and>
      (\<not> tn_dead s \<and> tn_published s \<noteq> [] \<longrightarrow> text_of (last (tn_published s)) ''tenants'' = itoa (tn_tenants s)) \<and>
      (\<not> tn_started s \<longrightarrow> tn_tenants s = t0 \<and> tn_published s = [] \<and> tn_chan s \<in> {None, Some 1} \<and>
         working s = (if tn_chan s = None then 0 else 1)))"

lemma count_list_update:
  "i < length xs \<Longrightarrow> count_list (xs[i := y]) x + (if xs ! i = x then 1 else 0) = count_list xs x + (if y = x then 1 else 0)"
proof (induction xs arbitrary: i)
  case (Cons a xs)
  show ?case
  proof (cases i)
    case (Suc j)
    with Cons.IH [of j] Cons.prems show ?thesis by (cases "y = x") (auto split: if_splits)
  qed simp
qed simp

lemma working_enter:
  "i < length (tn_sessions s) \<Longrightarrow> tn_sessions s ! i = Arriving \<Longrightarrow> working (set_phase i Working s) = working s + 1"
  using count_list_update [of i "tn_sessions s" Working Working] by (simp add: set_phase_def)

lemma working_leave:
  "i < length (tn_sessions s) \<Longrightarrow> tn_sessions s ! i = Working \<Longrightarrow> working (set_phase i Over s) + 1 = working s"
  using count_list_update [of i "tn_sessions s" Over Working] by (simp add: set_phase_def)

lemma set_phase_simps [simp]:
  "tn_chan (set_phase i ph s) = tn_chan s" "tn_started (set_phase i ph s) = tn_started s" "tn_handle (set_phase i ph s) = tn_handle s"
  "tn_tenants (set_phase i ph s) = tn_tenants s" "tn_txt (set_phase i ph s) = tn_txt s"
  "tn_published (set_phase i ph s) = tn_published s" "tn_dead (set_phase i ph s) = tn_dead s"
  by (simp_all add: set_phase_def)

lemma send_Some: "send d s = Some s' \<longleftrightarrow> \<not> tn_dead s \<and> tn_chan s = None \<and> s' = s\<lparr>tn_chan := Some d\<rparr>"
  by (auto simp: send_def)

lemma receive_Some:
  "receive si s = Some s' \<longleftrightarrow> \<not> tn_dead s \<and> tn_started s \<and> (\<exists>d. tn_chan s = Some d \<and>
     (let t = tn_tenants s + d; txt' = UpdateSysInfo si t (tn_txt s); s1 = s\<lparr>tn_chan := None, tn_tenants := t, tn_txt := txt'\<rparr>
      in s' = (if tn_handle s then s1\<lparr>tn_published := tn_published s @ [txt']\<rparr> else s1\<lparr>tn_dead := True\<rparr>)))"
  by (auto simp: receive_def Let_def split: option.splits)

lemma tenant_step_ok:
  assumes "tenant_step s s'" and "tenants_ok t0 s"
  shows "tenants_ok t0 s'"
  using assms
proof (induction rule: tenant_step.induct)
  case (connect s)
  then show ?case by (simp add: tenants_ok_def pending_def)
next
  case (enter i s s')
  then have s': "s' = s\<lparr>tn_chan := Some 1\<rparr>" "tn_chan s = None" "\<not> tn_dead s" by (simp_all add: send_Some)
  have "working (set_phase i Working s') = working s + 1" using working_enter [of i s'] enter s' by simp
  with enter.prems s' show ?case by (auto simp: tenants_ok_def pending_def)
next
  case (leave i s s')
  then have s': "s' = s\<lparr>tn_chan := Some (-1)\<rparr>" "tn_chan s = None" "\<not> tn_dead s" by (simp_all add: send_Some)
  have w: "working (set_phase i Over s') + 1 = working s" using working_leave [of i s'] leave s' by simp
  then have "(of_nat (working s) :: u64) = of_nat (working (set_phase i Over s')) + 1" by (metis of_nat_1 of_nat_add)
  moreover from w have "tn_started s" using leave.prems s'(2) by (auto simp: tenants_ok_def)
  ultimately show ?case using leave.prems s' by (auto simp: tenants_ok_def pending_def)
next
  case (start s h)
  then show ?case by (auto simp: tenants_ok_def pending_def)
next
  case (tick s s')
  then show ?case by (auto simp: tenants_ok_def pending_def send_Some)
next
  case (receive si s s')
  then obtain d where d: "tn_chan s = Some d" "\<not> tn_dead s" "tn_started s" by (auto simp: receive_Some)
  let ?t = "tn_tenants s + d"
  let ?x = "UpdateSysInfo si ?t (tn_txt s)"
  let ?s = "s\<lparr>tn_chan := None, tn_tenants := ?t, tn_txt := ?x\<rparr>"
  have s': "s' = (if tn_handle s then ?s\<lparr>tn_published := tn_published s @ [?x]\<rparr> else ?s\<lparr>tn_dead := True\<rparr>)"
    using receive.hyps d by (simp add: receive_def Let_def)
  have "?t = t0 + of_nat (working s)" using receive.prems d by (simp add: tenants_ok_def pending_def)
  with d show ?case unfolding s' by (cases "tn_handle s") (simp_all add: tenants_ok_def pending_def text_of_tenants)
qed

lemma tenant_reach_ok: "tenant_reach t0 txt0 s \<Longrightarrow> tenants_ok t0 s"
proof (induction rule: tenant_reach.induct)
  case init
  show ?case by (simp add: tenants_ok_def tenant_init_def pending_def)
qed (rule tenant_step_ok)

text \<open>No step takes a session back, and none forgets one.\<close>

lemma sessions_go_forward:
  assumes "tenant_step s s'" and "i < length (tn_sessions s)"
  shows "i < length (tn_sessions s') \<and> tn_sessions s ! i \<le> tn_sessions s' ! i"
  using assms
  by (auto simp: set_phase_def send_Some receive_Some Let_def nth_append nth_list_update less_eq_session_phase_def)

section \<open>Properties\<close>

text \<open>C13: The number of tenants that is announced follows the number of sessions that work. However sessions, the clock and
  the receiver are interleaved, the count and the one change that may be in the channel make up the first count and the sessions
  that work; a change is 1, 0 or -1, so the count is never off by more than one; and the last number that was published is the count. Until
  the receiver has started, no more than one session gets to work.\<close>

theorem tenants_follow_sessions:
  assumes "tenant_reach t0 txt0 s"
  shows "tn_tenants s + pending s = t0 + of_nat (count_list (tn_sessions s) Working) \<and> pending s \<in> {-1, 0, 1} \<and>
    (\<not> tn_dead s \<and> tn_published s \<noteq> [] \<longrightarrow> text_of (last (tn_published s)) ''tenants'' = itoa (tn_tenants s)) \<and>
    (\<not> tn_started s \<longrightarrow> count_list (tn_sessions s) Working \<le> 1)"
  using tenant_reach_ok [OF assms] by (auto simp: tenants_ok_def)

text \<open>Two sessions arrive before the receiver runs; the second has to wait for it.\<close>

definition sample_si :: sysinfo where
  "sample_si = \<lparr>si_mem = Inl ErrNotExist, si_cpu = Inl ErrNotExist\<rparr>"

definition sample_tenants :: tenant_state where
  "sample_tenants = \<lparr>tn_sessions = [Working, Arriving], tn_chan = Some 1, tn_started = True, tn_handle = True, tn_tenants = 0,
     tn_txt = Map.empty, tn_published = [], tn_dead = False\<rparr>"

lemma sample_tenants_reach: "tenant_reach 0 Map.empty sample_tenants"
proof -
  let ?s0 = "tenant_init 0 Map.empty"
  let ?s1 = "?s0\<lparr>tn_sessions := tn_sessions ?s0 @ [Arriving]\<rparr>"
  let ?s2 = "?s1\<lparr>tn_sessions := tn_sessions ?s1 @ [Arriving]\<rparr>"
  let ?s3 = "set_phase 0 Working (?s2\<lparr>tn_chan := Some 1\<rparr>)"
  have "tenant_reach 0 Map.empty ?s1" by (rule tenant_reach.step [OF tenant_reach.init connect]) (simp add: tenant_init_def)
  then have "tenant_reach 0 Map.empty ?s2" by (rule tenant_reach.step [OF _ connect]) (simp add: tenant_init_def)
  then have "tenant_reach 0 Map.empty ?s3" by (rule tenant_reach.step [OF _ enter]) (simp_all add: tenant_init_def send_Some)
  then have "tenant_reach 0 Map.empty (?s3\<lparr>tn_started := True, tn_handle := True\<rparr>)"
    by (rule tenant_reach.step [OF _ start]) (simp_all add: tenant_init_def)
  then show ?thesis by (simp add: tenant_init_def set_phase_def sample_tenants_def)
qed

theorem tenants_follow_sessions_witness:
  "\<exists>s. tenant_reach 0 Map.empty s \<and> tn_tenants s = 1 \<and> count_list (tn_sessions s) Working = 1 \<and>
     text_of (last (tn_published s)) ''tenants'' = itoa 1"
proof -
  obtain s where s: "receive sample_si sample_tenants = Some s" by (simp add: receive_def sample_tenants_def Let_def)
  then have r: "tenant_reach 0 Map.empty s" by (rule tenant_reach.step [OF sample_tenants_reach tenant_step.receive])
  have v: "tn_tenants s = 1" "tn_sessions s = [Working, Arriving]" "tn_published s \<noteq> []" "\<not> tn_dead s"
    using s by (auto simp: receive_def sample_tenants_def Let_def)
  from tenants_follow_sessions [OF r] v r show ?thesis by (intro exI [of _ s]) simp
qed

text \<open>With a receiver that runs no session waits for ever: one that has arrived can go to work at once, or after the receiver has
  taken the change that is in the channel.\<close>

lemma arriving_can_enter:
  assumes "tn_started s" and "tn_handle s" and "\<not> tn_dead s"
    and "i < length (tn_sessions s)" and "tn_sessions s ! i = Arriving"
  shows "\<exists>s1 s2. (s1 = s \<or> tenant_step s s1) \<and> tenant_step s1 s2 \<and> tn_sessions s2 ! i = Working"
proof (cases "tn_chan s")
  case None
  then have "send 1 s = Some (s\<lparr>tn_chan := Some 1\<rparr>)" using assms(3) by (simp add: send_Some)
  from enter [OF assms(4,5) this] assms(4) show ?thesis
    by (intro exI [of _ s] exI [of _ "set_phase i Working (s\<lparr>tn_chan := Some 1\<rparr>)"]) (simp add: set_phase_def)
next
  case (Some d)
  then obtain s1 where r: "receive sample_si s = Some s1" using assms(1-3) by (simp add: receive_def Let_def)
  then have s1: "tn_chan s1 = None" "\<not> tn_dead s1" "tn_sessions s1 = tn_sessions s"
    using assms(1-3) Some by (auto simp: receive_def Let_def)
  then have "send 1 s1 = Some (s1\<lparr>tn_chan := Some 1\<rparr>)" by (simp add: send_Some)
  from enter [OF _ _ this, of i] s1 assms(4,5) have "tenant_step s1 (set_phase i Working (s1\<lparr>tn_chan := Some 1\<rparr>))" by simp
  with tenant_step.receive [OF r] assms(4) s1 show ?thesis
    by (intro exI [of _ s1] exI [of _ "set_phase i Working (s1\<lparr>tn_chan := Some 1\<rparr>)"]) (simp add: set_phase_def)
qed

text \<open>Without a handle, as the responder gives none when it fails, the first change that is received ends the program, and the clock
  sends one whenever no session does.\<close>

lemma no_handle_dies:
  "receive si s = Some s' \<Longrightarrow> \<not> tn_handle s \<Longrightarrow> tn_dead s' \<and> \<not> tenant_step s' s''"
  by (auto simp: receive_Some Let_def send_Some)

end
