(* ===== verification/Mount.thy ===== *)
theory Mount
  imports GoStrings
begin

text \<open>
  Mounting an fstab, \<open>mount/mount.go\<close> and \<open>mount/mount_linux.go\<close>: the option table, \<open>parse\<close>
  and the loop of \<open>mount\<close> over the lines. The constants of the \<open>unix\<close> package are a parameter,
  \<open>ms ''MS_BIND''\<close> and so on, \<open>linux_ms\<close> being the numbers of the Linux interface. The mount
  system call and \<open>filepath.EvalSymlinks\<close> are parameters over a world \<open>'w\<close>, as a mount
  changes what later lines resolve to.
\<close>

unbundle bit_operations_syntax

section \<open>Options\<close>

text \<open>The table of \<open>mount.go\<close> with the entries \<open>init\<close> of \<open>mount_linux.go\<close> adds.\<close>

definition convert :: "(string \<Rightarrow> u64) \<Rightarrow> (string \<times> u64) list" where
  "convert ms =
    [(''async'', ms ''MS_ASYNC''), (''invalidate'', ms ''MS_INVALIDATE''), (''rw'', 0),
     (''sync'', ms ''MS_SYNC''),
     (''active'', ms ''MS_ACTIVE''), (''bind'', ms ''MS_BIND''), (''born'', ms ''MS_BORN''),
     (''dirsync'', ms ''MS_DIRSYNC''), (''i_version'', ms ''MS_I_VERSION''),
     (''kernmount'', ms ''MS_KERNMOUNT''), (''lazytime'', ms ''MS_LAZYTIME''),
     (''mandlock'', ms ''MS_MANDLOCK''), (''mgc_MSK'', ms ''MS_MGC_MSK''),
     (''mgc_val'', ms ''MS_MGC_VAL''), (''move'', ms ''MS_MOVE''), (''noatime'', ms ''MS_NOATIME''),
     (''nodev'', ms ''MS_NODEV''), (''nodiratime'', ms ''MS_NODIRATIME''),
     (''noexec'', ms ''MS_NOEXEC''), (''noremotelock'', ms ''MS_NOREMOTELOCK''),
     (''nosec'', ms ''MS_NOSEC''), (''nosuid'', ms ''MS_NOSUID''),
     (''nosymfollow'', ms ''MS_NOSYMFOLLOW''), (''posixacl'', ms ''MS_POSIXACL''),
     (''private'', ms ''MS_PRIVATE''), (''rdonly'', ms ''MS_RDONLY''), (''rec'', ms ''MS_REC''),
     (''relatime'', ms ''MS_RELATIME''), (''remount'', ms ''MS_REMOUNT''),
     (''rmt_mask'', ms ''MS_RMT_MASK''), (''ro'', ms ''MS_RDONLY''), (''shared'', ms ''MS_SHARED''),
     (''silent'', ms ''MS_SILENT''), (''slave'', ms ''MS_SLAVE''),
     (''strictatime'', ms ''MS_STRICTATIME''), (''submount'', ms ''MS_SUBMOUNT''),
     (''synchronous'', ms ''MS_SYNCHRONOUS''), (''unbindable'', ms ''MS_UNBINDABLE''),
     (''verbose'', ms ''MS_VERBOSE'')]"

definition ignored :: "string list" where
  "ignored = [''blkio'', ''nouser'']"

text \<open>The loop of \<open>parse\<close> over a table: the flags and the options kept so far.\<close>

fun parse_with :: "(string \<times> u64) list \<Rightarrow> string list \<Rightarrow> u64 \<Rightarrow> string list \<Rightarrow> u64 \<times> string" where
  "parse_with tbl [] flags opts = (flags, join_with '','' opts)"
| "parse_with tbl (f # fs) flags opts =
     (if f = ''defaults'' then parse_with tbl fs flags opts
      else case map_of tbl f of
        Some v \<Rightarrow> parse_with tbl fs (flags OR v) opts
      | None \<Rightarrow>
          if f \<notin> set ignored then parse_with tbl fs flags (opts @ [f])
          else parse_with tbl fs flags opts)"

abbreviation parse_loop :: "(string \<Rightarrow> u64) \<Rightarrow> string list \<Rightarrow> u64 \<Rightarrow> string list \<Rightarrow> u64 \<times> string" where
  "parse_loop ms \<equiv> parse_with (convert ms)"

definition parse :: "(string \<Rightarrow> u64) \<Rightarrow> string \<Rightarrow> u64 \<times> string" where
  "parse ms m = parse_loop ms (split_on CHR '','' (trim_space m)) 0 []"

section \<open>The mount loop\<close>

type_synonym 'w mounter = "string \<Rightarrow> string \<Rightarrow> string \<Rightarrow> u64 \<Rightarrow> string \<Rightarrow> 'w \<Rightarrow> goerror option \<times> 'w"

text \<open>A line's fields, if it is one to mount.\<close>

definition mount_fields :: "string \<Rightarrow> string list option" where
  "mount_fields l =
     (if has_prefix l ''#'' then None
      else let f = fields l in if length f < 6 then None else Some f)"

definition eval_or_same :: "('w \<Rightarrow> string \<Rightarrow> goerror + string) \<Rightarrow> 'w \<Rightarrow> string \<Rightarrow> string" where
  "eval_or_same evs w p = (case evs w p of Inl _ \<Rightarrow> p | Inr q \<Rightarrow> q)"

definition mount_error ::
    "string \<Rightarrow> string \<Rightarrow> string \<Rightarrow> string \<Rightarrow> string \<Rightarrow> goerror \<Rightarrow> goerror" where
  "mount_error dev dir fstype opts data e =
     Wrapf ''Mount(%q, %q, %q, %q=>(%#x, %q)): %w'' [dev, dir, fstype, opts, data] (Some e)"

fun mount_lines :: "(string \<Rightarrow> u64) \<Rightarrow> ('w \<Rightarrow> string \<Rightarrow> goerror + string) \<Rightarrow> 'w mounter
    \<Rightarrow> string list \<Rightarrow> goerror option \<Rightarrow> 'w \<Rightarrow> goerror option \<times> 'w" where
  "mount_lines ms evs m [] err w = (err, w)"
| "mount_lines ms evs m (l # ls) err w =
     (case mount_fields l of
        None \<Rightarrow> mount_lines ms evs m ls err w
      | Some f \<Rightarrow>
          (let dir = eval_or_same evs w (f ! 1);
               dev = eval_or_same evs w (f ! 0);
               fstype = f ! 2;
               opts = f ! 3
           in case parse ms opts of
                (flags, data) \<Rightarrow>
                  (case m dev dir fstype flags data w of
                     (Some e, w') \<Rightarrow>
                       mount_lines ms evs m ls
                         (errors_join [err, Some (mount_error dev dir fstype opts data e)]) w'
                   | (None, w') \<Rightarrow> mount_lines ms evs m ls err w')))"

definition mount :: "(string \<Rightarrow> u64) \<Rightarrow> ('w \<Rightarrow> string \<Rightarrow> goerror + string) \<Rightarrow> 'w mounter
    \<Rightarrow> string \<Rightarrow> 'w \<Rightarrow> goerror option \<times> 'w" where
  "mount ms evs m fstab w = mount_lines ms evs m (scan_lines fstab) None w"

text \<open>\<open>Mount\<close> uses the system call, \<open>unix_mount\<close>.\<close>

definition Mount_fstab :: "(string \<Rightarrow> u64) \<Rightarrow> ('w \<Rightarrow> string \<Rightarrow> goerror + string) \<Rightarrow> 'w mounter
    \<Rightarrow> string \<Rightarrow> 'w \<Rightarrow> goerror option \<times> 'w" where
  "Mount_fstab ms evs unix_mount fstab w = mount ms evs unix_mount fstab w"

section \<open>What parse computes\<close>

definition known_option :: "string \<Rightarrow> bool" where
  "known_option f = (f = ''defaults'' \<or> f \<in> set (map fst (convert (\<lambda>_. 0))) \<or> f \<in> set ignored)"

definition option_flag :: "(string \<Rightarrow> u64) \<Rightarrow> string \<Rightarrow> u64" where
  "option_flag ms f = (case map_of (convert ms) f of None \<Rightarrow> 0 | Some v \<Rightarrow> v)"

definition or_all :: "u64 list \<Rightarrow> u64" where
  "or_all vs = foldr (OR) vs 0"

lemma convert_keys: "map fst (convert ms) = map fst (convert (\<lambda>_. 0))"
  by (simp add: convert_def)

lemma convert_None_iff: "map_of (convert ms) f = None \<longleftrightarrow> f \<notin> set (map fst (convert (\<lambda>_. 0)))"
  unfolding map_of_eq_None_iff set_map [symmetric] convert_keys [of ms] by (rule refl)

lemma defaults_not_converted: "map_of (convert ms) ''defaults'' = None"
  by (simp add: convert_def)

lemma ignored_not_converted: "f \<in> set ignored \<Longrightarrow> map_of (convert ms) f = None"
proof -
  assume "f \<in> set ignored"
  moreover have "list_all (\<lambda>f. f \<notin> set (map fst (convert (\<lambda>_. 0)))) ignored" by code_simp
  ultimately show ?thesis unfolding convert_None_iff list_all_iff by blast
qed

lemma parse_loop_spec:
  "parse_loop ms fs flags opts =
    (flags OR or_all (map (option_flag ms) fs), join_with '','' (opts @ filter (\<lambda>f. \<not> known_option f) fs))"
proof (induction fs arbitrary: flags opts)
  case (Cons f fs)
  show ?case
  proof (cases "f = ''defaults''")
    case True
    then have "option_flag ms f = 0" "known_option f"
      by (simp_all add: option_flag_def defaults_not_converted known_option_def)
    with True Cons show ?thesis by (simp add: or_all_def)
  next
    case False
    show ?thesis
    proof (cases "map_of (convert ms) f")
      case None
      then have "option_flag ms f = 0" "known_option f \<longleftrightarrow> f \<in> set ignored"
        using False convert_None_iff [of ms f] by (auto simp: option_flag_def known_option_def)
      with None False Cons show ?thesis by (simp add: or_all_def)
    next
      case (Some v)
      then have "option_flag ms f = v" "known_option f"
        using convert_None_iff [of ms f] by (auto simp: option_flag_def known_option_def)
      with Some False Cons show ?thesis by (simp add: or_all_def or.assoc)
    qed
  qed
qed (simp add: or_all_def)

lemma parse_spec:
  "parse ms m = (or_all (map (option_flag ms) (split_on CHR '','' (trim_space m))),
                 join_with '','' (filter (\<lambda>f. \<not> known_option f) (split_on CHR '','' (trim_space m))))"
  by (simp add: parse_def parse_loop_spec)

lemma or_all_bit: "bit (or_all vs) n \<longleftrightarrow> (\<exists>v \<in> set vs. bit v n)"
  by (induction vs) (auto simp: or_all_def bit_or_iff)

lemma or_all_set: "set vs = set ws \<Longrightarrow> or_all vs = or_all ws"
  by (rule bit_eqI) (simp add: or_all_bit)

lemma trim_space_word: "word_like s \<or> s = [] \<Longrightarrow> trim_space s = s"
proof -
  have dw: "dropWhile is_space t = t" if "list_all (\<lambda>x. \<not> is_space x) t" for t
    using that by (cases t) auto
  assume "word_like s \<or> s = []"
  then have "list_all (\<lambda>x. \<not> is_space x) s" by (auto simp: word_like_def)
  moreover from this have "list_all (\<lambda>x. \<not> is_space x) (rev s)" by (simp add: list_all_iff)
  ultimately show ?thesis by (simp add: trim_space_def dw)
qed

section \<open>Lines to mount\<close>

lemma mount_lines_skip: "mount_fields l = None \<Longrightarrow> mount_lines ms evs m (l # ls) err w = mount_lines ms evs m ls err w"
  by simp

text \<open>The calls a list of lines asks for when nothing is a symbolic link.\<close>

definition mount_call :: "(string \<Rightarrow> u64) \<Rightarrow> string list \<Rightarrow> string \<times> string \<times> string \<times> u64 \<times> string" where
  "mount_call ms f = (f ! 0, f ! 1, f ! 2, fst (parse ms (f ! 3)), snd (parse ms (f ! 3)))"

definition mount_calls :: "(string \<Rightarrow> u64) \<Rightarrow> string list \<Rightarrow> (string \<times> string \<times> string \<times> u64 \<times> string) list" where
  "mount_calls ms ls = map (mount_call ms) (List.map_filter mount_fields ls)"

type_synonym call_log = "(string \<times> string \<times> string \<times> u64 \<times> string) list"

text \<open>A mounter that records its calls and fails for the given ones.\<close>

definition log_mounter :: "(string \<times> string \<times> string \<times> u64 \<times> string \<Rightarrow> goerror option) \<Rightarrow> call_log mounter" where
  "log_mounter fail dev dir fstype flags data w =
     (fail (dev, dir, fstype, flags, data), w @ [(dev, dir, fstype, flags, data)])"

definition no_links :: "'w \<Rightarrow> string \<Rightarrow> goerror + string" where
  "no_links w p = Inr p"

lemma mount_calls_Cons:
  "mount_calls ms (l # ls) = (case mount_fields l of None \<Rightarrow> [] | Some f \<Rightarrow> [mount_call ms f]) @ mount_calls ms ls"
  by (simp add: mount_calls_def List.map_filter_def split: option.splits)

lemma mount_lines_log:
  "snd (mount_lines ms no_links (log_mounter fail) ls err w) = w @ mount_calls ms ls \<and>
   (fst (mount_lines ms no_links (log_mounter fail) ls err w) = None \<longleftrightarrow>
      err = None \<and> (\<forall>c \<in> set (mount_calls ms ls). fail c = None))"
proof (induction ls arbitrary: err w)
  case Nil
  then show ?case by (simp add: mount_calls_def List.map_filter_def)
next
  case (Cons l ls)
  show ?case
  proof (cases "mount_fields l")
    case None
    with Cons show ?thesis by (simp add: mount_calls_Cons)
  next
    case (Some f)
    obtain fl da where p: "parse ms (f ! 3) = (fl, da)" by force
    let ?c = "(f ! 0, f ! 1, f ! 2, fl, da)"
    let ?e' = "case fail ?c of None \<Rightarrow> err
        | Some e \<Rightarrow> errors_join [err, Some (mount_error (f ! 0) (f ! 1) (f ! 2) (f ! 3) da e)]"
    have step: "mount_lines ms no_links (log_mounter fail) (l # ls) err w =
        mount_lines ms no_links (log_mounter fail) ls ?e' (w @ [?c])"
      using Some p by (simp add: eval_or_same_def no_links_def log_mounter_def Let_def split: option.splits)
    have c: "mount_call ms f = ?c" by (simp add: mount_call_def p)
    show ?thesis
      unfolding step mount_calls_Cons Some option.case c
      using Cons.IH [of ?e' "w @ [?c]"]
      by (cases "fail ?c"; cases err) auto
  qed
qed

section \<open>Properties\<close>

text \<open>The data of a mount contains no flag, and is read back as it is.\<close>

lemma parse_data_again:
  assumes "word_like m"
  shows "parse ms (join_with '','' (filter (\<lambda>f. \<not> known_option f) (split_on CHR '','' m))) =
    (0, join_with '','' (filter (\<lambda>f. \<not> known_option f) (split_on CHR '','' m)))"
proof -
  let ?fs = "split_on CHR '','' m" and ?d = "join_with '','' (filter (\<lambda>f. \<not> known_option f) (split_on CHR '','' m))"
  have "set ?d \<subseteq> set m"
  proof -
    have "set ?d \<subseteq> {CHR '',''} \<union> \<Union> (set ` set (filter (\<lambda>f. \<not> known_option f) ?fs))"
      using set_join_with [of "'',''" "filter (\<lambda>f. \<not> known_option f) ?fs"] by simp
    moreover have "\<Union> (set ` set (filter (\<lambda>f. \<not> known_option f) ?fs)) \<subseteq> set m"
      using set_split_on [of _ "CHR '',''" m] by auto
    moreover have "set ?d \<subseteq> \<Union> (set ` set (filter (\<lambda>f. \<not> known_option f) ?fs))" if "CHR '','' \<notin> set m"
      using that by (simp add: split_on_no_sep)
    ultimately show ?thesis by blast
  qed
  then have "word_like ?d \<or> ?d = []" using assms by (auto simp: word_like_def list_all_iff)
  then have td: "trim_space ?d = ?d" by (rule trim_space_word)
  have unk: "\<not> known_option []" by (simp add: known_option_def convert_def ignored_def)
  have sd: "filter (\<lambda>f. \<not> known_option f) (split_on CHR '','' ?d) = split_on CHR '','' ?d"
  proof (cases "filter (\<lambda>f. \<not> known_option f) ?fs = []")
    case True
    then show ?thesis using unk by simp
  next
    case False
    then have "split_on CHR '','' ?d = filter (\<lambda>f. \<not> known_option f) ?fs"
      using set_split_on [of _ "CHR '',''" m] by (intro split_join) auto
    then show ?thesis by simp
  qed
  have "option_flag ms f = 0" if "\<not> known_option f" for f
    using that convert_None_iff [of ms f] by (simp add: known_option_def option_flag_def)
  then have "\<forall>f \<in> set (split_on CHR '','' ?d). option_flag ms f = 0"
    using sd [unfolded filter_id_conv] by blast
  moreover have "\<forall>x \<in> set xs. g x = 0 \<Longrightarrow> or_all (map g xs) = 0" for xs :: "string list" and g
    by (induction xs) (simp_all add: or_all_def)
  ultimately show ?thesis
    unfolding parse_spec td sd by simp
qed

text \<open>C33: \<open>parse\<close> separates flags from data. The flags are the bitwise or of the table's values
  of the options, in whatever order and however often they occur; the data is the list of the
  options that are neither in the table nor ignored nor \<open>defaults\<close>, in their order, and
  parsing the data again changes nothing and finds no flag.\<close>

theorem parse_flags_and_data:
  assumes "word_like m"
  shows "(bit (fst (parse ms m)) n \<longleftrightarrow> (\<exists>f \<in> set (split_on CHR '','' m). bit (option_flag ms f) n)) \<and>
    snd (parse ms m) = join_with '','' (filter (\<lambda>f. \<not> known_option f) (split_on CHR '','' m)) \<and>
    parse ms (snd (parse ms m)) = (0, snd (parse ms m))"
  using parse_data_again [OF assms, of ms] assms by (simp add: parse_spec trim_space_word or_all_bit)

text \<open>The numbers of the Linux interface: those of mount(2), and those of msync(2) for
  the constants \<open>MS_ASYNC\<close>, \<open>MS_INVALIDATE\<close> and \<open>MS_SYNC\<close>.\<close>

definition linux_ms :: "string \<Rightarrow> u64" where
  "linux_ms n = (case map_of
    [(''MS_ASYNC'', 1), (''MS_INVALIDATE'', 2), (''MS_SYNC'', 4),
     (''MS_RDONLY'', 1), (''MS_NOSUID'', 2), (''MS_NODEV'', 4), (''MS_NOEXEC'', 8),
     (''MS_SYNCHRONOUS'', 0x10), (''MS_REMOUNT'', 0x20), (''MS_MANDLOCK'', 0x40),
     (''MS_DIRSYNC'', 0x80), (''MS_NOSYMFOLLOW'', 0x100), (''MS_NOATIME'', 0x400),
     (''MS_NODIRATIME'', 0x800), (''MS_BIND'', 0x1000), (''MS_MOVE'', 0x2000),
     (''MS_REC'', 0x4000), (''MS_SILENT'', 0x8000), (''MS_VERBOSE'', 0x8000),
     (''MS_POSIXACL'', 0x10000), (''MS_UNBINDABLE'', 0x20000), (''MS_PRIVATE'', 0x40000),
     (''MS_SLAVE'', 0x80000), (''MS_SHARED'', 0x100000), (''MS_RELATIME'', 0x200000),
     (''MS_KERNMOUNT'', 0x400000), (''MS_I_VERSION'', 0x800000),
     (''MS_STRICTATIME'', 0x1000000), (''MS_LAZYTIME'', 0x2000000),
     (''MS_SUBMOUNT'', 0x4000000), (''MS_NOREMOTELOCK'', 0x8000000), (''MS_NOSEC'', 0x10000000),
     (''MS_BORN'', 0x20000000), (''MS_ACTIVE'', 0x40000000), (''MS_RMT_MASK'', 0x2800051),
     (''MS_MGC_VAL'', 0xc0ed0000), (''MS_MGC_MSK'', 0xffff0000)] n of None \<Rightarrow> 0 | Some v \<Rightarrow> v)"

theorem parse_flags_and_data_witness:
  "snd (parse linux_ms ''rw,mode=7,nodev,x'') = ''mode=7,x''"
proof -
  have "word_like ''rw,mode=7,nodev,x''" by code_simp
  moreover have "join_with '','' (filter (\<lambda>f. \<not> known_option f) (split_on CHR '','' ''rw,mode=7,nodev,x'')) = ''mode=7,x''"
    by code_simp
  ultimately show ?thesis using parse_flags_and_data [of "''rw,mode=7,nodev,x''" linux_ms 0] by simp
qed

text \<open>Three options mean something else. The table gives \<open>async\<close>, \<open>invalidate\<close> and \<open>sync\<close>
  the constants of msync(2), whose numbers are those of other mount flags: \<open>async\<close>, a default of
  mount(8), mounts read-only, and \<open>sync\<close> sets \<open>nodev\<close> and not the synchronous flag.\<close>

lemma parse_sync_options:
  "parse linux_ms ''async'' = (linux_ms ''MS_RDONLY'', []) \<and>
   parse linux_ms ''sync'' = (linux_ms ''MS_NODEV'', []) \<and>
   parse linux_ms ''invalidate'' = (linux_ms ''MS_NOSUID'', []) \<and>
   fst (parse linux_ms ''rw,async'') = fst (parse linux_ms ''ro'') \<and>
   fst (parse linux_ms ''sync'') AND linux_ms ''MS_SYNCHRONOUS'' = 0"
  by (intro conjI; code_simp)

text \<open>Every line of an fstab is tried. With a mounter that fails for some calls, \<open>mount\<close>
  makes one call for each line that is no comment and has six fields or more, in the order of
  the lines and whatever failed before, and it returns no error exactly if no call failed.\<close>

lemma mount_tries_every_line:
  "snd (mount ms no_links (log_mounter fail) fstab w) = w @ mount_calls ms (scan_lines fstab) \<and>
   (fst (mount ms no_links (log_mounter fail) fstab w) = None \<longleftrightarrow>
      (\<forall>c \<in> set (mount_calls ms (scan_lines fstab)). fail c = None))"
  unfolding mount_def using mount_lines_log [of ms fail "scan_lines fstab" None w] by blast

theorem mount_tries_every_line_witness:
  "snd (mount linux_ms no_links (log_mounter (\<lambda>c. Some EOF_err)) (''#x'' @ NL # ''a b c ro 0 0'') []) =
     [(''a'', ''b'', ''c'', linux_ms ''MS_RDONLY'', [])] \<and>
   fst (mount linux_ms no_links (log_mounter (\<lambda>c. Some EOF_err)) (''#x'' @ NL # ''a b c ro 0 0'') []) \<noteq> None"
proof -
  have "raw_lines (''#x'' @ NL # ''a b c ro 0 0'') = [''#x'', ''a b c ro 0 0'']" by code_simp
  then have l: "scan_lines (''#x'' @ NL # ''a b c ro 0 0'') = [''#x'', ''a b c ro 0 0'']"
    by (simp add: scan_lines_def max_scan_token_def drop_cr_def)
  have "mount_calls linux_ms [''#x'', ''a b c ro 0 0''] = [(''a'', ''b'', ''c'', linux_ms ''MS_RDONLY'', [])]"
    by code_simp
  note m = this [folded l]
  show ?thesis
    using mount_tries_every_line [of linux_ms "\<lambda>c. Some EOF_err" "''#x'' @ NL # ''a b c ro 0 0''" "[]"]
    unfolding m by simp
qed

text \<open>A long line ends the fstab silently. If a line has 65536 bytes or more, neither it nor any
  line after it is mounted, and \<open>mount\<close> returns what it would return for the lines before it: the
  scanner's error is not looked at.\<close>

lemma mount_stops_at_long_line:
  assumes "raw_lines fstab = ls @ l # rest" and "65536 \<le> length l"
    and "list_all (\<lambda>x. length x < 65536) ls"
  shows "mount ms evs m fstab w = mount_lines ms evs m (map drop_cr ls) None w"
proof -
  have "takeWhile (\<lambda>l. length l < max_scan_token) (raw_lines fstab) = ls"
    using assms by (simp add: max_scan_token_def takeWhile_append list_all_iff)
  then show ?thesis by (simp add: mount_def scan_lines_def)
qed

theorem mount_stops_at_long_line_witness:
  "mount linux_ms no_links (log_mounter (\<lambda>c. None)) (replicate 65536 (CHR ''x'') @ NL # ''a b c ro 0 0'') [] =
     (None, [])"
proof -
  have nl: "NL \<notin> set (replicate n (CHR ''x''))" for n by simp
  have "split_on NL ''a b c ro 0 0'' = [''a b c ro 0 0'']" by code_simp
  then have "raw_lines (replicate n (CHR ''x'') @ NL # ''a b c ro 0 0'') =
      [] @ replicate n (CHR ''x'') # [''a b c ro 0 0'']" for n
    by (simp only: raw_lines_def split_on_append_sep [OF nl]) simp
  note r = this [of 65536]
  have "65536 \<le> length (replicate 65536 (CHR ''x''))" by (simp only: length_replicate)
  from mount_stops_at_long_line [OF r this] show ?thesis by simp
qed

end
