(* ===== verification/BindMounts.thy ===== *)
theory BindMounts
  imports ClientFns Mount
begin

text \<open>
  The name space a client is given, as the server mounts it: \<open>ParseBinds\<close> and \<open>WithNameSpace\<close>
  make the fstab (\<open>client/fns.go\<close>), \<open>mount\<close> reads it back (\<open>mount/mount_linux.go\<close>).
\<close>

section \<open>Binds as mounts\<close>

lemma set_clean_elems:
  "\<forall>c \<in> set st. set c \<subseteq> A \<Longrightarrow> \<forall>c \<in> set cs. set c \<subseteq> A \<Longrightarrow> CHR ''.'' \<in> A
    \<Longrightarrow> c \<in> set (clean_elems r st cs) \<Longrightarrow> set c \<subseteq> A"
proof (induction cs arbitrary: st)
  case (Cons e cs)
  show ?case
  proof (rule Cons.IH)
    let ?st' = "if e = [] \<or> e = DOT then st else if e = DOTDOT then
        (case st of [] \<Rightarrow> if r then [] else [DOTDOT] | s # st' \<Rightarrow> if s = DOTDOT then DOTDOT # st else st')
      else e # st"
    show "\<forall>c \<in> set ?st'. set c \<subseteq> A"
      using Cons.prems by (auto split: list.splits if_splits)
    show "\<forall>c \<in> set cs. set c \<subseteq> A" using Cons.prems by simp
    show "CHR ''.'' \<in> A" by (fact Cons.prems)
    show "c \<in> set (clean_elems r ?st' cs)"
      using Cons.prems(4) by (auto split: list.splits if_splits)
  qed
qed simp

lemma set_path_clean: "set (path_clean p) \<subseteq> insert SLASH (insert (CHR ''.'') (set p))"
proof -
  let ?A = "insert SLASH (insert (CHR ''.'') (set p))"
  have "set c \<subseteq> ?A" if "c \<in> set (clean_elems r [] (split_on SLASH p))" for c r
    using that set_split_on [of _ SLASH p] by (intro set_clean_elems [of "[]" ?A, OF _ _ _ that]) auto
  then have u: "\<Union> (set ` set (clean_elems r [] (split_on SLASH p))) \<subseteq> ?A" for r by blast
  have "set (join_with [SLASH] (clean_elems r [] (split_on SLASH p))) \<subseteq> ?A" for r
    using set_join_with [of "[SLASH]" "clean_elems r [] (split_on SLASH p)"] u [of r] by auto
  then show ?thesis by (auto simp: path_clean_def Let_def)
qed

lemma bind_device:
  assumes "word_like r"
  shows "word_like (path_join [''/tmp'', ''cpu'', r])" and "hd (path_join [''/tmp'', ''cpu'', r]) = SLASH"
proof -
  let ?p = "''/tmp/cpu/'' @ r"
  have j: "path_join [''/tmp'', ''cpu'', r] = path_clean ?p"
    by (simp add: path_join_def)
  have h: "\<exists>t. path_clean ?p = SLASH # t"
    by (simp add: path_clean_def is_abs_def)
  have "\<forall>x \<in> set (path_clean ?p). \<not> is_space x"
    using set_path_clean [of ?p] assms by (fastforce simp: word_like_def list_all_iff is_space_def)
  with h show "word_like (path_join [''/tmp'', ''cpu'', r])" "hd (path_join [''/tmp'', ''cpu'', r]) = SLASH"
    unfolding j by (auto simp: word_like_def list_all_iff)
qed

lemma fields_six:
  assumes "word_like a" "word_like b"
  shows "fields (a @ '' '' @ b @ '' none defaults,bind 0 0'') = [a, b, ''none'', ''defaults,bind'', ''0'', ''0'']"
proof -
  have sp: "is_space (CHR '' '')" by (simp add: is_space_def)
  have "fields (b @ CHR '' '' # ''none defaults,bind 0 0'') = b # fields ''none defaults,bind 0 0''"
    by (rule fields_cons_word [OF assms(2) sp])
  moreover have "fields ''none defaults,bind 0 0'' = [''none'', ''defaults,bind'', ''0'', ''0'']" by code_simp
  ultimately show ?thesis using fields_cons_word [OF assms(1) sp] by simp
qed

text \<open>The line of a bind without its newline.\<close>

abbreviation bind_text :: "string \<Rightarrow> string \<Rightarrow> string" where
  "bind_text l r \<equiv> path_join [''/tmp'', ''cpu'', r] @ '' '' @ l @ '' none defaults,bind 0 0''"

lemma bind_text_mount:
  assumes "word_like l" "word_like r"
  shows "mount_fields (bind_text l r) =
    Some [path_join [''/tmp'', ''cpu'', r], l, ''none'', ''defaults,bind'', ''0'', ''0'']"
proof -
  obtain t where p: "path_join [''/tmp'', ''cpu'', r] = SLASH # t"
    using bind_device [OF assms(2)] by (auto simp: word_like_def) (metis list.collapse)
  have "\<not> has_prefix (bind_text l r) ''#''" by (simp add: p has_prefix_def)
  then show ?thesis
    using fields_six [OF bind_device(1) [OF assms(2)] assms(1)] by (simp add: mount_fields_def Let_def)
qed

lemma bind_text_line:
  assumes "word_like l" "word_like r"
  shows "NL \<notin> set (bind_text l r)" and "drop_cr (bind_text l r) = bind_text l r"
proof -
  have "NL \<notin> set (path_join [''/tmp'', ''cpu'', r])" "NL \<notin> set l"
    using bind_device(1) [OF assms(2)] assms(1) by (auto simp: word_like_def list_all_iff is_space_def)
  then show "NL \<notin> set (bind_text l r)" by simp
  show "drop_cr (bind_text l r) = bind_text l r" by (simp add: drop_cr_def)
qed

lemma parse_bind: "parse ms ''defaults,bind'' = (ms ''MS_BIND'', [])"
proof -
  have "split_on CHR '','' (trim_space ''defaults,bind'') = [''defaults'', ''bind'']" by code_simp
  moreover have "map_of (convert ms) ''bind'' = Some (ms ''MS_BIND'')" by (simp add: convert_def)
  ultimately show ?thesis by (simp add: parse_def)
qed

lemma mount_calls_binds:
  assumes "\<forall>(l, r) \<in> set lrs. word_like l \<and> word_like r \<and> length (bind_text l r) < 65536"
  shows "mount_calls ms (scan_lines (concat (map (case_prod bind_line) lrs))) =
    map (\<lambda>(l, r). (path_join [''/tmp'', ''cpu'', r], l, ''none'', ms ''MS_BIND'', [])) lrs"
proof -
  define ls where "ls = map (case_prod bind_text) lrs"
  have "concat (map (case_prod bind_line) lrs) = concat (map (\<lambda>l. l @ [NL]) ls)"
    by (rule arg_cong [of _ _ concat]) (auto simp: bind_line_def ls_def)
  moreover have "raw_lines (concat (map (\<lambda>l. l @ [NL]) ls)) = ls"
    using assms bind_text_line by (intro raw_lines_concat) (auto simp: ls_def)
  moreover have tw: "takeWhile (\<lambda>l. length l < max_scan_token) ls = ls"
    using assms unfolding takeWhile_eq_all_conv max_scan_token_def by (auto simp: ls_def)
  moreover have "map drop_cr ls = ls"
    using assms bind_text_line(2) by (intro map_idI) (auto simp: ls_def)
  ultimately have "scan_lines (concat (map (case_prod bind_line) lrs)) = ls"
    unfolding scan_lines_def by (simp only: tw)
  moreover have "mount_calls ms (map (case_prod bind_text) lrs) =
      map (\<lambda>(l, r). (path_join [''/tmp'', ''cpu'', r], l, ''none'', ms ''MS_BIND'', [])) lrs"
    using assms
  proof (induction lrs)
    case (Cons lr lrs)
    obtain l r where lr: "lr = (l, r)" by force
    with Cons show ?case
      using bind_text_mount [of l r] by (simp add: mount_calls_Cons mount_call_def parse_bind)
  qed (simp add: mount_calls_def)
  ultimately show ?thesis by (simp add: ls_def)
qed

lemma map_Some_all: "map f xs = map Some ys \<Longrightarrow> list_all (\<lambda>x. f x \<noteq> None) xs"
  by (induction xs arbitrary: ys) (auto simp: Cons_eq_map_conv)



end
