(* ===== verification/Server.thy ===== *)
theory Server
  imports GoStrings
begin

text \<open>
  The ssh server of cpud, the package \<open>server\<close>: the command a session runs, the handler of a
  session, the forwarding of signals and the check of public keys (\<open>server/server.go\<close>,
  \<open>server/server_linux.go\<close>). The ssh library, files and processes are parameters: \<open>'k\<close> is its
  type of keys, and a session is the words, the environment and the terminal it reports.
\<close>

section \<open>Commands\<close>

text \<open>
  An \<open>exec.Cmd\<close>; a nil environment, \<open>None\<close>, is that of the process itself. \<open>ex_newns\<close> says
  that the child gets a private name space (\<open>CLONE_NEWNS\<close>).
\<close>

record exec_cmd =
  ex_path :: string
  ex_args :: "string list"
  ex_env :: "string list option"
  ex_newns :: bool

definition exec_Command :: "string \<Rightarrow> string list \<Rightarrow> exec_cmd" where
  "exec_Command n args = \<lparr>ex_path = n, ex_args = args, ex_env = None, ex_newns = False\<rparr>"

definition command :: "string \<Rightarrow> string list \<Rightarrow> exec_cmd" where
  "command n args = (exec_Command n args)\<lparr>ex_newns := True\<rparr>"

text \<open>\<open>append\<close> to \<open>Env\<close>: nothing appended to nil leaves it nil.\<close>

definition env_add :: "string list option \<Rightarrow> string list \<Rightarrow> string list option" where
  "env_add env es =
     (case env of None \<Rightarrow> if es = [] then None else Some es | Some e \<Rightarrow> Some (e @ es))"

text \<open>\<open>errval\<close>: \<open>txt\<close> is \<open>Error()\<close>.\<close>

definition errval :: "(goerror \<Rightarrow> string) \<Rightarrow> goerror option \<Rightarrow> goerror option" where
  "errval txt err =
     (case err of None \<Rightarrow> None
      | Some e \<Rightarrow> if contains (txt e) ''no child process'' then None else Some e)"

section \<open>Sessions\<close>

record ssh_session =
  ss_command :: "string list"
  ss_environ :: "string list"
  ss_pty :: "string option"

datatype child_signal = SigTerm | SigInt

text \<open>
  One signal of the session: \<open>proc\<close> is what signalling the process returns, \<open>None\<close> if it has
  not been started. The message printed on an error names the first word of the command.
\<close>

definition forward_signal ::
    "string list \<Rightarrow> (child_signal \<Rightarrow> goerror option) option \<Rightarrow> string \<Rightarrow> child_signal option res" where
  "forward_signal a proc sig =
     (let sent = (\<lambda>s. case proc of
            None \<Rightarrow> Panic ''nil pointer dereference''
          | Some p \<Rightarrow>
              (case p s of
                 None \<Rightarrow> Ok (Some s)
               | Some e \<Rightarrow> bind_res (index_slice a 0) (\<lambda>_. Ok (Some s))))
      in if sig = ''TERM'' then sent SigTerm
         else if sig = ''INT'' then sent SigInt
         else bind_res (index_slice a 0) (\<lambda>_. Ok None))"

text \<open>
  The answers of the operating system to one session: starting on a terminal, waiting for the
  child, its exit status, and running without a terminal.
\<close>

record child_run =
  cr_pty_start :: "goerror option"
  cr_wait :: "goerror option"
  cr_exit :: int
  cr_run :: "goerror option"

text \<open>The command run and the exit status sent, if one is; \<open>mk\<close> is \<open>command\<close> of the platform.\<close>

definition handler_on :: "(string \<Rightarrow> string list \<Rightarrow> exec_cmd) \<Rightarrow> (goerror \<Rightarrow> string) \<Rightarrow> child_run \<Rightarrow> ssh_session \<Rightarrow> string
    \<Rightarrow> exec_cmd \<times> int option" where
  "handler_on mk txt r s cpud =
     (let cmd0 = mk cpud (''-remote'' # ss_command s);
          cmd1 = cmd0\<lparr>ex_env := env_add (ex_env cmd0) (ss_environ s)\<rparr>
      in case ss_pty s of
           Some term \<Rightarrow>
             (let cmd2 = cmd1\<lparr>ex_env := env_add (ex_env cmd1) [''TERM='' @ term]\<rparr> in
              case cr_pty_start r of
                Some e \<Rightarrow> (cmd2, None)
              | None \<Rightarrow> (cmd2, if errval txt (cr_wait r) \<noteq> None then Some (cr_exit r) else None))
         | None \<Rightarrow> (cmd1, if errval txt (cr_run r) \<noteq> None then Some 1 else None))"

abbreviation handler :: "(goerror \<Rightarrow> string) \<Rightarrow> child_run \<Rightarrow> ssh_session \<Rightarrow> string \<Rightarrow> exec_cmd \<times> int option" where
  "handler \<equiv> handler_on command"

text \<open>\<open>setWinsize\<close>: rows, columns and two zeros, as the terminal takes them, each of 16 bits.\<close>

definition setWinsize :: "int \<Rightarrow> int \<Rightarrow> u16 \<times> u16 \<times> u16 \<times> u16" where
  "setWinsize w h = (word_of_int h, word_of_int w, 0, 0)"

lemma setWinsize_exact:
  "setWinsize w h = (r, c, x, y) \<Longrightarrow> uint r = h \<and> uint c = w \<longleftrightarrow> h \<in> {0..<65536} \<and> w \<in> {0..<65536}"
  by (auto simp: setWinsize_def uint_word_of_int mod_eq_self_iff_div_eq_0 div_pos_pos_trivial)

section \<open>The server\<close>

record 'k ssh_server =
  sv_addr :: string
  sv_local_forward :: "string \<Rightarrow> nat \<Rightarrow> bool"
  sv_reverse_forward :: "string \<Rightarrow> nat \<Rightarrow> bool"
  sv_public_key :: "('k \<Rightarrow> bool) option"
  sv_handler :: "child_run \<Rightarrow> ssh_session \<Rightarrow> exec_cmd \<times> int option"

text \<open>
  \<open>New\<close>: \<open>parse_key\<close> is \<open>ssh.ParseAuthorizedKey\<close>, the first key of the data, and \<open>keq\<close> is
  \<open>ssh.KeysEqual\<close>. The file is read anew for each key offered.
\<close>

definition public_key_handler ::
    "(string \<Rightarrow> goerror + string) \<Rightarrow> (string \<Rightarrow> goerror + 'k) \<Rightarrow> ('k \<Rightarrow> 'k \<Rightarrow> bool) \<Rightarrow> string \<Rightarrow> 'k \<Rightarrow> bool" where
  "public_key_handler read_file parse_key keq publicKeyFile key =
     (case read_file publicKeyFile of Inl e \<Rightarrow> False
      | Inr data \<Rightarrow>
          (case parse_key data of Inl e \<Rightarrow> False
           | Inr allowed \<Rightarrow> keq key allowed))"

definition New_server ::
    "(goerror \<Rightarrow> string) \<Rightarrow> (string \<Rightarrow> goerror + string) \<Rightarrow> (string \<Rightarrow> goerror + 'k) \<Rightarrow> ('k \<Rightarrow> 'k \<Rightarrow> bool)
       \<Rightarrow> string \<Rightarrow> string \<Rightarrow> 'k ssh_server res" where
  "New_server txt read_file parse_key keq publicKeyFile cpud =
     Ok \<lparr>sv_addr = '':17010'',
         sv_local_forward = (\<lambda>dhost dport. True),
         sv_reverse_forward = (\<lambda>host port. True),
         sv_public_key = (if 0 < length publicKeyFile
                          then Some (public_key_handler read_file parse_key keq publicKeyFile) else None),
         sv_handler = (\<lambda>r s. handler txt r s cpud)\<rparr>"

section \<open>Properties\<close>

text \<open>What a session runs. The command is always cpud itself with \<open>-remote\<close> first and the
  session's words after it, in a private name space; its environment is the session's,
  with the terminal's name last when there is one, or the server's own if the session has
  neither variables nor a terminal.\<close>

lemma handler_command:
  "ex_path (fst (handler txt r s cpud)) = cpud \<and>
   ex_args (fst (handler txt r s cpud)) = ''-remote'' # ss_command s \<and>
   ex_newns (fst (handler txt r s cpud)) \<and>
   ex_env (fst (handler txt r s cpud)) =
     (let env = ss_environ s @ (case ss_pty s of None \<Rightarrow> [] | Some t \<Rightarrow> [''TERM='' @ t])
      in if env = [] then None else Some env)"
  by (auto simp: handler_on_def command_def exec_Command_def env_add_def Let_def split: option.splits)

text \<open>The exit status of a session. On a terminal it is the child's; without one it is 1
  whatever the child's is; and it is not sent at all if the child succeeded, if its status
  was already collected by the reaper, or if it could not be started on a terminal.\<close>

lemma handler_exit_status:
  "snd (handler txt r s cpud) =
     (case ss_pty s of
        Some t \<Rightarrow> (if cr_pty_start r = None \<and> (\<exists>e. cr_wait r = Some e \<and> \<not> contains (txt e) ''no child process'')
                   then Some (cr_exit r) else None)
      | None \<Rightarrow> (if \<exists>e. cr_run r = Some e \<and> \<not> contains (txt e) ''no child process'' then Some 1 else None))"
  by (auto simp: handler_on_def errval_def Let_def split: option.splits)

text \<open>Who may log in. With a key file a key is accepted exactly if the file can be read and its
  first key equals the one offered; with an empty file name there is no check at all; and
  every forwarding request is granted.\<close>

lemma server_authentication:
  assumes "New_server txt read_file parse_key keq f cpud = Ok sv"
  shows "(sv_public_key sv = None \<longleftrightarrow> f = []) \<and>
    (\<forall>check. sv_public_key sv = Some check \<longrightarrow>
      (\<forall>key. check key \<longleftrightarrow> (\<exists>data allowed. read_file f = Inr data \<and> parse_key data = Inr allowed \<and> keq key allowed))) \<and>
    sv_reverse_forward sv h p \<and> sv_local_forward sv h p"
  using assms by (auto simp: New_server_def public_key_handler_def split: if_splits sum.splits)

theorem server_authentication_witness:
  "\<exists>sv. New_server (\<lambda>e. []) (\<lambda>f. Inr ''k'') (\<lambda>d. Inr d) (=) ''key.pub'' ''cpud'' = Ok sv \<and>
     sv_public_key sv \<noteq> None"
proof -
  obtain sv where sv: "New_server (\<lambda>e. []) (\<lambda>f. Inr ''k'') (\<lambda>d. Inr d) (=) ''key.pub'' ''cpud'' = Ok sv"
    by (simp add: New_server_def)
  from server_authentication [OF this] sv show ?thesis by auto
qed

text \<open>A signal can take the server down. Forwarding one panics if the command has not
  been started, for either signal the code knows, and for any other signal if the session
  has an empty command; in every other case with a command it returns.\<close>

lemma forward_signal_panics:
  "panics (forward_signal a proc sig) \<longleftrightarrow>
    (if sig = ''TERM'' \<or> sig = ''INT'' then
       (case proc of None \<Rightarrow> True
        | Some p \<Rightarrow> p (if sig = ''TERM'' then SigTerm else SigInt) \<noteq> None \<and> a = [])
     else a = [])"
  by (cases a; cases "sig = ''TERM''"; cases "sig = ''INT''")
     (auto simp: forward_signal_def Let_def index_slice_def split: option.splits)

end
