(* ===== verification/Session.thy ===== *)
theory Session
  imports Mount GoPath
begin

text \<open>
  One cpu session on the server, the package \<open>session\<close>: building the name space and running the
  command (\<open>session/session.go\<close>, \<open>session/session_linux.go\<close>).

  The system is a state with the environment, the calls made so far and, for the session, its
  \<open>fail\<close> flag. Each call is an event; \<open>ans\<close>, a parameter, says from the calls before it
  whether it fails. Order, privileges and what the command sees are then statements on the
  trace of calls.
\<close>

section \<open>The system\<close>

datatype sys_call =
    CMount string string string u64 string
  | CMkdir string nat
  | CDial string
  | CWriteNonce string
  | CSocketFile
  | CSetreuid nat
  | CSetregid nat
  | CTermNew | CTermGet | CTermSet
  | CTempFile | CWriteFile string string | CExec "string list"
  | CStatDir string
  | CRun string "string list" string "string \<Rightarrow> string option"

record sys =
  s_env :: "string \<Rightarrow> string option"
  s_trace :: "sys_call list"
  s_fail :: bool

type_synonym answers = "sys_call list \<Rightarrow> sys_call \<Rightarrow> goerror option"

definition do_call :: "answers \<Rightarrow> sys_call \<Rightarrow> sys \<Rightarrow> goerror option \<times> sys" where
  "do_call ans c s = (ans (s_trace s) c, s\<lparr>s_trace := s_trace s @ [c]\<rparr>)"

definition unsetenv :: "string \<Rightarrow> sys \<Rightarrow> sys" where
  "unsetenv k s = s\<lparr>s_env := (s_env s)(k := None)\<rparr>"

definition getenv :: "sys \<Rightarrow> string \<Rightarrow> string" where
  "getenv s k = (case s_env s k of None \<Rightarrow> [] | Some v \<Rightarrow> v)"

text \<open>\<open>os.TempDir\<close>.\<close>

definition TempDir :: "sys \<Rightarrow> string" where
  "TempDir s = (if getenv s ''TMPDIR'' = [] then ''/tmp'' else getenv s ''TMPDIR'')"

text \<open>The constants of the session and what the kernel is asked for besides.\<close>

record session =
  ss_msize :: nat
  ss_mopts :: string
  ss_port9p :: string
  ss_cmd :: string
  ss_args :: "string list"

definition New_session :: "string \<Rightarrow> string \<Rightarrow> string list \<Rightarrow> session" where
  "New_session port9p cmd args =
     \<lparr>ss_msize = 64 * 1024, ss_mopts = [], ss_port9p = port9p, ss_cmd = cmd, ss_args = args\<rparr>"

text \<open>
  The parameters of a run: the answers, the Linux constants, what symbolic links resolve to,
  the user and group, the descriptor of the connection, and \<open>wtf\<close>, the debugging command
  (empty unless changed at compile time).
\<close>

record run_ext =
  re_ans :: answers
  re_ms :: "string \<Rightarrow> u64"
  re_links :: "sys \<Rightarrow> string \<Rightarrow> goerror + string"
  re_uid :: nat
  re_gid :: nat
  re_fd :: nat
  re_wtf :: string

section \<open>Platforms\<close>

text \<open>
  What the files with a platform in their name give the others: the steps \<open>runSetup\<close>, \<open>osMounts\<close> and \<open>Namespace\<close> of
  \<open>session_linux.go\<close>, \<open>session_freebsd.go\<close> and \<open>session_other.go\<close>, and \<open>Mount\<close> of the package \<open>mount\<close>.
\<close>

type_synonym step = "sys \<Rightarrow> goerror option \<times> sys"

record platform =
  pf_runSetup :: "run_ext \<Rightarrow> step"
  pf_osMounts :: "run_ext \<Rightarrow> step"
  pf_Namespace :: "run_ext \<Rightarrow> session \<Rightarrow> step"
  pf_Mount :: "run_ext \<Rightarrow> string \<Rightarrow> step"

section \<open>The steps on Linux\<close>

definition runSetup :: "run_ext \<Rightarrow> sys \<Rightarrow> goerror option \<times> sys" where
  "runSetup x s =
     (case do_call (re_ans x) (CMount ''cpu'' (TempDir s) ''tmpfs'' 0 []) s of
        (Some e, s') \<Rightarrow> (Some (Errorf ''unix.Mount(cpu, %s, tmpfs, 0): %v != nil'' [TempDir s]), s')
      | (None, s') \<Rightarrow> (None, s'))"

definition osMounts :: "run_ext \<Rightarrow> sys \<Rightarrow> goerror option \<times> sys" where
  "osMounts x s =
     (let d = path_join [TempDir s, ''local''] in
      case do_call (re_ans x) (CMount ''/'' d [] (re_ms x ''MS_BIND'') []) s of
        (Some e, s') \<Rightarrow>
          (errors_join [None, Some (Errorf ''CPUD:Warning: binding / over %s did not work: %v, continuing anyway'' [d])], s')
      | (None, s') \<Rightarrow> (None, s'))"

text \<open>The loopback addresses are tried in order until one is connected.\<close>

fun dial_hosts :: "run_ext \<Rightarrow> string list \<Rightarrow> sys \<Rightarrow> bool \<times> sys" where
  "dial_hosts x [] s = (False, s)"
| "dial_hosts x (a # as) s =
     (case do_call (re_ans x) (CDial a) s of
        (None, s') \<Rightarrow> (True, s')
      | (Some e, s') \<Rightarrow> dial_hosts x as s')"

definition mount_opts :: "session \<Rightarrow> nat \<Rightarrow> string \<Rightarrow> string" where
  "mount_opts ss fd user =
     ''version=9p2000.L,noxattr,trans=fd,rfdno='' @ show_nat fd @ '',wfdno='' @ show_nat fd @
     '',uname='' @ user @ '',debug=0,msize='' @ show_nat (ss_msize ss) @
     (if 0 < length (ss_mopts ss) then '','' @ ss_mopts ss else [])"

unbundle bit_operations_syntax

definition Namespace :: "run_ext \<Rightarrow> session \<Rightarrow> sys \<Rightarrow> goerror option \<times> sys" where
  "Namespace x ss s0 =
     (case s_env s0 ''CPUNONCE'' of
        None \<Rightarrow> (None, s0)
      | Some nonce \<Rightarrow>
          (let s1 = unsetenv ''CPUNONCE'' s0 in
           case dial_hosts x [''[::1]:'' @ ss_port9p ss, ''127.0.0.1:'' @ ss_port9p ss] s1 of
             (False, s2) \<Rightarrow> (Some (Errorf ''CPUD:Dial 9p port to %q: %v'' []), s2)
           | (True, s2) \<Rightarrow>
               (case do_call (re_ans x) (CWriteNonce nonce) s2 of
                  (Some e, s3) \<Rightarrow> (Some (Errorf ''CPUD:Write nonce: %v'' []), s3)
                | (None, s3) \<Rightarrow>
                    (case do_call (re_ans x) CSocketFile s3 of
                       (Some e, s4) \<Rightarrow> (Some (Errorf ''CPUD:Cannot get fd for %v: %v'' []), s4)
                     | (None, s4) \<Rightarrow>
                         (let flags = re_ms x ''MS_NODEV'' OR re_ms x ''MS_NOSUID'';
                              user = (if getenv s4 ''USER'' = [] then ''nouser'' else getenv s4 ''USER'');
                              opts = mount_opts ss (re_fd x) user;
                              target = path_join [TempDir s4, ''cpu'']
                          in case do_call (re_ans x) (CMount ''localhost'' target ''9p'' flags opts) s4 of
                               (Some e, s5) \<Rightarrow> (Some (Errorf ''9p mount %v'' []), s5)
                             | (None, s5) \<Rightarrow> (None, s5))))))"

text \<open>The mounts of an fstab as calls.\<close>

definition sys_mounter :: "run_ext \<Rightarrow> sys mounter" where
  "sys_mounter x dev dir fstype flags data s = do_call (re_ans x) (CMount dev dir fstype flags data) s"

definition linux :: platform where
  "linux = \<lparr>pf_runSetup = runSetup, pf_osMounts = osMounts, pf_Namespace = Namespace,
     pf_Mount = (\<lambda>x. Mount_fstab (re_ms x) (re_links x) (sys_mounter x))\<rparr>"

section \<open>The steps on all platforms\<close>

fun mkdirs :: "run_ext \<Rightarrow> string list \<Rightarrow> sys \<Rightarrow> sys" where
  "mkdirs x [] s = s"
| "mkdirs x (n # ns) s = mkdirs x ns (snd (do_call (re_ans x) (CMkdir n 0x1b6) s))"

text \<open>\<open>TmpMounts\<close> logs its errors and always returns nil.\<close>

definition TmpMounts :: "platform \<Rightarrow> run_ext \<Rightarrow> sys \<Rightarrow> goerror option \<times> sys" where
  "TmpMounts p x s =
     (let t = TempDir s;
          s1 = mkdirs x [path_join [t, ''cpu''], path_join [t, ''local''], path_join [t, ''merge''],
                         path_join [t, ''root''], ''/home''] s
      in (None, snd (pf_osMounts p x s1)))"

definition mount_env :: "platform \<Rightarrow> run_ext \<Rightarrow> sys \<Rightarrow> sys" where
  "mount_env p x s =
     (case s_env s ''CPU_FSTAB'' of
        None \<Rightarrow> s
      | Some tab \<Rightarrow>
          (case pf_Mount p x tab s of
             (Some e, s') \<Rightarrow> s'\<lparr>s_fail := True\<rparr>
           | (None, s') \<Rightarrow> s'))"

definition Terminal :: "run_ext \<Rightarrow> sys \<Rightarrow> goerror option \<times> sys" where
  "Terminal x s =
     (case do_call (re_ans x) CTermNew s of
        (Some e, s1) \<Rightarrow> (Some (Errorf ''CPUD:termios.New(): %v'' []), s1)
      | (None, s1) \<Rightarrow>
          (case do_call (re_ans x) CTermGet s1 of
             (Some e, s2) \<Rightarrow> (Some (Errorf ''CPUD:t.Get():%v'' []), s2)
           | (None, s2) \<Rightarrow>
               (case do_call (re_ans x) CTermSet s2 of
                  (Some e, s3) \<Rightarrow> (Some (Errorf ''CPUD:t.Set(%#x): %v'' []), s3)
                | (None, s3) \<Rightarrow> (None, s3))))"

definition DropPrivs :: "run_ext \<Rightarrow> sys \<Rightarrow> goerror option \<times> sys" where
  "DropPrivs x s =
     (if re_uid x = 0 then (None, s)
      else case do_call (re_ans x) (CSetreuid (re_uid x)) s of
        (Some e, s') \<Rightarrow> (Some e, s')
      | (None, s') \<Rightarrow> do_call (re_ans x) (CSetregid (re_gid x)) s')"

definition clear_fstab :: "sys \<Rightarrow> sys" where
  "clear_fstab s = unsetenv ''LC_GLENDA_CPU_FSTAB'' (unsetenv ''CPU_FSTAB'' s)"

section \<open>Run\<close>

definition run_wtf :: "run_ext \<Rightarrow> sys \<Rightarrow> sys" where
  "run_wtf x s = snd (do_call (re_ans x) (CRun (re_wtf x) [] ''/'' (s_env s)) s)"

definition Run_on :: "platform \<Rightarrow> run_ext \<Rightarrow> session \<Rightarrow> sys \<Rightarrow> goerror option \<times> sys" where
  "Run_on p x ss s0 =
     (case pf_runSetup p x s0 of
        (Some e, s1) \<Rightarrow> (Some e, s1)
      | (None, s1) \<Rightarrow>
          (case TmpMounts p x s1 of (tme, s2') \<Rightarrow>
            (let s2 = (if tme \<noteq> None then s2'\<lparr>s_fail := True\<rparr> else s2');
                 errs1 = (if tme \<noteq> None then errors_join [None, tme] else None)
             in case pf_Namespace p x ss s2 of
                  (Some e, s3) \<Rightarrow> (errors_join [errs1, Some (Errorf ''CPUD:Namespace: %v'' [])], s3)
                | (None, s3) \<Rightarrow>
                    (let s4 = mount_env p x s3 in
                     case Terminal x s4 of (te, s5') \<Rightarrow>
                       (let s5 = (if te \<noteq> None then s5'\<lparr>s_fail := True\<rparr> else s5');
                            errs2 = (if te \<noteq> None then errors_join [errs1, te] else errs1)
                        in if s_fail s5 \<and> length (re_wtf x) \<noteq> 0 then (errs2, run_wtf x s5)
                           else (case DropPrivs x s5 of
                             (Some e, s6) \<Rightarrow> (errors_join [errs2, Some e], s6)
                           | (None, s6) \<Rightarrow>
                               (let s7 = clear_fstab s6;
                                    dir = getenv s7 ''PWD''
                                in case do_call (re_ans x) (CStatDir dir) s7 of
                                     (Some e, s8) \<Rightarrow> (Some ErrNotExist, s8)
                                   | (None, s8) \<Rightarrow>
                                       (case do_call (re_ans x) (CRun (ss_cmd ss) (ss_args ss) dir (s_env s8)) s8 of
                                          (err, s9) \<Rightarrow>
                                            (err, if err \<noteq> None \<and> s_fail s9 \<and> length (re_wtf x) \<noteq> 0
                                                  then run_wtf x s9 else s9)))))))))"

text \<open>\<open>NameSpace\<close>, the part of \<open>Run\<close> that \<open>cpuns\<close> uses.\<close>

definition NameSpace_on :: "platform \<Rightarrow> run_ext \<Rightarrow> session \<Rightarrow> sys \<Rightarrow> goerror option \<times> sys" where
  "NameSpace_on p x ss s0 =
     (case pf_runSetup p x s0 of
        (Some e, s1) \<Rightarrow> (Some e, s1)
      | (None, s1) \<Rightarrow>
          (case TmpMounts p x s1 of (tme, s2') \<Rightarrow>
            (let s2 = (if tme \<noteq> None then s2'\<lparr>s_fail := True\<rparr> else s2');
                 errs1 = (if tme \<noteq> None then errors_join [None, tme] else None)
             in case pf_Namespace p x ss s2 of
                  (Some e, s3) \<Rightarrow> (errors_join [errs1, Some (Errorf ''CPUD:Namespace: %v'' [])], s3)
                | (None, s3) \<Rightarrow> (None, clear_fstab (mount_env p x s3)))))"

abbreviation Run :: "run_ext \<Rightarrow> session \<Rightarrow> sys \<Rightarrow> goerror option \<times> sys" where "Run \<equiv> Run_on linux"

abbreviation NameSpace :: "run_ext \<Rightarrow> session \<Rightarrow> sys \<Rightarrow> goerror option \<times> sys" where "NameSpace \<equiv> NameSpace_on linux"

section \<open>Steps only add calls\<close>

text \<open>A call of the set-up: neither a change of privileges nor a command.\<close>

definition quiet :: "sys_call \<Rightarrow> bool" where
  "quiet c = (case c of CRun _ _ _ _ \<Rightarrow> False | CSetreuid _ \<Rightarrow> False | CSetregid _ \<Rightarrow> False | _ \<Rightarrow> True)"

definition quiet_step :: "sys \<Rightarrow> sys \<Rightarrow> bool" where
  "quiet_step s s' = (\<exists>t. s_trace s' = s_trace s @ t \<and> list_all quiet t)"

named_theorems session_steps \<open>the calls a step of the session makes\<close>

lemma quiet_step_refl [session_steps]: "quiet_step s s"
  by (simp add: quiet_step_def)

lemma quiet_step_trans: "quiet_step s s' \<Longrightarrow> quiet_step s' s'' \<Longrightarrow> quiet_step s s''"
  by (force simp: quiet_step_def)

lemma quiet_step_same_trace: "s_trace s' = s_trace s \<Longrightarrow> quiet_step s s'"
  by (simp add: quiet_step_def)

lemma do_call_step:
  "do_call ans c s = (e, s') \<Longrightarrow> s_env s' = s_env s \<and> s_fail s' = s_fail s \<and> s_trace s' = s_trace s @ [c] \<and> e = ans (s_trace s) c"
  by (auto simp: do_call_def)

lemma do_call_quiet:
  "do_call ans c s = (e, s') \<Longrightarrow> quiet c \<Longrightarrow> quiet_step s s' \<and> s_env s' = s_env s"
  by (auto simp: do_call_def quiet_step_def)

lemma quiet_simps [simp]:
  "quiet (CMount a b c fl da)" "quiet (CMkdir q m)" "quiet (CDial a)" "quiet (CWriteNonce q)"
  "quiet CSocketFile" "quiet CTempFile" "quiet (CWriteFile q da)" "quiet (CExec argv)" "quiet CTermNew" "quiet CTermGet" "quiet CTermSet" "quiet (CStatDir p)"
  "\<not> quiet (CRun a bs c' f)" "\<not> quiet (CSetreuid n)" "\<not> quiet (CSetregid n)"
  by (simp_all add: quiet_def)

lemma runSetup_step: "runSetup x s = (e, s') \<Longrightarrow> quiet_step s s' \<and> s_env s' = s_env s \<and>
    s_trace s' = s_trace s @ [CMount ''cpu'' (TempDir s) ''tmpfs'' 0 []]"
  by (auto simp: runSetup_def do_call_def quiet_step_def split: option.splits prod.splits)

lemma osMounts_step: "quiet_step s (snd (osMounts x s)) \<and> s_env (snd (osMounts x s)) = s_env s"
  by (auto simp: osMounts_def do_call_def quiet_step_def Let_def split: option.splits)

lemma mkdirs_step: "quiet_step s (mkdirs x ns s) \<and> s_env (mkdirs x ns s) = s_env s"
proof (induction ns arbitrary: s)
  case (Cons n ns)
  obtain e s1 where c: "do_call (re_ans x) (CMkdir n 0x1b6) s = (e, s1)" by force
  from do_call_quiet [OF c] Cons [of s1] c show ?case
    by (auto intro: quiet_step_trans)
qed (simp add: session_steps)

lemma mkdirs_trace:
  "s_trace (mkdirs x ns s) = s_trace s @ map (\<lambda>n. CMkdir n 0x1b6) ns \<and> s_fail (mkdirs x ns s) = s_fail s"
  by (induction ns arbitrary: s) (simp_all add: do_call_def)

lemma dial_hosts_step:
  "dial_hosts x as s = (b, s') \<Longrightarrow> quiet_step s s' \<and> s_env s' = s_env s"
proof (induction "as" arbitrary: s)
  case (Cons a as)
  obtain e s1 where c: "do_call (re_ans x) (CDial a) s = (e, s1)" by force
  note q = do_call_quiet [OF c]
  show ?case
  proof (cases e)
    case None
    with c Cons.prems q show ?thesis by auto
  next
    case (Some e')
    with c Cons.prems have "dial_hosts x as s1 = (b, s')" by simp
    from Cons.IH [OF this] q show ?thesis by (auto intro: quiet_step_trans)
  qed
qed (simp add: session_steps)

lemma Namespace_step:
  assumes "Namespace x ss s = (e, s')"
  shows "quiet_step s s' \<and> s_env s' = (s_env s)(''CPUNONCE'' := None)"
proof (cases "s_env s ''CPUNONCE''")
  case None
  with assms show ?thesis by (auto simp: Namespace_def session_steps)
next
  case (Some nonce)
  let ?s1 = "unsetenv ''CPUNONCE'' s"
  have s1: "quiet_step s ?s1" "s_env ?s1 = (s_env s)(''CPUNONCE'' := None)"
    by (simp_all add: unsetenv_def quiet_step_def)
  obtain b s2 where d: "dial_hosts x [''[::1]:'' @ ss_port9p ss, ''127.0.0.1:'' @ ss_port9p ss] ?s1 = (b, s2)"
    by force
  note q2 = dial_hosts_step [OF d]
  obtain e3 s3 where c3: "do_call (re_ans x) (CWriteNonce nonce) s2 = (e3, s3)" by force
  have q3: "quiet_step s2 s3 \<and> s_env s3 = s_env s2" using do_call_quiet [OF c3] by simp
  obtain e4 s4 where c4: "do_call (re_ans x) CSocketFile s3 = (e4, s4)" by force
  have q4: "quiet_step s3 s4 \<and> s_env s4 = s_env s3" using do_call_quiet [OF c4] by simp
  let ?m = "CMount ''localhost'' (path_join [TempDir s4, ''cpu'']) ''9p'' (re_ms x ''MS_NODEV'' OR re_ms x ''MS_NOSUID'')
      (mount_opts ss (re_fd x) (if getenv s4 ''USER'' = [] then ''nouser'' else getenv s4 ''USER''))"
  obtain e5 s5 where c5: "do_call (re_ans x) ?m s4 = (e5, s5)" by force
  have q5: "quiet_step s4 s5 \<and> s_env s5 = s_env s4" using do_call_quiet [OF c5] by simp
  have "s' \<in> {s2, s3, s4, s5}"
    using assms Some d c3 c4 c5
    by (auto simp: Namespace_def Let_def split: bool.splits option.splits)
  moreover have p2: "quiet_step s s2" using s1(1) q2 by (blast intro: quiet_step_trans)
  moreover have p3: "quiet_step s s3" using p2 q3 by (blast intro: quiet_step_trans)
  moreover have p4: "quiet_step s s4" using p3 q4 by (blast intro: quiet_step_trans)
  moreover have "quiet_step s s5" using p4 q5 by (blast intro: quiet_step_trans)
  moreover have "s_env s2 = s_env ?s1" "s_env s3 = s_env ?s1" "s_env s4 = s_env ?s1" "s_env s5 = s_env ?s1"
    using q2 q3 q4 q5 by simp_all
  ultimately show ?thesis using s1 by auto
qed

lemma mount_lines_step:
  "mount_lines ms evs (sys_mounter x) ls err s = (e, s') \<Longrightarrow> quiet_step s s' \<and> s_env s' = s_env s"
proof (induction ls arbitrary: err s)
  case (Cons l ls)
  show ?case
  proof (cases "mount_fields l")
    case None
    with Cons show ?thesis by simp
  next
    case (Some f)
    obtain fl da where p: "parse ms (f ! 3) = (fl, da)" by force
    obtain e1 s1 where c: "sys_mounter x (eval_or_same evs s (f ! 0)) (eval_or_same evs s (f ! 1)) (f ! 2) fl da s = (e1, s1)"
      by force
    have q: "quiet_step s s1 \<and> s_env s1 = s_env s"
      using c by (intro do_call_quiet) (auto simp: sys_mounter_def)
    obtain err1 where "mount_lines ms evs (sys_mounter x) ls err1 s1 = (e, s')"
      using Cons.prems Some p c by (auto simp: Let_def split: option.splits)
    from Cons.IH [OF this] q show ?thesis by (auto intro: quiet_step_trans)
  qed
qed (simp add: session_steps)

lemma Terminal_step:
  assumes "Terminal x s = (e, s')"
  shows "quiet_step s s' \<and> s_env s' = s_env s"
proof -
  obtain e1 s1 where c1: "do_call (re_ans x) CTermNew s = (e1, s1)" by force
  obtain e2 s2 where c2: "do_call (re_ans x) CTermGet s1 = (e2, s2)" by force
  obtain e3 s3 where c3: "do_call (re_ans x) CTermSet s2 = (e3, s3)" by force
  note q = do_call_quiet [OF c1] do_call_quiet [OF c2] do_call_quiet [OF c3]
  have "s' \<in> {s1, s2, s3}"
    using assms c1 c2 c3 by (auto simp: Terminal_def split: option.splits)
  moreover have "quiet_step s s1" "quiet_step s s2" "quiet_step s s3"
    using q by (auto intro: quiet_step_trans)
  ultimately show ?thesis using q by auto
qed

section \<open>The contract of a platform\<close>

text \<open>The set-up of a run, up to the point where privileges are dropped.\<close>

definition setUp :: "platform \<Rightarrow> run_ext \<Rightarrow> session \<Rightarrow> sys \<Rightarrow> goerror option \<times> sys" where
  "setUp p x ss s0 =
     (case pf_runSetup p x s0 of
        (Some e, s1) \<Rightarrow> (Some e, s1)
      | (None, s1) \<Rightarrow>
          (case pf_Namespace p x ss (snd (TmpMounts p x s1)) of
             (Some e, s3) \<Rightarrow> (errors_join [None, Some (Errorf ''CPUD:Namespace: %v'' [])], s3)
           | (None, s3) \<Rightarrow>
               (case Terminal x (mount_env p x s3) of
                  (te, s5) \<Rightarrow> (None, if te \<noteq> None then s5\<lparr>s_fail := True\<rparr> else s5))))"

text \<open>The rest of the run: privileges, environment, directory, command.\<close>

definition runCommand :: "run_ext \<Rightarrow> session \<Rightarrow> goerror option \<Rightarrow> sys \<Rightarrow> goerror option \<times> sys" where
  "runCommand x ss errs s5 =
     (case DropPrivs x s5 of
        (Some e, s6) \<Rightarrow> (errors_join [errs, Some e], s6)
      | (None, s6) \<Rightarrow>
          (let s7 = clear_fstab s6; dir = getenv s7 ''PWD'' in
           case do_call (re_ans x) (CStatDir dir) s7 of
             (Some e, s8) \<Rightarrow> (Some ErrNotExist, s8)
           | (None, s8) \<Rightarrow> do_call (re_ans x) (CRun (ss_cmd ss) (ss_args ss) dir (s_env s8)) s8))"

lemma TmpMounts_None: "fst (TmpMounts p x s) = None"
  by (simp add: TmpMounts_def Let_def)

lemma Run_setUp:
  assumes "re_wtf x = []"
  shows "\<exists>errs. Run_on p x ss s0 = (case setUp p x ss s0 of
      (Some e, s1) \<Rightarrow> (Some e, s1)
    | (None, s5) \<Rightarrow> runCommand x ss errs s5)"
proof -
  obtain e1 s1 where r: "pf_runSetup p x s0 = (e1, s1)" by force
  show ?thesis
  proof (cases e1)
    case (Some e)
    with r show ?thesis by (simp add: Run_on_def setUp_def)
  next
    case None
    obtain tme s2 where t: "TmpMounts p x s1 = (tme, s2)" by force
    have tn: "tme = None" using TmpMounts_None [of p x s1] t by simp
    obtain e3 s3 where n: "pf_Namespace p x ss s2 = (e3, s3)" by force
    obtain te s5 where tt: "Terminal x (mount_env p x s3) = (te, s5)" by force
    show ?thesis
    proof (cases e3)
      case (Some e)
      with None r t tn n show ?thesis by (simp add: Run_on_def setUp_def)
    next
      case None2: None
      let ?s5 = "if te \<noteq> None then s5\<lparr>s_fail := True\<rparr> else s5"
      show ?thesis
        using None None2 r t tn n tt assms
        by (intro exI [of _ "if te \<noteq> None then errors_join [None, te] else None"])
           (auto simp: Run_on_def setUp_def runCommand_def Let_def split: prod.splits option.splits)
    qed
  qed
qed

definition drops :: "run_ext \<Rightarrow> sys_call list" where
  "drops x = (if re_uid x = 0 then [] else [CSetreuid (re_uid x), CSetregid (re_gid x)])"

definition no_runs :: "sys_call list \<Rightarrow> bool" where
  "no_runs t = list_all (\<lambda>c. case c of CRun _ _ _ _ \<Rightarrow> False | _ \<Rightarrow> True) t"

lemma no_runs_simps [simp]:
  "no_runs []" "no_runs (c # t) \<longleftrightarrow> (case c of CRun _ _ _ _ \<Rightarrow> False | _ \<Rightarrow> True) \<and> no_runs t"
  "no_runs (t @ u) \<longleftrightarrow> no_runs t \<and> no_runs u" "no_runs (drops x)"
  by (simp_all add: no_runs_def drops_def)

lemma no_runsD: "no_runs t \<Longrightarrow> CRun a b c d \<notin> set t"
  by (auto simp: no_runs_def list_all_iff)

lemma quiet_no_runs: "list_all quiet t \<Longrightarrow> no_runs t"
  by (auto simp: no_runs_def list_all_iff quiet_def split: sys_call.splits)

lemma DropPrivs_step:
  assumes "DropPrivs x s = (e, s')"
  shows "s_env s' = s_env s" and "e = None \<Longrightarrow> s_trace s' = s_trace s @ drops x"
    and "\<exists>u. s_trace s' = s_trace s @ u \<and> no_runs u"
  using assms by (auto simp: DropPrivs_def do_call_def drops_def split: if_splits option.splits)

text \<open>Either no command is run, or it is run last, after the steps in their order.\<close>

lemma runCommand_trace:
  assumes "runCommand x ss errs s = (r, s')"
  shows "(\<exists>u. s_trace s' = s_trace s @ u \<and> no_runs u) \<or>
    (\<exists>d env. s_trace s' = s_trace s @ drops x @ [CStatDir d, CRun (ss_cmd ss) (ss_args ss) d env] \<and>
      env = (s_env s)(''CPU_FSTAB'' := None, ''LC_GLENDA_CPU_FSTAB'' := None) \<and>
      r = re_ans x (butlast (s_trace s')) (last (s_trace s')))"
proof -
  obtain e6 s6 where dp: "DropPrivs x s = (e6, s6)" by force
  note d6 = DropPrivs_step [OF dp]
  show ?thesis
  proof (cases e6)
    case (Some e)
    with assms dp d6(3) show ?thesis by (simp add: runCommand_def)
  next
    case None
    let ?s7 = "clear_fstab s6"
    have s7: "s_trace ?s7 = s_trace s @ drops x"
      "s_env ?s7 = (s_env s)(''CPU_FSTAB'' := None, ''LC_GLENDA_CPU_FSTAB'' := None)"
      using d6 None by (simp_all add: clear_fstab_def unsetenv_def)
    obtain e8 s8 where c8: "do_call (re_ans x) (CStatDir (getenv ?s7 ''PWD'')) ?s7 = (e8, s8)" by force
    note q8 = do_call_step [OF c8]
    have r: "(r, s') = (case e8 of Some e \<Rightarrow> (Some ErrNotExist, s8)
      | None \<Rightarrow> do_call (re_ans x) (CRun (ss_cmd ss) (ss_args ss) (getenv ?s7 ''PWD'') (s_env s8)) s8)"
      using assms dp None c8 by (simp add: runCommand_def Let_def split: option.splits)
    show ?thesis
    proof (cases e8)
      case (Some e)
      with r have "s' = s8" by simp
      with q8 s7(1) have "s_trace s' = s_trace s @ drops x @ [CStatDir (getenv ?s7 ''PWD'')]" by simp
      then show ?thesis by (intro disjI1 exI [of _ "drops x @ [CStatDir (getenv ?s7 ''PWD'')]"]) simp
    next
      case None
      with r have fin: "do_call (re_ans x) (CRun (ss_cmd ss) (ss_args ss) (getenv ?s7 ''PWD'') (s_env s8)) s8 = (r, s')"
        by simp
      note qf = do_call_step [OF fin]
      have "r = re_ans x (butlast (s_trace s')) (last (s_trace s'))" using qf by simp
      with qf q8 s7 show ?thesis by (intro disjI2) auto
    qed
  qed
qed

text \<open>A command is run only after the set-up has succeeded, last, and with what the set-up left.\<close>

lemma Run_after_setUp:
  assumes "Run_on p x ss s0 = (r, s')" and "re_wtf x = []" and "setUp p x ss s0 = (e5, s5)"
    and "no_runs (s_trace s5)" and "CRun c as d env \<in> set (s_trace s')"
  shows "e5 = None \<and> s_trace s' = s_trace s5 @ drops x @ [CStatDir d, CRun (ss_cmd ss) (ss_args ss) d env] \<and>
    env = (s_env s5)(''CPU_FSTAB'' := None, ''LC_GLENDA_CPU_FSTAB'' := None) \<and>
    r = re_ans x (butlast (s_trace s')) (last (s_trace s'))"
proof -
  obtain errs where R: "Run_on p x ss s0 = (case (e5, s5) of
      (Some e, s1) \<Rightarrow> (Some e, s1) | (None, s5) \<Rightarrow> runCommand x ss errs s5)"
    using Run_setUp [OF assms(2), of p ss s0] unfolding assms(3) by blast
  have e5: "e5 = None" using R assms(1,4,5) by (cases e5) (auto dest: no_runsD)
  have rc: "runCommand x ss errs s5 = (r, s')" using R assms(1) e5 by simp
  from runCommand_trace [OF this] assms(4,5)
  obtain d' env' where tr: "s_trace s' = s_trace s5 @ drops x @ [CStatDir d', CRun (ss_cmd ss) (ss_args ss) d' env']"
    and en: "env' = (s_env s5)(''CPU_FSTAB'' := None, ''LC_GLENDA_CPU_FSTAB'' := None)"
    and r: "r = re_ans x (butlast (s_trace s')) (last (s_trace s'))"
    by (auto dest: no_runsD)
  have de: "d' = d" "env' = env"
    using assms(4,5) no_runsD [of "drops x"] unfolding tr by (auto dest: no_runsD)
  show ?thesis using e5 tr en r unfolding de by simp
qed

text \<open>
  What the run relies on: the set-up makes the calls \<open>first\<close>, \<open>Namespace\<close> leaves the environment \<open>hide\<close> when it
  succeeds, nothing else of the platform changes the environment, and none of its steps changes
  privileges or runs a command.
\<close>

locale session_platform =
  fixes p :: platform and first :: "sys \<Rightarrow> sys_call list"
    and hide :: "(string \<Rightarrow> string option) \<Rightarrow> string \<Rightarrow> string option"
  assumes set_up: "pf_runSetup p x s = (e, s') \<Longrightarrow>
      s_trace s' = s_trace s @ first s \<and> list_all quiet (first s) \<and> s_env s' = s_env s"
    and mounts: "pf_osMounts p x s = (e, s') \<Longrightarrow> quiet_step s s' \<and> s_env s' = s_env s"
    and names: "pf_Namespace p x ss s = (e, s') \<Longrightarrow> quiet_step s s' \<and> (e = None \<longrightarrow> s_env s' = hide (s_env s))"
    and tab: "pf_Mount p x t s = (e, s') \<Longrightarrow> quiet_step s s' \<and> s_env s' = s_env s"
begin

lemma TmpMounts_step:
  assumes "TmpMounts p x s = (e, s')"
  shows "e = None \<and> quiet_step s s' \<and> s_env s' = s_env s"
proof -
  obtain ns where "e = None" and s': "s' = snd (pf_osMounts p x (mkdirs x ns s))"
    using assms unfolding TmpMounts_def Let_def by blast
  obtain e2 s2 where o: "pf_osMounts p x (mkdirs x ns s) = (e2, s2)" by force
  with s' have "s2 = s'" by simp
  with \<open>e = None\<close> mkdirs_step [of s x ns] mounts [OF o] show ?thesis by (auto intro: quiet_step_trans)
qed

lemma mount_env_step: "quiet_step s (mount_env p x s) \<and> s_env (mount_env p x s) = s_env s"
proof (cases "s_env s ''CPU_FSTAB''")
  case (Some t)
  obtain e s' where m: "pf_Mount p x t s = (e, s')" by force
  from tab [OF m] Some m show ?thesis
    by (cases e) (auto simp: mount_env_def quiet_step_def)
qed (simp add: mount_env_def session_steps)

lemma setUp_step:
  assumes "setUp p x ss s0 = (e, s')"
  shows "\<exists>t. s_trace s' = s_trace s0 @ first s0 @ t \<and> list_all quiet (first s0) \<and> list_all quiet t"
    and "e = None \<Longrightarrow> s_env s' = hide (s_env s0)"
proof -
  obtain e1 s1 where r: "pf_runSetup p x s0 = (e1, s1)" by force
  note q1 = set_up [OF r]
  have "quiet_step s1 s' \<and> (e = None \<longrightarrow> s_env s' = hide (s_env s0))"
  proof (cases e1)
    case (Some e)
    with assms r show ?thesis by (auto simp: setUp_def session_steps)
  next
    case None
    obtain tme s2 where t: "TmpMounts p x s1 = (tme, s2)" by force
    note q2 = TmpMounts_step [OF t]
    obtain e3 s3 where n: "pf_Namespace p x ss s2 = (e3, s3)" by force
    note q3 = names [OF n]
    obtain te s5 where tt: "Terminal x (mount_env p x s3) = (te, s5)" by force
    note q5 = Terminal_step [OF tt] and q4 = mount_env_step [of s3 x]
    have q13: "quiet_step s1 s3" using q2 q3 by (blast intro: quiet_step_trans)
    have q15: "quiet_step s1 s5" using q13 q4 q5 by (blast intro: quiet_step_trans)
    show ?thesis
      using assms None r t n tt q1 q2 q3 q4 q5 q13 q15
      by (cases e3) (auto simp: setUp_def quiet_step_def)
  qed
  with q1 show "\<exists>t. s_trace s' = s_trace s0 @ first s0 @ t \<and> list_all quiet (first s0) \<and> list_all quiet t"
    and "e = None \<Longrightarrow> s_env s' = hide (s_env s0)"
    by (auto simp: quiet_step_def)
qed

text \<open>The trace of a run in which a command is run.\<close>

lemma Run_order:
  assumes "Run_on p x ss s0 = (r, s')" and "re_wtf x = []" and "s_trace s0 = []"
    and "CRun c as d env \<in> set (s_trace s')"
  shows "\<exists>t. s_trace s' = first s0 @ t @ drops x @ [CStatDir d, CRun (ss_cmd ss) (ss_args ss) d env] \<and>
      list_all quiet (first s0) \<and> list_all quiet t \<and>
      env = (hide (s_env s0))(''CPU_FSTAB'' := None, ''LC_GLENDA_CPU_FSTAB'' := None) \<and>
      r = re_ans x (butlast (s_trace s')) (last (s_trace s'))"
proof -
  obtain e5 s5 where st: "setUp p x ss s0 = (e5, s5)" by force
  obtain t where t: "s_trace s5 = first s0 @ t" "list_all quiet (first s0)" "list_all quiet t"
    using setUp_step(1) [OF st] assms(3) by auto
  then have nr: "no_runs (s_trace s5)" by (simp add: quiet_no_runs)
  note R = Run_after_setUp [OF assms(1,2) st nr assms(4)]
  have "env = (hide (s_env s0))(''CPU_FSTAB'' := None, ''LC_GLENDA_CPU_FSTAB'' := None)"
    using R setUp_step(2) [OF st] by simp
  with R t show ?thesis by (intro exI [of _ t] conjI) simp_all
qed

lemma Run_trace:
  assumes "Run_on p x ss s0 = (r, s')" and "re_wtf x = []" and "s_trace s0 = []"
    and "CRun c as d env \<in> set (s_trace s')"
  shows "\<exists>t. s_trace s' = t @ [CRun (ss_cmd ss) (ss_args ss) d env] \<and> no_runs t"
proof -
  from Run_order [OF assms] obtain t where
    "s_trace s' = first s0 @ t @ drops x @ [CStatDir d, CRun (ss_cmd ss) (ss_args ss) d env]"
    "list_all quiet (first s0)" "list_all quiet t"
    by blast
  then show ?thesis
    by (intro exI [of _ "first s0 @ t @ drops x @ [CStatDir d]"]) (simp add: quiet_no_runs)
qed

end

lemma Mount_fstab_step:
  "Mount_fstab ms evs (sys_mounter x) t s = (e, s') \<Longrightarrow> quiet_step s s' \<and> s_env s' = s_env s"
  unfolding Mount_fstab_def mount_def by (rule mount_lines_step)

text \<open>Linux: a \<open>/tmp\<close> of its own first, and the nonce is removed.\<close>

interpretation linux: session_platform linux "\<lambda>s. [CMount ''cpu'' (TempDir s) ''tmpfs'' 0 []]" "\<lambda>e. e(''CPUNONCE'' := None)"
proof
  fix x :: run_ext and ss s t and e :: "goerror option" and s'
  show "pf_runSetup linux x s = (e, s') \<Longrightarrow> s_trace s' = s_trace s @ [CMount ''cpu'' (TempDir s) ''tmpfs'' 0 []] \<and>
      list_all quiet [CMount ''cpu'' (TempDir s) ''tmpfs'' 0 []] \<and> s_env s' = s_env s"
    using runSetup_step [of x s e s'] by (simp add: linux_def)
  show "pf_osMounts linux x s = (e, s') \<Longrightarrow> quiet_step s s' \<and> s_env s' = s_env s"
    using osMounts_step [of s x] by (auto simp: linux_def)
  show "pf_Namespace linux x ss s = (e, s') \<Longrightarrow>
      quiet_step s s' \<and> (e = None \<longrightarrow> s_env s' = (s_env s)(''CPUNONCE'' := None))"
    using Namespace_step [of x ss s e s'] by (simp add: linux_def)
  show "pf_Mount linux x t s = (e, s') \<Longrightarrow> quiet_step s s' \<and> s_env s' = s_env s"
    using Mount_fstab_step [of "re_ms x" "re_links x" x t s e s'] by (simp add: linux_def)
qed

section \<open>Properties\<close>


text \<open>A system on which every call succeeds, and a session for a user there.\<close>

definition sample_run :: run_ext where
  "sample_run = \<lparr>re_ans = (\<lambda>t c. None), re_ms = (\<lambda>n. 0), re_links = (\<lambda>s p. Inr p), re_uid = 1000, re_gid = 1000,
    re_fd = 7, re_wtf = []\<rparr>"

definition sample_sys :: sys where
  "sample_sys = \<lparr>s_env = [''CPUNONCE'' \<mapsto> ''abc'', ''PWD'' \<mapsto> ''/home''], s_trace = [], s_fail = False\<rparr>"

lemma sample_run_runs:
  "\<exists>r s' env. Run sample_run (New_session port cmd args) sample_sys = (r, s') \<and>
     CRun cmd args ''/home'' env \<in> set (s_trace s')"
  by (simp add: Run_on_def linux_def runSetup_def TmpMounts_def osMounts_def Namespace_def mount_env_def Terminal_def DropPrivs_def
      clear_fstab_def unsetenv_def getenv_def do_call_def sample_run_def sample_sys_def New_session_def Let_def)


lemma dial_two:
  "dial_hosts x [a, b] s = (True, s') \<Longrightarrow> s_env s' = s_env s \<and>
     (\<exists>dials. (dials = [CDial a] \<or> dials = [CDial a, CDial b] \<and> re_ans x (s_trace s) (CDial a) \<noteq> None) \<and>
       s_trace s' = s_trace s @ dials)"
  by (auto simp: do_call_def split: option.splits)

text \<open>The calls of a \<open>Namespace\<close> that succeeds.\<close>

lemma Namespace_9p:
  assumes "Namespace x ss s = (None, s')" and "s_env s ''CPUNONCE'' = Some nonce"
  shows "let v6 = CDial (''[::1]:'' @ ss_port9p ss); v4 = CDial (''127.0.0.1:'' @ ss_port9p ss);
             user = (if getenv s ''USER'' = [] then ''nouser'' else getenv s ''USER'') in
    s_env s' = (s_env s)(''CPUNONCE'' := None) \<and>
    (\<exists>dials. (dials = [v6] \<or> (dials = [v6, v4] \<and> re_ans x (s_trace s) v6 \<noteq> None)) \<and>
      s_trace s' = s_trace s @ dials @ [CWriteNonce nonce, CSocketFile,
        CMount ''localhost'' (path_join [TempDir s, ''cpu'']) ''9p'' (re_ms x ''MS_NODEV'' OR re_ms x ''MS_NOSUID'')
          (mount_opts ss (re_fd x) user)])"
proof -
  let ?v6 = "''[::1]:'' @ ss_port9p ss" and ?v4 = "''127.0.0.1:'' @ ss_port9p ss"
  let ?s1 = "unsetenv ''CPUNONCE'' s"
  have s1: "s_trace ?s1 = s_trace s" "s_env ?s1 = (s_env s)(''CPUNONCE'' := None)"
    by (simp_all add: unsetenv_def)
  obtain b s2 where d: "dial_hosts x [?v6, ?v4] ?s1 = (b, s2)" by force
  obtain e3 s3 where c3: "do_call (re_ans x) (CWriteNonce nonce) s2 = (e3, s3)" by force
  obtain e4 s4 where c4: "do_call (re_ans x) CSocketFile s3 = (e4, s4)" by force
  let ?user = "\<lambda>s. if getenv s ''USER'' = [] then ''nouser'' else getenv s ''USER''"
  let ?m = "\<lambda>s. CMount ''localhost'' (path_join [TempDir s, ''cpu'']) ''9p'' (re_ms x ''MS_NODEV'' OR re_ms x ''MS_NOSUID'')
      (mount_opts ss (re_fd x) (?user s))"
  obtain e5 s5 where c5: "do_call (re_ans x) (?m s4) s4 = (e5, s5)" by force
  have ok: "b" "e3 = None" "e4 = None" "s' = s5"
    using assms d c3 c4 c5 by (auto simp: Namespace_def Let_def split: bool.splits option.splits)
  have "dial_hosts x [?v6, ?v4] ?s1 = (True, s2)" using d ok(1) by simp
  note q2 = dial_two [OF this]
  note q = do_call_step [OF c3] do_call_step [OF c4] do_call_step [OF c5]
  have e4: "s_env s4 = (s_env s)(''CPUNONCE'' := None)" using q q2 s1 by simp
  then have same: "getenv s4 ''USER'' = getenv s ''USER''" "TempDir s4 = TempDir s"
    by (simp_all add: getenv_def TempDir_def)
  obtain dials where "dials = [CDial ?v6] \<or> dials = [CDial ?v6, CDial ?v4] \<and> re_ans x (s_trace s) (CDial ?v6) \<noteq> None"
      "s_trace s2 = s_trace s @ dials"
    using q2 s1 by auto
  then show ?thesis
    using q ok(4) e4 unfolding Let_def same by (intro conjI exI [of _ dials]) simp_all
qed



section \<open>Running the command\<close>

text \<open>
  \<open>RunCmd\<close> in \<open>session/fns.go\<close>, which answers a \<open>CRun\<close>: the goroutine starts the process, signals arrive, and the run
  returns, in some order. A signal is passed to the process, which is nil before it was started; whether it could be
  sent is only logged. \<open>None\<close> is a command that has not ended yet.
\<close>

datatype run_event = ProcessStarts | SignalArrives string | RunReturns "goerror option"

fun RunCmd :: "run_event list \<Rightarrow> bool \<Rightarrow> string list \<Rightarrow> (goerror option \<times> string list) option res" where
  "RunCmd [] started sent = Ok None"
| "RunCmd (ProcessStarts # evs) started sent = RunCmd evs True sent"
| "RunCmd (SignalArrives s # evs) started sent =
     (if started then RunCmd evs started (sent @ [s]) else Panic ''nil pointer dereference'')"
| "RunCmd (RunReturns e # evs) started sent = Ok (Some (e, sent))"

text \<open>All signals after the start are passed on, in order, and the result is that of the run.\<close>

lemma RunCmd_signals:
  "RunCmd (ProcessStarts # map SignalArrives sigs @ RunReturns e # evs) False [] = Ok (Some (e, sigs))"
proof -
  have "RunCmd (map SignalArrives sigs @ RunReturns e # evs) True sent = Ok (Some (e, sent @ sigs))" for sent
    by (induction sigs arbitrary: sent) simp_all
  then show ?thesis by simp
qed

text \<open>A signal before the start panics the session.\<close>

lemma signal_before_process: "RunCmd (SignalArrives s # evs) False [] = Panic ''nil pointer dereference''"
  by simp

end
