(* ===== verification/EndToEnd.thy ===== *)
theory EndToEnd
  imports FsCpio BindMounts ClientCmd Server Cpud Session
begin

text \<open>
  A command from the client to the process the session runs: the client's \<open>Start\<close> sends one
  string (\<open>client/client.go\<close>), the ssh server splits it into words and its handler runs cpud with
  them (\<open>server/server.go\<close>), that cpud parses its flags and makes a session
  (\<open>cmds/cpud/main_linux.go\<close>), which runs the command (\<open>session/session.go\<close>).
\<close>

section \<open>The words of a command\<close>

text \<open>The command line of the cpud that the server starts for a session.\<close>

definition child_argv :: "exec_cmd \<Rightarrow> string list" where
  "child_argv e = ex_path e # ex_args e"

lemma handler_on_argv:
  assumes "\<And>n args. child_argv (mk n args) = n # args"
  shows "child_argv (fst (handler_on mk txt r s cpud)) = cpud # ''-remote'' # ss_command s"
  using assms [of cpud "''-remote'' # ss_command s"]
  by (auto simp: child_argv_def handler_on_def Let_def split: option.splits)

lemma command_argv: "child_argv (command n args) = n # args"
  by (simp add: child_argv_def command_def exec_Command_def)

lemma transport_on:
  assumes "\<And>n args. child_argv (mk n args) = n # args" and "c_cmd c = []" and "c_Args c \<noteq> []"
    and "hd (c_Args c) = [] \<or> hd (hd (c_Args c)) \<noteq> CHR ''-''"
    and "shell_words (start_command c) = Some (ss_command s)"
  shows "cpud_main shell pid (child_argv (fst (handler_on mk txt r s cpud))) =
    RunSession (if c_port9p c = 0 then [] else show_nat (unat (c_port9p c))) (hd (c_Args c)) (tl (c_Args c)) False"
proof -
  have w: "ss_command s = (if c_port9p c = 0 then [] else [''-port9p='' @ show_nat (unat (c_port9p c))]) @ c_Args c"
    using shell_words_start [OF assms(2)] assms(5) by simp
  show ?thesis
    using cpud_main_session [OF assms(3,4)] by (simp add: handler_on_argv [where mk = mk, OF assms(1)] w)
qed

lemmas transport = transport_on [where mk = command, OF command_argv]

text \<open>On any platform, a session that the server's cpud makes runs the client's command.\<close>

lemma command_runs_on:
  assumes "session_platform p first hide" and "\<And>n args. child_argv (mk n args) = n # args"
    and "c_cmd c = []" and "c_Args c \<noteq> []"
    and "hd (c_Args c) = [] \<or> hd (hd (c_Args c)) \<noteq> CHR ''-''"
    and "shell_words (start_command c) = Some (ss_command s)"
    and "cpud_main shell pid (child_argv (fst (handler_on mk txt cr s cpud))) = RunSession port cmd args dbg"
    and "Run_on p x (New_session port cmd args) s0 = (r, s')" and "re_wtf x = []" and "s_trace s0 = []"
    and "CRun prog argv d env \<in> set (s_trace s')"
  shows "prog # argv = c_Args c \<and> last (s_trace s') = CRun prog argv d env \<and>
    port = (if c_port9p c = 0 then [] else show_nat (unat (c_port9p c)))"
proof -
  have "RunSession port cmd args dbg =
      RunSession (if c_port9p c = 0 then [] else show_nat (unat (c_port9p c))) (hd (c_Args c)) (tl (c_Args c)) False"
    using transport_on [OF assms(2-6)] assms(7) by simp
  then have p: "port = (if c_port9p c = 0 then [] else show_nat (unat (c_port9p c)))"
    and ca: "cmd # args = c_Args c"
    using assms(4) by auto
  from session_platform.Run_trace [OF assms(1,8-11)] obtain t where
    "s_trace s' = t @ [CRun (ss_cmd (New_session port cmd args)) (ss_args (New_session port cmd args)) d env]"
    and "no_runs t"
    by blast
  with assms(11) p ca show ?thesis
    by (auto simp: New_session_def dest: no_runsD)
qed

text \<open>The client's command reaches the session unchanged. If the server's ssh library splits
  the string that the client sends as a shell does, and the first argument does not begin with
  a dash, then the cpud that the handler starts runs a session with the client's 9P port (or
  the empty one), the first argument as the command and the others, any bytes, as its arguments.\<close>

lemma command_transport:
  assumes "c_cmd c = []" and "c_Args c \<noteq> []"
    and "hd (c_Args c) = [] \<or> hd (hd (c_Args c)) \<noteq> CHR ''-''"
    and "shell_words (start_command c) = Some (ss_command s)"
  shows "cpud_main shell pid (child_argv (fst (handler txt r s cpud))) =
    RunSession (if c_port9p c = 0 then [] else show_nat (unat (c_port9p c))) (hd (c_Args c)) (tl (c_Args c)) False"
  by (rule transport [OF assms])

theorem command_transport_witness:
  "cpud_main None 7 (child_argv (fst (handler (\<lambda>e. []) \<lparr>cr_pty_start = None, cr_wait = None, cr_exit = 0, cr_run = None\<rparr>
      \<lparr>ss_command = [''ls'', ''a b''], ss_environ = [], ss_pty = None\<rparr> ''/bin/cpud''))) =
    RunSession [] ''ls'' [''a b''] False"
proof -
  have c: "c_cmd sample_cmd = []" "c_port9p sample_cmd = 0" "c_Args sample_cmd = [''ls'', ''a b'']"
    by (simp_all add: sample_cmd_def Command_def Let_def)
  have "shell_words (start_command sample_cmd) =
      Some (ss_command \<lparr>ss_command = [''ls'', ''a b''], ss_environ = [], ss_pty = None\<rparr>)"
    using shell_words_start [OF c(1)] c by simp
  from command_transport [OF c(1) _ _ this] c show ?thesis by simp
qed

section \<open>The process that is run\<close>

text \<open>C5: what the client asks for is what runs. In the situation of the transport, the session that
  the server's cpud makes runs, if it comes to running anything (no debugging command set, a
  fresh system), the client's first argument with the client's other arguments, last of all its
  calls; the session's 9P port is the client's, or empty if the client has none.\<close>

theorem client_command_runs:
  assumes "c_cmd c = []" and "c_Args c \<noteq> []"
    and "hd (c_Args c) = [] \<or> hd (hd (c_Args c)) \<noteq> CHR ''-''"
    and "shell_words (start_command c) = Some (ss_command s)"
    and "cpud_main shell pid (child_argv (fst (handler txt cr s cpud))) = RunSession port cmd args dbg"
    and "Run x (New_session port cmd args) s0 = (r, s')" and "re_wtf x = []" and "s_trace s0 = []"
    and "CRun prog argv d env \<in> set (s_trace s')"
  shows "prog # argv = c_Args c \<and> last (s_trace s') = CRun prog argv d env \<and>
    port = (if c_port9p c = 0 then [] else show_nat (unat (c_port9p c)))"
  by (rule command_runs_on [OF linux.session_platform_axioms command_argv assms])

theorem client_command_runs_witness:
  "\<exists>r s' env. Run sample_run (New_session [] ''ls'' [''a b'']) sample_sys = (r, s') \<and>
    last (s_trace s') = CRun ''ls'' [''a b''] ''/home'' env"
proof -
  let ?s = "\<lparr>ss_command = [''ls'', ''a b''], ss_environ = [], ss_pty = None\<rparr>"
  let ?cr = "\<lparr>cr_pty_start = None, cr_wait = None, cr_exit = 0, cr_run = None\<rparr>"
  have c: "c_cmd sample_cmd = []" "c_port9p sample_cmd = 0" "c_Args sample_cmd = [''ls'', ''a b'']"
    by (simp_all add: sample_cmd_def Command_def Let_def)
  have w: "shell_words (start_command sample_cmd) = Some (ss_command ?s)"
    using shell_words_start [OF c(1)] c by simp
  have hd: "c_Args sample_cmd \<noteq> []" "hd (c_Args sample_cmd) = [] \<or> hd (hd (c_Args sample_cmd)) \<noteq> CHR ''-''"
    by (simp_all add: c)
  have m: "cpud_main None 7 (child_argv (fst (handler (\<lambda>e. []) ?cr ?s ''/bin/cpud''))) = RunSession [] ''ls'' [''a b''] False"
    using transport [OF c(1) hd w] c by simp
  obtain r s' env where R: "Run sample_run (New_session [] ''ls'' [''a b'']) sample_sys = (r, s')"
    and C: "CRun ''ls'' [''a b''] ''/home'' env \<in> set (s_trace s')"
    using sample_run_runs by blast
  have "re_wtf sample_run = []" "s_trace sample_sys = []" by (simp_all add: sample_run_def sample_sys_def)
  from client_command_runs [OF c(1) hd w m R this C] R show ?thesis by blast
qed

end
