(* ===== verification/Cpuns.thy ===== *)
theory Cpuns
  imports CpuCmd Session
begin

text \<open>
  The program cpuns, \<open>cmds/cpuns/main_linux.go\<close>, which replaces cpud where the server is sshd: it calls itself
  up to three times, through sudo to be root, in a new mount name space, and then builds the name space of theory
  Session and runs the command as the user.

  Each call is a pass: from the environment and the arguments of a process to the process it runs next. sudo itself
  is outside the repository; what it keeps of an environment is a parameter of the theorems on several passes.
\<close>

type_synonym env_map = "string \<Rightarrow> string option"

section \<open>The steps\<close>

text \<open>\<open>checkprivate\<close>: the optional fields of the mounts of the root.\<close>

definition checkprivate :: "goerror + string list \<Rightarrow> goerror option" where
  "checkprivate mnts =
     (case mnts of
        Inl e \<Rightarrow> Some e
      | Inr ms \<Rightarrow>
          if length ms \<noteq> 1 then Some (Wrapf ''got more than 1 mount for /(%v):%w'' [] (Some ErrInvalid))
          else if contains (ms ! 0) ''shared:1'' then Some (Errorf ''/ is not private'' [])
          else None)"

text \<open>A root that is shared with another peer group than the first passes.\<close>

lemma shared_root_missed: "checkprivate (Inr [''shared:2'']) = None"
  by (simp add: checkprivate_def contains_def)

text \<open>A process that is run: arguments with the program first, environment, directory (empty for the current one).\<close>

record child =
  ch_argv :: "string list"
  ch_env :: env_map
  ch_dir :: string
  ch_unshare :: bool

text \<open>\<open>strings.Split\<close> never gives an empty list, so the environment of sudo is never that of the process.\<close>

definition sudo_child :: "string \<Rightarrow> env_map \<Rightarrow> string \<Rightarrow> string list \<Rightarrow> child" where
  "sudo_child n penv env args =
     (let e1 = (case penv ''LC_GLENDA_CPU_FSTAB'' of Some fstab \<Rightarrow> [''CPU_FSTAB='' @ fstab] | None \<Rightarrow> []);
          s = split_on NL env;
          e2 = (if 0 < length s then e1 @ s else e1)
      in \<lparr>ch_argv = [''sudo'', ''--preserve-env=CPU_FSTAB'', n, ''-env='' @ env] @ args,
          ch_env = (if length e2 = 0 then penv else exec_env e2), ch_dir = [], ch_unshare = False\<rparr>)"

definition unshare_child :: "string \<Rightarrow> env_map \<Rightarrow> string \<Rightarrow> string list \<Rightarrow> child" where
  "unshare_child n penv env args =
     (let s = split_on NL env;
          e1 = (if 0 < length s then s else []);
          e2 = (case penv ''LC_GLENDA_CPU_FSTAB'' of Some fstab \<Rightarrow> e1 @ [''CPU_FSTAB='' @ fstab] | None \<Rightarrow> e1)
      in \<lparr>ch_argv = n # args, ch_env = penv ++ exec_env e2,
          ch_dir = (case penv ''PWD'' of None \<Rightarrow> [] | Some d \<Rightarrow> d), ch_unshare = True\<rparr>)"

text \<open>The user or group: that of the process unless sudo named one.\<close>

definition sudo_id :: "string option \<Rightarrow> u32 \<Rightarrow> goerror + u32" where
  "sudo_id v i =
     (case v of None \<Rightarrow> Inr i
      | Some u \<Rightarrow> (case parse_uint u 32 of Inl e \<Rightarrow> Inl e | Inr n \<Rightarrow> Inr (of_nat n)))"

section \<open>main\<close>

record cpuns_ext =
  ce_exe :: "goerror + string"
  ce_uid :: u32
  ce_gid :: u32
  ce_mounts :: "goerror + string list"
  ce_run :: run_ext

definition cpuns_flag_kind :: "string \<Rightarrow> bool option" where
  "cpuns_flag_kind n = (if n = ''d'' then Some True else if n = ''env'' then Some False else None)"

text \<open>The command at the end, with the user, the group and what running it returned.\<close>

record user_cmd =
  uc_cmd :: string
  uc_args :: "string list"
  uc_env :: env_map
  uc_dir :: string
  uc_uid :: u32
  uc_gid :: u32
  uc_err :: "goerror option"

datatype pass = PExit int | PRunAs child | PCommand user_cmd sys

text \<open>The last pass: the name space, the terminal, and the command as the user.\<close>

definition run_user :: "cpuns_ext \<Rightarrow> env_map \<Rightarrow> string \<Rightarrow> string list \<Rightarrow> pass" where
  "run_user x penv env args0 =
     (let args = (if length args0 = 0 then [case penv ''SHELL'' of Some sh \<Rightarrow> sh | None \<Rightarrow> ''/bin/sh''] else args0);
          ss = New_session [] (hd args) (tl args)
      in case NameSpace (ce_run x) ss \<lparr>s_env = penv, s_trace = [], s_fail = False\<rparr> of
           (Some e, s1) \<Rightarrow> PExit 1
         | (None, s1) \<Rightarrow>
             (let s2 = snd (Terminal (ce_run x) s1) in
              case sudo_id (s_env s2 ''SUDO_UID'') (ce_uid x) of Inl e \<Rightarrow> PExit 1
              | Inr uid \<Rightarrow>
                  (case sudo_id (s_env s2 ''SUDO_GID'') (ce_gid x) of Inl e \<Rightarrow> PExit 1
                   | Inr gid \<Rightarrow>
                       (let s = split_on NL env;
                            cenv = (if 0 < length s then s_env s2 ++ exec_env s else s_env s2)
                        in case do_call (re_ans (ce_run x)) (CStatDir (getenv s2 ''CPU_PWD'')) s2 of (e, s3) \<Rightarrow>
                          (let pwd = (if e \<noteq> None then ''/'' else getenv s2 ''CPU_PWD'')
                           in case do_call (re_ans (ce_run x)) (CRun (ss_cmd ss) (ss_args ss) pwd cenv) s3 of (err, s4) \<Rightarrow>
                             PCommand \<lparr>uc_cmd = ss_cmd ss, uc_args = ss_args ss, uc_env = cenv, uc_dir = pwd,
                               uc_uid = uid, uc_gid = gid, uc_err = err\<rparr> s4)))))"

definition cpuns_main :: "cpuns_ext \<Rightarrow> env_map \<Rightarrow> string list \<Rightarrow> pass" where
  "cpuns_main x penv argv =
     (case parse_flags cpuns_flag_kind [] (drop 1 argv) of
        FlagsExit m \<Rightarrow> PExit (if m = ''flag: help requested'' then 0 else 2)
      | FlagsOk acc args \<Rightarrow>
          (let env = flag_value acc ''env'' [] in
           if ce_uid x \<noteq> 0 then
             (case ce_exe x of Inl e \<Rightarrow> PExit 1 | Inr n \<Rightarrow> PRunAs (sudo_child n penv env args))
           else if checkprivate (ce_mounts x) \<noteq> None then
             (case ce_exe x of Inl e \<Rightarrow> PExit 1 | Inr n \<Rightarrow> PRunAs (unshare_child n penv env args))
           else run_user x penv env args))"

section \<open>Facts\<close>

lemma env_flag: "flag_body (''-env='' @ e) = Some (''env='' @ e)"
  "cut CHR ''='' (''env='' @ e) = Some (''env'', e)"
  by (simp_all add: flag_body_def)

text \<open>Arguments the flag parser leaves alone.\<close>

definition plain_args :: "string list \<Rightarrow> bool" where
  "plain_args args = (args = [] \<or> flag_body (hd args) = None)"

lemma parse_env_flag:
  "plain_args args \<Longrightarrow> parse_flags cpuns_flag_kind [] ((''-env='' @ e) # args) = FlagsOk [(''env'', e)] args"
  using parse_flags_stop [of args cpuns_flag_kind "[(''env'', e)]"]
  by (simp add: plain_args_def env_flag cpuns_flag_kind_def Let_def del: append.simps) simp

lemma parse_no_flag: "plain_args args \<Longrightarrow> parse_flags cpuns_flag_kind [] args = FlagsOk [] args"
  by (simp add: plain_args_def parse_flags_stop)

lemma flag_value_one: "flag_value [(k, v)] k d = v" "flag_value [] k d = d"
  by (simp_all add: flag_value_def)

lemma split_on_length [simp]: "0 < length (split_on c s)"
  by simp

lemma exec_env_Nil: "exec_env [[]] = Map.empty" "exec_env [] = Map.empty"
  by (simp_all add: exec_env_def fun_eq_iff)

lemma exec_env_fstab: "exec_env [''CPU_FSTAB='' @ t] k = (if k = ''CPU_FSTAB'' then Some t else None)"
  by (simp add: exec_env_def)

lemma sudo_child_env:
  "ch_env (sudo_child n penv E args) k = (case exec_env (split_on NL E) k of Some v \<Rightarrow> Some v
     | None \<Rightarrow> if k = ''CPU_FSTAB'' then penv ''LC_GLENDA_CPU_FSTAB'' else None)"
proof -
  define s where "s = split_on NL E"
  have s: "s \<noteq> []" by (simp add: s_def)
  show ?thesis
  proof (cases "penv ''LC_GLENDA_CPU_FSTAB''")
    case None
    with s show ?thesis by (simp add: sudo_child_def s_def [symmetric] Let_def split: option.split)
  next
    case (Some t)
    define e where "e = [''CPU_FSTAB='' @ t]"
    have e: "exec_env (e @ s) k = (case exec_env s k of Some v \<Rightarrow> Some v | None \<Rightarrow> if k = ''CPU_FSTAB'' then Some t else None)"
      unfolding exec_env_append e_def exec_env_fstab by (simp split: option.split)
    have "ch_env (sudo_child n penv E args) = exec_env (e @ s)"
      using s Some by (simp add: sudo_child_def s_def [symmetric] e_def Let_def)
    with e Some show ?thesis by (simp add: s_def split: option.split)
  qed
qed

lemma unshare_child_env:
  "ch_env (unshare_child n penv E args) k =
     (if k = ''CPU_FSTAB'' \<and> penv ''LC_GLENDA_CPU_FSTAB'' \<noteq> None then penv ''LC_GLENDA_CPU_FSTAB''
      else (case exec_env (split_on NL E) k of Some v \<Rightarrow> Some v | None \<Rightarrow> penv k))"
proof -
  define s where "s = split_on NL E"
  have s: "s \<noteq> []" by (simp add: s_def)
  show ?thesis
  proof (cases "penv ''LC_GLENDA_CPU_FSTAB''")
    case None
    with s show ?thesis by (simp add: unshare_child_def s_def [symmetric] Let_def map_add_def split: option.split)
  next
    case (Some t)
    have "ch_env (unshare_child n penv E args) = penv ++ exec_env (s @ [''CPU_FSTAB='' @ t])"
      using s Some by (simp add: unshare_child_def s_def [symmetric] Let_def)
    with Some show ?thesis
      unfolding map_add_def exec_env_append exec_env_fstab by (simp add: s_def split: option.split)
  qed
qed

lemma NameSpace_step:
  assumes "NameSpace x ss s = (None, s')"
  shows "quiet_step s s' \<and>
    s_env s' = (s_env s)(''CPUNONCE'' := None, ''CPU_FSTAB'' := None, ''LC_GLENDA_CPU_FSTAB'' := None)"
proof -
  obtain e1 s1 where r: "runSetup x s = (e1, s1)" by force
  obtain tme s2 where t: "TmpMounts linux x s1 = (tme, s2)" by force
  obtain e3 s3 where n: "Namespace x ss s2 = (e3, s3)" by force
  note q = runSetup_step [OF r] linux.TmpMounts_step [OF t] Namespace_step [OF n] linux.mount_env_step [of s3 x]
  have e: "e1 = None" using assms r by (cases e1) (simp_all add: NameSpace_on_def linux_def)
  moreover have "e3 = None" using assms r t n e q(2) errors_join_last [of None]
    by (cases e3) (auto simp: NameSpace_on_def linux_def Let_def)
  ultimately have s': "s' = clear_fstab (mount_env linux x s3)" using assms r t n q(2) by (simp add: NameSpace_on_def linux_def Let_def)
  have "quiet_step s (mount_env linux x s3)" using q by (blast intro: quiet_step_trans)
  then have "quiet_step s s'" unfolding s' by (simp add: quiet_step_def clear_fstab_def unsetenv_def)
  with q s' show ?thesis by (simp add: clear_fstab_def unsetenv_def fun_upd_twist)
qed

definition sample_cpuns :: "u32 \<Rightarrow> string list \<Rightarrow> cpuns_ext" where
  "sample_cpuns uid mnts = \<lparr>ce_exe = Inr ''/bin/cpuns'', ce_uid = uid, ce_gid = uid, ce_mounts = Inr mnts, ce_run = sample_run\<rparr>"

section \<open>Properties\<close>

text \<open>What sshd's shell is asked to run.\<close>

lemma sshd_words:
  assumes "SetOptions (new_command x f host args) (cpu_options x f) = (None, c1)"
    and "Dial (ne_dial x) c1 = (Ok (), c2)" and "add_nfs x f c2 = Ok c3" and "cf_sshd f" and "cf_srvnfs f" and "\<not> cf_ninep f"
    and "shell_words (start_command c3) = Some argv"
  shows "argv = cf_cpuns f # (''-env='' @ join_with [NL] (ne_environ x @ [''CPU_PWD='' @ ext_getenv x ''PWD''])) # args"
proof -
  let ?e = "join_with [NL] (ne_environ x @ [''CPU_PWD='' @ ext_getenv x ''PWD''])"
  have ra: "remote_args x f args = [cf_cpuns f, ''-env='' @ ?e] @ args" using assms(4,5) by (simp add: remote_args_def Let_def)
  note o = cpu_options_frame [OF assms(1)]
  have d: "c_Args c2 = c_Args c1 \<and> c_cmd c2 = c_cmd c1 \<and> c_port9p c2 = c_port9p c1"
    using Dial_keeps [OF assms(2)] o assms(6) by simp
  have "c_Args c3 = c_Args c2 \<and> c_cmd c3 = c_cmd c2 \<and> c_port9p c3 = c_port9p c2"
    using assms(3,5) by (auto simp: add_nfs_def bind_res_Ok_iff)
  with o d ra have "c_Args c3 = [cf_cpuns f, ''-env='' @ ?e] @ args" "c_cmd c3 = []" "c_port9p c3 = 0" by auto
  with shell_words_start [of c3] assms(7) show ?thesis by simp
qed

text \<open>The environment reaches cpuns. Over sshd with NFS, the command string of the client splits into words of which cpuns' flags take one,
  and the user's command, if it does not look like a flag, is left as it was; the environment in that flag splits into the
  variables of the client and its directory exactly when no variable has a newline.\<close>

lemma cpuns_receives:
  assumes "SetOptions (new_command x f host args) (cpu_options x f) = (None, c1)"
    and "Dial (ne_dial x) c1 = (Ok (), c2)" and "add_nfs x f c2 = Ok c3" and "cf_sshd f" and "cf_srvnfs f" and "\<not> cf_ninep f"
    and "shell_words (start_command c3) = Some argv" and "args = [] \<or> flag_body (hd args) = None"
  shows "\<exists>e. parse_flags cpuns_flag_kind [] (drop 1 argv) = FlagsOk [(''env'', e)] args \<and>
    (split_on NL e = ne_environ x @ [''CPU_PWD='' @ ext_getenv x ''PWD''] \<longleftrightarrow>
      (\<forall>v \<in> set (ne_environ x @ [''CPU_PWD='' @ ext_getenv x ''PWD'']). NL \<notin> set v))"
proof -
  let ?env = "ne_environ x @ [''CPU_PWD='' @ ext_getenv x ''PWD'']"
  let ?e = "join_with [NL] ?env"
  have "parse_flags cpuns_flag_kind [] (drop 1 argv) = FlagsOk [(''env'', ?e)] args"
    using parse_env_flag [of args ?e] assms(8) unfolding sshd_words [OF assms(1-7)] plain_args_def by simp
  moreover have "split_on NL ?e = ?env \<longleftrightarrow> (\<forall>v \<in> set ?env. NL \<notin> set v)"
    by (rule split_join_iff) simp
  ultimately show ?thesis by blast
qed

theorem cpuns_receives_witness:
  "\<exists>(c3 :: nat Cmd) argv e. shell_words (start_command c3) = Some argv \<and>
     parse_flags cpuns_flag_kind [] (drop 1 argv) = FlagsOk [(''env'', e)] [''ls''] \<and> split_on NL e = [''HOME=/home/u'', ''CPU_PWD='']"
proof -
  obtain c1 where 1: "SetOptions (new_command sample_new sample_cpu_flags ''h'' [''ls'']) (cpu_options sample_new sample_cpu_flags) = (None, c1)"
    and d: "c_DisablePrivateKey c1" "c_network c1 = ''tcp''" "c_NameSpace c1 = []" "c_Root c1 = ''/''" "\<not> c_Ninep c1"
    by (rule sample_options)
  obtain c2 where 2: "Dial sample_dial c1 = (Ok (), c2)" using sample_dial_ok [OF d] by blast
  obtain c3 where 3: "add_nfs sample_new sample_cpu_flags c2 = Ok c3" using sample_nfs_ok by blast
  have x: "ne_dial sample_new = sample_dial" "ne_environ sample_new = [''HOME=/home/u'']" by (simp_all add: sample_new_def)
  have f: "cf_sshd sample_cpu_flags" "cf_srvnfs sample_cpu_flags" "\<not> cf_ninep sample_cpu_flags"
    by (simp_all add: sample_cpu_flags_def)
  have p: "ext_getenv sample_new ''PWD'' = []" by (simp add: ext_getenv_def x)
  have "c_cmd c3 = []"
    using cpu_options_frame [OF 1] Dial_keeps [OF 2 d(5)] 3 f by (auto simp: add_nfs_def bind_res_Ok_iff)
  from shell_words_start [OF this] obtain argv where 4: "shell_words (start_command c3) = Some argv" by blast
  have "[''ls''] = [] \<or> flag_body (hd [''ls'']) = None" by (simp add: flag_body_def)
  from cpuns_receives [OF 1 _ 3 f 4 this, unfolded x p, OF 2] obtain e where
    "parse_flags cpuns_flag_kind [] (drop 1 argv) = FlagsOk [(''env'', e)] [''ls'']" "split_on NL e = [''HOME=/home/u'', ''CPU_PWD='']"
    by auto
  with 4 show ?thesis by blast
qed

text \<open>The three passes, from sshd to the user's command.\<close>

lemma three_passes:
  assumes "plain_args args" and "ce_uid x1 \<noteq> 0" and "ce_exe x1 = Inr n"
    and "ce_uid x2 = 0" and "ce_exe x2 = Inr n" and "checkprivate (ce_mounts x2) \<noteq> None"
    and "ce_uid x3 = 0" and "checkprivate (ce_mounts x3) = None"
    and "\<forall>e. sudo_env e ''CPU_FSTAB'' = e ''CPU_FSTAB''" and "\<forall>e. sudo_env e ''LC_GLENDA_CPU_FSTAB'' = None"
    and "exec_env (split_on NL E) ''LC_GLENDA_CPU_FSTAB'' = None"
    and "cpuns_main x1 penv (cp # (''-env='' @ E) # args) = PRunAs c1"
    and "cpuns_main x2 (sudo_env (ch_env c1)) (drop 2 (ch_argv c1)) = PRunAs c2"
  shows "ch_unshare c2 \<and> cpuns_main x3 (ch_env c2) (ch_argv c2) = run_user x3 (ch_env c2) [] args \<and>
    (\<forall>k v. exec_env (split_on NL E) k = Some v \<longrightarrow> ch_env c2 k = Some v) \<and>
    ch_env c2 ''CPU_FSTAB'' = (case exec_env (split_on NL E) ''CPU_FSTAB'' of Some v \<Rightarrow> Some v
      | None \<Rightarrow> penv ''LC_GLENDA_CPU_FSTAB'')"
proof -
  have c1: "c1 = sudo_child n penv E args"
    using assms(12) assms(2,3) by (simp add: cpuns_main_def parse_env_flag [OF assms(1)] flag_value_one Let_def del: append.simps parse_flags.simps)
  then have argv1: "drop 2 (ch_argv c1) = n # (''-env='' @ E) # args" by (simp add: sudo_child_def Let_def)
  have c2: "c2 = unshare_child n (sudo_env (ch_env c1)) E args"
    using assms(13) assms(4-6) unfolding argv1
    by (simp add: cpuns_main_def parse_env_flag [OF assms(1)] flag_value_one Let_def del: append.simps parse_flags.simps split: if_splits)
  then have u: "ch_unshare c2" "ch_argv c2 = n # args" by (simp_all add: unshare_child_def Let_def)
  have "cpuns_main x3 (ch_env c2) (ch_argv c2) = run_user x3 (ch_env c2) [] args"
    using assms(7,8) by (simp add: cpuns_main_def u parse_no_flag [OF assms(1)] flag_value_one Let_def del: parse_flags.simps)
  moreover have "ch_env c2 k = (case exec_env (split_on NL E) k of Some v \<Rightarrow> Some v | None \<Rightarrow> sudo_env (ch_env c1) k)" for k
    unfolding c2 unshare_child_env using assms(10) by simp
  ultimately show ?thesis using u assms(9) by (simp add: c1 sudo_child_env split: option.split)
qed





text \<open>Which fstab wins depends on the way to root: through sudo, that of the environment of the client; directly as root, that
  of the ssh session, in which the client has put its NFS mount. A client that was itself given an fstab by
  \<open>CPU_FSTAB\<close> thus loses the NFS mount on the way through sudo.\<close>

lemma cpuns_fstab_precedence:
  "ch_env (sudo_child n penv E args) ''CPU_FSTAB'' = (case exec_env (split_on NL E) ''CPU_FSTAB'' of
     Some v \<Rightarrow> Some v | None \<Rightarrow> penv ''LC_GLENDA_CPU_FSTAB'') \<and>
   ch_env (unshare_child n penv E args) ''CPU_FSTAB'' = (case penv ''LC_GLENDA_CPU_FSTAB'' of
     Some t \<Rightarrow> Some t
   | None \<Rightarrow> (case exec_env (split_on NL E) ''CPU_FSTAB'' of Some v \<Rightarrow> Some v | None \<Rightarrow> penv ''CPU_FSTAB''))"
  by (simp add: sudo_child_env unshare_child_env split: option.split)



end
