(* ===== verification/FreeBSD.thy ===== *)
theory FreeBSD
  imports EndToEnd Cpuns
begin

text \<open>
  The programs on FreeBSD: \<open>session/session_freebsd.go\<close>, \<open>mount/mount_freebsd.go\<close>,
  \<open>server/server_freebsd.go\<close> and \<open>cmds/cpuns/main_unix.go\<close>, and what is left of a session elsewhere
  (\<open>session/session_other.go\<close>). The rest of a session is that of theory Session.

  \<open>Mount\<close> on FreeBSD returns after it has called mount(8); the code below its \<open>return\<close> and \<open>iovstring\<close> are never used, and
  have no model. The table of options, which that code alone would read, is here with what \<open>parse\<close> makes of it.
\<close>

section \<open>Sessions\<close>

definition runSetup_bsd :: "run_ext \<Rightarrow> step" where
  "runSetup_bsd x s = (None, s)"

definition osMounts_bsd :: "run_ext \<Rightarrow> step" where
  "osMounts_bsd x s = (None, s)"

definition Namespace_bsd :: "run_ext \<Rightarrow> session \<Rightarrow> step" where
  "Namespace_bsd x ss s = (None, s)"

text \<open>\<open>Mount\<close>: \<open>tmp\<close> is the name of the temporary file, which is not removed.\<close>

definition Mount_bsd :: "(sys \<Rightarrow> string) \<Rightarrow> run_ext \<Rightarrow> string \<Rightarrow> step" where
  "Mount_bsd tmp x fstab s =
     (case do_call (re_ans x) CTempFile s of
        (Some e, s1) \<Rightarrow> (Some e, s1)
      | (None, s1) \<Rightarrow>
          (case do_call (re_ans x) (CWriteFile (tmp s) fstab) s1 of
             (Some e, s2) \<Rightarrow> (Some e, s2)
           | (None, s2) \<Rightarrow>
               (case do_call (re_ans x) (CExec [''mount'', ''-a'', ''-F'', tmp s]) s2 of
                  (Some e, s3) \<Rightarrow> (Some (Wrapf ''mount -F %q:%s:%w'' [tmp s] (Some e)), s3)
                | (None, s3) \<Rightarrow> (None, s3))))"

definition freebsd :: "(sys \<Rightarrow> string) \<Rightarrow> platform" where
  "freebsd tmp = \<lparr>pf_runSetup = runSetup_bsd, pf_osMounts = osMounts_bsd, pf_Namespace = Namespace_bsd, pf_Mount = Mount_bsd tmp\<rparr>"

text \<open>Elsewhere there are no sessions. \<open>Mount\<close> does not exist there.\<close>

definition runSetup_other :: "run_ext \<Rightarrow> step" where
  "runSetup_other x s = (None, s)"

definition osMounts_other :: "run_ext \<Rightarrow> step" where
  "osMounts_other x s = (None, s)"

definition Namespace_other :: "run_ext \<Rightarrow> session \<Rightarrow> step" where
  "Namespace_other x ss s = (Some (Wrapf ''CPUD: 9p mounts are only valid on Linux:%w'' [] (Some ErrNotExist)), s)"

definition other :: "(run_ext \<Rightarrow> string \<Rightarrow> step) \<Rightarrow> platform" where
  "other mnt = \<lparr>pf_runSetup = runSetup_other, pf_osMounts = osMounts_other, pf_Namespace = Namespace_other, pf_Mount = mnt\<rparr>"

section \<open>Options of mounts\<close>

text \<open>The table of \<open>mount.go\<close> with the entries that \<open>init\<close> of \<open>mount_freebsd.go\<close> adds, and \<open>parse\<close> over it.\<close>

definition convert_bsd :: "(string \<Rightarrow> u64) \<Rightarrow> (string \<times> u64) list" where
  "convert_bsd ms =
    [(''async'', ms ''MS_ASYNC''), (''invalidate'', ms ''MS_INVALIDATE''), (''rw'', 0), (''sync'', ms ''MS_SYNC''),
     (''mnt_acls'', ms ''MNT_ACLS''), (''mnt_async'', ms ''MNT_ASYNC''), (''mnt_automounted'', ms ''MNT_AUTOMOUNTED''),
     (''mnt_byfsid'', ms ''MNT_BYFSID''), (''mnt_cmdflags'', ms ''MNT_CMDFLAGS''), (''mnt_defexported'', ms ''MNT_DEFEXPORTED''),
     (''mnt_delexport'', ms ''MNT_DELEXPORT''), (''mnt_exkerb'', ms ''MNT_EXKERB''), (''mnt_exportanon'', ms ''MNT_EXPORTANON''),
     (''mnt_exported'', ms ''MNT_EXPORTED''), (''mnt_expublic'', ms ''MNT_EXPUBLIC''), (''mnt_exrdonly'', ms ''MNT_EXRDONLY''),
     (''mnt_force'', ms ''MNT_FORCE''), (''mnt_gjournal'', ms ''MNT_GJOURNAL''), (''mnt_ignore'', ms ''MNT_IGNORE''),
     (''mnt_lazy'', ms ''MNT_LAZY''), (''mnt_local'', ms ''MNT_LOCAL''), (''mnt_multilabel'', ms ''MNT_MULTILABEL''),
     (''mnt_nfs4acls'', ms ''MNT_NFS4ACLS''), (''mnt_noatime'', ms ''MNT_NOATIME''), (''mnt_noclusterr'', ms ''MNT_NOCLUSTERR''),
     (''mnt_noclusterw'', ms ''MNT_NOCLUSTERW''), (''mnt_noexec'', ms ''MNT_NOEXEC''), (''mnt_nonbusy'', ms ''MNT_NONBUSY''),
     (''mnt_nosuid'', ms ''MNT_NOSUID''), (''mnt_nosymfollow'', ms ''MNT_NOSYMFOLLOW''), (''mnt_nowait'', ms ''MNT_NOWAIT''),
     (''mnt_quota'', ms ''MNT_QUOTA''), (''mnt_rdonly'', ms ''MNT_RDONLY''), (''mnt_reload'', ms ''MNT_RELOAD''),
     (''mnt_rootfs'', ms ''MNT_ROOTFS''), (''mnt_snapshot'', ms ''MNT_SNAPSHOT''), (''mnt_softdep'', ms ''MNT_SOFTDEP''),
     (''mnt_suiddir'', ms ''MNT_SUIDDIR''), (''mnt_suj'', ms ''MNT_SUJ''), (''mnt_suspend'', ms ''MNT_SUSPEND''),
     (''mnt_synchronous'', ms ''MNT_SYNCHRONOUS''), (''mnt_union'', ms ''MNT_UNION''), (''mnt_untrusted'', ms ''MNT_UNTRUSTED''),
     (''mnt_update'', ms ''MNT_UPDATE''), (''mnt_updatemask'', ms ''MNT_UPDATEMASK''), (''mnt_user'', ms ''MNT_USER''),
     (''mnt_verified'', ms ''MNT_VERIFIED''), (''mnt_visflagmask'', ms ''MNT_VISFLAGMASK''), (''mnt_wait'', ms ''MNT_WAIT'')]"

definition parse_bsd :: "(string \<Rightarrow> u64) \<Rightarrow> string \<Rightarrow> u64 \<times> string" where
  "parse_bsd ms m = parse_with (convert_bsd ms) (split_on CHR '','' (trim_space m)) 0 []"

text \<open>No option of an fstab has the prefix that the names of the table have, so \<open>parse\<close> would take none of them for a flag.\<close>

lemma parse_bsd_no_flags: "parse_bsd ms ''ro,nosuid,noexec,union'' = (0, ''ro,nosuid,noexec,union'')"
proof -
  have s: "split_on CHR '','' (trim_space ''ro,nosuid,noexec,union'') = [''ro'', ''nosuid'', ''noexec'', ''union'']" by code_simp
  have k: "map fst (convert_bsd ms) = map fst (convert_bsd (\<lambda>_. 0))" by (simp add: convert_bsd_def)
  have "list_all (\<lambda>f. f \<notin> set (map fst (convert_bsd (\<lambda>_. 0)))) [''ro'', ''nosuid'', ''noexec'', ''union'']" by code_simp
  then have n: "map_of (convert_bsd ms) ''ro'' = None" "map_of (convert_bsd ms) ''nosuid'' = None"
    "map_of (convert_bsd ms) ''noexec'' = None" "map_of (convert_bsd ms) ''union'' = None"
    unfolding map_of_eq_None_iff set_map [symmetric] k by simp_all
  show ?thesis unfolding parse_bsd_def s by (simp add: n ignored_def)
qed

section \<open>The package server elsewhere\<close>

text \<open>
  \<open>server/server_other.go\<close>, which nothing can call, as it cannot be compiled. \<open>Namespace\<close> takes the nonce, if any, out of the environment,
  sends it and gives up; \<open>net.JoinHostPort\<close> on a port without a colon.
\<close>

definition Namespace_server_other :: "run_ext \<Rightarrow> session \<Rightarrow> step" where
  "Namespace_server_other x ss s0 =
     (let nonce = getenv s0 ''CPUNONCE''; s1 = unsetenv ''CPUNONCE'' s0
      in case do_call (re_ans x) (CDial (''localhost:'' @ ss_port9p ss)) s1 of
           (Some e, s2) \<Rightarrow> (Some (Errorf ''CPUD:Dial 9p port: %v'' []), s2)
         | (None, s2) \<Rightarrow>
             (case do_call (re_ans x) (CWriteNonce nonce) s2 of
                (Some e, s3) \<Rightarrow> (Some (Errorf ''CPUD:Write nonce: %v'' []), s3)
              | (None, s3) \<Rightarrow> (Some (Errorf ''CPUD: cannot use 9p connection yet'' []), s3)))"

definition osMounts_server_other :: "run_ext \<Rightarrow> step" where
  "osMounts_server_other x s = (None, s)"

definition runSetup_server_other :: "run_ext \<Rightarrow> step" where
  "runSetup_server_other x s = (None, s)"

definition command_server_other :: "string \<Rightarrow> string list \<Rightarrow> exec_cmd" where
  "command_server_other n args = exec_Command n args"

lemma Namespace_server_other_fails:
  "\<exists>e. fst (Namespace_server_other x ss s) = Some e \<and> s_env (snd (Namespace_server_other x ss s)) ''CPUNONCE'' = None"
  by (simp add: Namespace_server_other_def do_call_def unsetenv_def Let_def split: option.split)

text \<open>\<open>main\<close> of cpud on Darwin, as what it prints.\<close>

definition main_darwin_other :: string where
  "main_darwin_other = ''No support on Darwin right now'' @ [NL]"

section \<open>The server\<close>

text \<open>\<open>command\<close>: the child has the name space of the server.\<close>

definition command_bsd :: "string \<Rightarrow> string list \<Rightarrow> exec_cmd" where
  "command_bsd n args = exec_Command n args"

section \<open>cpuns\<close>

definition sudo_child_bsd :: "string \<Rightarrow> env_map \<Rightarrow> string \<Rightarrow> string list \<Rightarrow> child" where
  "sudo_child_bsd n penv env args =
     (let e1 = (case penv ''LC_GLENDA_CPU_FSTAB'' of Some fstab \<Rightarrow> [''CPU_FSTAB='' @ fstab] | None \<Rightarrow> []);
          s = split_on NL env;
          e2 = (if 0 < length s then e1 @ s else e1)
      in \<lparr>ch_argv = [''sudo'', ''-E'', n, ''-env='' @ env] @ args,
          ch_env = (if length e2 = 0 then penv else exec_env e2), ch_dir = [], ch_unshare = False\<rparr>)"

text \<open>
  The environment is added to nothing, and only if there is an fstab; an \<open>exec.Cmd\<close> without an environment has that of the
  process. The mount name space is not a new one.
\<close>

definition unshare_child_bsd :: "string \<Rightarrow> env_map \<Rightarrow> string \<Rightarrow> string list \<Rightarrow> child" where
  "unshare_child_bsd n penv env args =
     (let e = (case penv ''LC_GLENDA_CPU_FSTAB'' of
                 Some fstab \<Rightarrow>
                   (let e1 = [''CPU_FSTAB='' @ fstab]; s = split_on NL env in if 0 < length s then e1 @ s else e1)
               | None \<Rightarrow> [])
      in \<lparr>ch_argv = n # args, ch_env = (if length e = 0 then penv else exec_env e),
          ch_dir = (case penv ''PWD'' of None \<Rightarrow> [] | Some d \<Rightarrow> d), ch_unshare = False\<rparr>)"

text \<open>The last pass: the command has the variables that were sent and no others.\<close>

definition run_user_bsd :: "(sys \<Rightarrow> string) \<Rightarrow> cpuns_ext \<Rightarrow> env_map \<Rightarrow> string \<Rightarrow> string list \<Rightarrow> pass" where
  "run_user_bsd tmp x penv env args0 =
     (let args = (if length args0 = 0 then [case penv ''SHELL'' of Some sh \<Rightarrow> sh | None \<Rightarrow> ''/bin/sh''] else args0);
          ss = New_session [] (hd args) (tl args)
      in case NameSpace_on (freebsd tmp) (ce_run x) ss \<lparr>s_env = penv, s_trace = [], s_fail = False\<rparr> of
           (Some e, s1) \<Rightarrow> PExit 1
         | (None, s1) \<Rightarrow>
             (let s2 = snd (Terminal (ce_run x) s1) in
              case sudo_id (s_env s2 ''SUDO_UID'') (ce_uid x) of Inl e \<Rightarrow> PExit 1
              | Inr uid \<Rightarrow>
                  (case sudo_id (s_env s2 ''SUDO_GID'') (ce_gid x) of Inl e \<Rightarrow> PExit 1
                   | Inr gid \<Rightarrow>
                       (let s = split_on NL env;
                            cenv = (if 0 < length s then exec_env s else s_env s2)
                        in case do_call (re_ans (ce_run x)) (CStatDir (getenv s2 ''CPU_PWD'')) s2 of (e, s3) \<Rightarrow>
                          (let pwd = (if e \<noteq> None then ''/'' else getenv s2 ''CPU_PWD'')
                           in case do_call (re_ans (ce_run x)) (CRun (ss_cmd ss) (ss_args ss) pwd cenv) s3 of (err, s4) \<Rightarrow>
                             PCommand \<lparr>uc_cmd = ss_cmd ss, uc_args = ss_args ss, uc_env = cenv, uc_dir = pwd,
                               uc_uid = uid, uc_gid = gid, uc_err = err\<rparr> s4)))))"

definition cpuns_main_bsd :: "(sys \<Rightarrow> string) \<Rightarrow> cpuns_ext \<Rightarrow> env_map \<Rightarrow> string list \<Rightarrow> pass" where
  "cpuns_main_bsd tmp x penv argv =
     (case parse_flags cpuns_flag_kind [] (drop 1 argv) of
        FlagsExit m \<Rightarrow> PExit (if m = ''flag: help requested'' then 0 else 2)
      | FlagsOk acc args \<Rightarrow>
          (let env = flag_value acc ''env'' [] in
           if ce_uid x \<noteq> 0 then
             (case ce_exe x of Inl e \<Rightarrow> PExit 1 | Inr n \<Rightarrow> PRunAs (sudo_child_bsd n penv env args))
           else if checkprivate (ce_mounts x) \<noteq> None then
             (case ce_exe x of Inl e \<Rightarrow> PExit 1 | Inr n \<Rightarrow> PRunAs (unshare_child_bsd n penv env args))
           else run_user_bsd tmp x penv env args))"
section \<open>Sessions keep the contract of a platform\<close>

definition mount_bsd_calls :: "string \<Rightarrow> string \<Rightarrow> sys_call list" where
  "mount_bsd_calls f fstab = [CTempFile, CWriteFile f fstab, CExec [''mount'', ''-a'', ''-F'', f]]"

lemma Mount_bsd_step:
  "Mount_bsd tmp x t s = (e, s') \<Longrightarrow> s_env s' = s_env s \<and> s_fail s' = s_fail s \<and>
     (\<exists>i. s_trace s' = s_trace s @ take i (mount_bsd_calls (tmp s) t))"
  by (auto simp: Mount_bsd_def mount_bsd_calls_def do_call_def split: option.splits
      intro: exI [of _ 1] exI [of _ 2] exI [of _ 3])

lemma quiet_mount_bsd: "list_all quiet (take i (mount_bsd_calls f t))"
  by (auto simp: list_all_iff mount_bsd_calls_def dest!: in_set_takeD)

interpretation bsd: session_platform "freebsd tmp" "\<lambda>s. []" "\<lambda>e. e" for tmp
proof
  fix x :: run_ext and ss s t and e :: "goerror option" and s'
  show "pf_runSetup (freebsd tmp) x s = (e, s') \<Longrightarrow> s_trace s' = s_trace s @ [] \<and> list_all quiet [] \<and> s_env s' = s_env s"
    by (simp add: freebsd_def runSetup_bsd_def)
  show "pf_osMounts (freebsd tmp) x s = (e, s') \<Longrightarrow> quiet_step s s' \<and> s_env s' = s_env s"
    by (auto simp: freebsd_def osMounts_bsd_def session_steps)
  show "pf_Namespace (freebsd tmp) x ss s = (e, s') \<Longrightarrow> quiet_step s s' \<and> (e = None \<longrightarrow> s_env s' = s_env s)"
    by (auto simp: freebsd_def Namespace_bsd_def session_steps)
  show "pf_Mount (freebsd tmp) x t s = (e, s') \<Longrightarrow> quiet_step s s' \<and> s_env s' = s_env s"
    using Mount_bsd_step [of tmp x t s e s'] quiet_mount_bsd by (auto simp: freebsd_def quiet_step_def)
qed

lemma Terminal_trace:
  "Terminal x s = (e, s') \<Longrightarrow> \<exists>i. s_trace s' = s_trace s @ take i [CTermNew, CTermGet, CTermSet]"
  by (auto simp: Terminal_def do_call_def split: option.splits intro: exI [of _ 1] exI [of _ 2] exI [of _ 3])

text \<open>The calls of the set-up on FreeBSD.\<close>

lemma setUp_bsd:
  assumes "setUp (freebsd tmp) x ss s0 = (e, s')" and "s_trace s0 = []"
  shows "e = None \<and> s_env s' = s_env s0 \<and> (\<exists>i j f. s_trace s' =
    map (\<lambda>n. CMkdir n 438) (map (\<lambda>d. path_join [TempDir s0, d]) [''cpu'', ''local'', ''merge'', ''root''] @ [''/home'']) @
    (case s_env s0 ''CPU_FSTAB'' of None \<Rightarrow> [] | Some tab \<Rightarrow> take i (mount_bsd_calls f tab)) @
    take j [CTermNew, CTermGet, CTermSet])"
proof -
  let ?dirs = "map (\<lambda>d. path_join [TempDir s0, d]) [''cpu'', ''local'', ''merge'', ''root''] @ [''/home'']"
  define s1 where "s1 = mkdirs x ?dirs s0"
  have s1: "s_trace s1 = map (\<lambda>n. CMkdir n 438) ?dirs" "s_env s1 = s_env s0"
    using mkdirs_trace [of x ?dirs s0] mkdirs_step [of s0 x ?dirs] assms(2) unfolding s1_def by simp_all
  have T: "snd (TmpMounts (freebsd tmp) x s0) = s1"
    by (simp add: TmpMounts_def s1_def freebsd_def osMounts_bsd_def Let_def)
  let ?s2 = "mount_env (freebsd tmp) x s1"
  obtain i f where m: "s_trace ?s2 = s_trace s1 @ (case s_env s0 ''CPU_FSTAB'' of None \<Rightarrow> [] | Some tab \<Rightarrow> take i (mount_bsd_calls f tab))"
  proof (cases "s_env s0 ''CPU_FSTAB''")
    case None
    with s1(2) that [of 0 "[]"] show ?thesis by (simp add: mount_env_def)
  next
    case (Some tab)
    obtain e2 s2 where b: "Mount_bsd tmp x tab s1 = (e2, s2)" by force
    from Mount_bsd_step [OF this] obtain i where "s_trace s2 = s_trace s1 @ take i (mount_bsd_calls (tmp s1) tab)" by blast
    with b Some s1(2) that [of i "tmp s1"] show ?thesis by (cases e2) (simp_all add: mount_env_def freebsd_def)
  qed
  obtain te s5 where tt: "Terminal x ?s2 = (te, s5)" by force
  obtain j where j: "s_trace s5 = s_trace ?s2 @ take j [CTermNew, CTermGet, CTermSet]" using Terminal_trace [OF tt] by blast
  have e: "e = None" "s_env s' = s_env s5" "s_trace s' = s_trace s5"
    using assms(1) T tt by (auto simp: setUp_def freebsd_def runSetup_bsd_def Namespace_bsd_def)
  moreover have "s_env s5 = s_env s0"
    using Terminal_step [OF tt] bsd.mount_env_step [where s = s1 and x = x and tmp = tmp] s1(2) by simp
  ultimately show ?thesis unfolding j m s1(1) by (simp only: append_assoc) blast
qed
section \<open>Properties\<close>



text \<open>What the client asks for is what runs, there too.\<close>

lemma command_bsd_argv: "child_argv (command_bsd n args) = n # args"
  by (simp add: child_argv_def command_bsd_def exec_Command_def)

lemmas freebsd_command_runs = command_runs_on [OF bsd.session_platform_axioms command_bsd_argv]

text \<open>Sessions of one server have one name space: the child that runs a session does not get its own.\<close>

lemma freebsd_shares_mounts: "\<not> ex_newns (fst (handler_on command_bsd txt r s cpud))"
  by (auto simp: handler_on_def command_bsd_def exec_Command_def Let_def split: option.splits)

text \<open>Elsewhere a session fails before it runs anything, whatever the system answers.\<close>

lemma other_never_runs:
  "fst (Run_on (other mnt) x ss s0) \<noteq> None \<and>
   (\<exists>t. s_trace (snd (Run_on (other mnt) x ss s0)) = s_trace s0 @ t \<and> no_runs t)"
  using mkdirs_trace [of x "map (\<lambda>d. path_join [TempDir s0, d]) [''cpu'', ''local'', ''merge'', ''root''] @ [''/home'']" s0]
  by (simp add: Run_on_def other_def runSetup_other_def TmpMounts_def osMounts_other_def Namespace_other_def Let_def errors_join_def
      List.map_filter_def)

text \<open>Two passes of cpuns are enough there. From sshd, as a user, over sudo, with a root that counts as private, the second pass builds the
  name space and runs the arguments; the environment of the command is exactly what was sent.\<close>

lemma run_user_bsd_env: "run_user_bsd tmp x penv E args = PCommand u s \<Longrightarrow> uc_env u = exec_env (split_on NL E)"
  by (auto simp: run_user_bsd_def Let_def split: prod.splits option.splits sum.splits)

lemma cpuns_bsd_two_passes:
  assumes "plain_args args" and "ce_uid x1 \<noteq> 0" and "ce_exe x1 = Inr n"
    and "ce_uid x2 = 0" and "checkprivate (ce_mounts x2) = None"
    and "cpuns_main_bsd tmp x1 penv (cp # (''-env='' @ E) # args) = PRunAs c1"
  shows "cpuns_main_bsd tmp x2 senv (drop 2 (ch_argv c1)) = run_user_bsd tmp x2 senv E args \<and>
    (\<forall>u s. cpuns_main_bsd tmp x2 senv (drop 2 (ch_argv c1)) = PCommand u s \<longrightarrow> uc_env u = exec_env (split_on NL E))"
proof -
  have "c1 = sudo_child_bsd n penv E args"
    using assms(6) assms(2,3) by (simp add: cpuns_main_bsd_def parse_env_flag [OF assms(1)] flag_value_one Let_def del: append.simps parse_flags.simps)
  then have "drop 2 (ch_argv c1) = n # (''-env='' @ E) # args" by (simp add: sudo_child_bsd_def Let_def)
  with assms(4,5) run_user_bsd_env show ?thesis
    by (simp add: cpuns_main_bsd_def parse_env_flag [OF assms(1)] flag_value_one Let_def del: append.simps parse_flags.simps)
qed

text \<open>The variables that were sent are lost on the way through \<open>unshare\<close> unless there is an fstab; on Linux they are not.\<close>

lemma unshare_bsd_drops_env:
  "penv ''LC_GLENDA_CPU_FSTAB'' = None \<Longrightarrow> ch_env (unshare_child_bsd n penv E args) = penv \<and>
     ch_env (unshare_child n penv E args) = penv ++ exec_env (split_on NL E)"
  by (simp add: unshare_child_bsd_def unshare_child_def Let_def)

text \<open>Passes that run one another: each process runs the next one and waits for it.\<close>

fun cpuns_passes :: "(cpuns_ext \<Rightarrow> env_map \<Rightarrow> string list \<Rightarrow> pass) \<Rightarrow> cpuns_ext \<Rightarrow> nat \<Rightarrow> env_map \<Rightarrow> string list \<Rightarrow> pass" where
  "cpuns_passes mn x 0 penv argv = mn x penv argv"
| "cpuns_passes mn x (Suc k) penv argv =
     (case mn x penv argv of PRunAs c \<Rightarrow> cpuns_passes mn x k (ch_env c) (ch_argv c) | r \<Rightarrow> r)"

text \<open>C28: On FreeBSD a root that does not count as private starts processes without end. As the program that \<open>unshare\<close> runs
  is not in a new name space, its root is the same and it runs the next one: after any number of passes there is one more.\<close>

theorem cpuns_bsd_fork_bomb:
  assumes "ce_uid x = 0" and "ce_exe x = Inr n" and "checkprivate (ce_mounts x) \<noteq> None" and "plain_args args"
  shows "\<exists>c. cpuns_passes (cpuns_main_bsd tmp) x k penv (cp # args) = PRunAs c \<and> ch_argv c = n # args \<and> \<not> ch_unshare c"
proof (induction k arbitrary: penv cp)
  case 0
  show ?case
    using assms by (simp add: cpuns_main_bsd_def parse_no_flag flag_value_one unshare_child_bsd_def Let_def del: parse_flags.simps)
next
  case (Suc k)
  have "\<exists>e. cpuns_main_bsd tmp x penv (cp # args) = PRunAs \<lparr>ch_argv = n # args, ch_env = e,
      ch_dir = (case penv ''PWD'' of None \<Rightarrow> [] | Some d \<Rightarrow> d), ch_unshare = False\<rparr>"
    using assms by (simp add: cpuns_main_bsd_def parse_no_flag flag_value_one unshare_child_bsd_def Let_def del: parse_flags.simps)
  with Suc [of _ n] show ?case by (auto simp del: parse_flags.simps)
qed

theorem cpuns_bsd_fork_bomb_witness:
  "\<exists>c. cpuns_passes (cpuns_main_bsd (\<lambda>s. [])) (sample_cpuns 0 []) 1000 Map.empty [''cpuns'', ''ls''] = PRunAs c"
proof -
  have h: "ce_uid (sample_cpuns 0 []) = 0" "ce_exe (sample_cpuns 0 []) = Inr ''/bin/cpuns''"
    "checkprivate (ce_mounts (sample_cpuns 0 [])) \<noteq> None" "plain_args [''ls'']"
    by (simp_all add: sample_cpuns_def checkprivate_def plain_args_def flag_body_def)
  from cpuns_bsd_fork_bomb [OF h] show ?thesis by blast
qed

end
