(* ===== verification/ExitStatus.thy ===== *)
theory ExitStatus
  imports FreeBSD
begin

text \<open>
  The exit status of a command on its way back: the process of cpud that runs the session (\<open>main\<close> of
  \<open>cmds/cpud/main_linux.go\<close> and of \<open>cmds/cpud/main_freebsd.go\<close>, which have the same text) and the handler of
  the ssh server (\<open>server/server.go\<close>) that waits for it.
\<close>

section \<open>The process of a session\<close>

text \<open>
  How a process of cpud ends, and what it did; \<open>None\<close> is a server. The flag package ends it with 2, or with 0 after a
  request for help, \<open>log.Panicf\<close> with 2 and \<open>log.Fatal\<close> with 1.
\<close>

definition cpud_process :: "platform \<Rightarrow> run_ext \<Rightarrow> string option \<Rightarrow> nat \<Rightarrow> string list \<Rightarrow> sys \<Rightarrow> (int \<times> sys) option" where
  "cpud_process p x shell pid argv s0 =
     (case cpud_main shell pid argv of
        ExitWith m \<Rightarrow>
          Some (if m = ''flag: help requested'' then 0 else if m = ''No arguments and $SHELL is not set'' then 1 else 2, s0)
      | RunServer acc ini \<Rightarrow> None
      | RunSession port cmd args dbg \<Rightarrow>
          (case Run_on p x (New_session port cmd args) s0 of
             (Some e, s1) \<Rightarrow> Some (1, s1)
           | (None, s1) \<Rightarrow> Some (0, s1)))"

lemma cpud_process_code: "cpud_process p x shell pid argv s0 = Some (code, s') \<Longrightarrow> code \<in> {0, 1, 2}"
  by (auto simp: cpud_process_def split: role.splits prod.splits option.splits if_splits)

section \<open>Properties\<close>

text \<open>C8: The client learns that its command failed, but not its status. In the situation of the transport, if the session runs
  the command at all and the ssh server can run and wait for its cpud, with or without a terminal, then the handler sends the
  status 1 if running the command returned any error, whatever its status, and none if it returned no error.\<close>

theorem exit_status_is_one:
  assumes "c_cmd c = []" and "c_Args c \<noteq> []"
    and "hd (c_Args c) = [] \<or> hd (hd (c_Args c)) \<noteq> CHR ''-''"
    and "shell_words (start_command c) = Some (ss_command s)"
    and "cpud_process linux x shell pid (child_argv (fst (handler txt cr s cpud))) s0 = Some (code, s')"
    and "re_wtf x = []" and "s_trace s0 = []" and "CRun prog argv d env \<in> set (s_trace s')"
    and "cr_pty_start cr = None" and "cr_exit cr = code"
    and "cr_wait cr = None \<longleftrightarrow> code = 0" and "cr_run cr = None \<longleftrightarrow> code = 0"
    and "\<forall>e. cr_wait cr = Some e \<or> cr_run cr = Some e \<longrightarrow> \<not> contains (txt e) ''no child process''"
  shows "prog # argv = c_Args c \<and>
    snd (handler txt cr s cpud) =
      (if re_ans x (butlast (s_trace s')) (CRun prog argv d env) = None then None else Some 1)"
proof -
  obtain port cmd args where m: "cpud_main shell pid (child_argv (fst (handler txt cr s cpud))) = RunSession port cmd args False"
    using transport [OF assms(1-4)] by blast
  obtain r where R: "Run x (New_session port cmd args) s0 = (r, s')" and code: "code = (if r = None then 0 else 1)"
    using assms(5) m by (auto simp: cpud_process_def split: prod.splits option.splits)
  from linux.Run_order [OF R assms(6-8)]
  have r: "r = re_ans x (butlast (s_trace s')) (last (s_trace s'))" by blast
  from command_runs_on [OF linux.session_platform_axioms command_argv assms(1-4) m R assms(6-8)]
  have c: "prog # argv = c_Args c" "last (s_trace s') = CRun prog argv d env" by blast+
  have "snd (handler txt cr s cpud) = (if code = 0 then None else Some code)"
    using assms(9-13) unfolding code by (auto simp: handler_exit_status errval_def split: option.splits)
  with c r code show ?thesis by auto
qed
theorem exit_status_is_one_witness:
  "\<exists>x s' env. let cr = \<lparr>cr_pty_start = None, cr_wait = Some (Opaque ''exit status 1''), cr_exit = 1, cr_run = Some (Opaque ''exit status 1'')\<rparr>;
       s = \<lparr>ss_command = [''ls'', ''a b''], ss_environ = [], ss_pty = Some ''xterm''\<rparr>;
       txt = (\<lambda>e. ''exit status 1'')
     in cpud_process linux x None 7 (child_argv (fst (handler txt cr s ''/bin/cpud''))) sample_sys = Some (1, s') \<and>
       re_ans x (butlast (s_trace s')) (CRun ''ls'' [''a b''] ''/home'' env) = Some (Opaque ''exit status 42'') \<and>
       snd (handler txt cr s ''/bin/cpud'') = Some 1"
proof -
  let ?x = "sample_run\<lparr>re_ans := \<lambda>t c. case c of CRun _ _ _ _ \<Rightarrow> Some (Opaque ''exit status 42'') | _ \<Rightarrow> None\<rparr>"
  let ?cr = "\<lparr>cr_pty_start = None, cr_wait = Some (Opaque ''exit status 1''), cr_exit = 1, cr_run = Some (Opaque ''exit status 1'')\<rparr>"
  let ?s = "\<lparr>ss_command = [''ls'', ''a b''], ss_environ = [], ss_pty = Some ''xterm''\<rparr>"
  let ?txt = "\<lambda>e :: goerror. ''exit status 1''"
  have c: "c_cmd sample_cmd = []" "c_port9p sample_cmd = 0" "c_Args sample_cmd = [''ls'', ''a b'']"
    by (simp_all add: sample_cmd_def Command_def Let_def)
  have w: "shell_words (start_command sample_cmd) = Some (ss_command ?s)"
    using shell_words_start [OF c(1)] c by simp
  have hd: "c_Args sample_cmd \<noteq> []" "hd (c_Args sample_cmd) = [] \<or> hd (hd (c_Args sample_cmd)) \<noteq> CHR ''-''"
    by (simp_all add: c)
  have m: "cpud_main None 7 (child_argv (fst (handler ?txt ?cr ?s ''/bin/cpud''))) = RunSession [] ''ls'' [''a b''] False"
    using transport [OF c(1) hd w] c by simp
  have "\<exists>s' env. Run ?x (New_session [] ''ls'' [''a b'']) sample_sys = (Some (Opaque ''exit status 42''), s') \<and>
     CRun ''ls'' [''a b''] ''/home'' env \<in> set (s_trace s')"
    by (simp add: Run_on_def linux_def runSetup_def TmpMounts_def osMounts_def Namespace_def mount_env_def Terminal_def
      DropPrivs_def clear_fstab_def unsetenv_def getenv_def do_call_def sample_run_def sample_sys_def New_session_def Let_def)
  then obtain s' env where R: "Run ?x (New_session [] ''ls'' [''a b'']) sample_sys = (Some (Opaque ''exit status 42''), s')"
    and C: "CRun ''ls'' [''a b''] ''/home'' env \<in> set (s_trace s')"
    by blast
  have P: "cpud_process linux ?x None 7 (child_argv (fst (handler ?txt ?cr ?s ''/bin/cpud''))) sample_sys = Some (1, s')"
    by (simp add: cpud_process_def m R)
  have "re_wtf ?x = []" "s_trace sample_sys = []" by (simp_all add: sample_run_def sample_sys_def)
  from exit_status_is_one [OF c(1) hd w P this C] have "snd (handler ?txt ?cr ?s ''/bin/cpud'') = Some 1"
    by (simp add: contains_def c(3))
  with P show ?thesis by (intro exI [of _ ?x] exI [of _ s'] exI [of _ env]) (simp add: Let_def)
qed

text \<open>A status that the reaper has collected is lost: then no
  status is sent, although cpud failed.\<close>

lemma exit_status_reaped:
  "contains (txt e) ''no child process'' \<Longrightarrow> cr_wait cr = Some e \<Longrightarrow> cr_run cr = Some e \<Longrightarrow> snd (handler txt cr s cpud) = None"
  by (simp add: handler_exit_status split: option.split)

end
