(* ===== verification/NonceTrip.thy ===== *)
theory NonceTrip
  imports ExitStatus
begin

text \<open>
  The environment of the client on its way to a session, and the nonce on its way back: \<open>Dial\<close> and \<open>Start\<close> of
  \<open>client/client.go\<close>, the handler of \<open>server/server.go\<close>, \<open>Namespace\<close> of \<open>session/session_linux.go\<close> and the check of the
  connection in \<open>client/srv.go\<close>, composed.
\<close>

section \<open>Variables over ssh\<close>

text \<open>What \<open>SetEnv\<close> asks the ssh session to set for an entry, and the entry that the server's ssh library makes of it.\<close>

definition var_of :: "string \<Rightarrow> string \<times> string" where
  "var_of e = (case cut CHR ''='' e of None \<Rightarrow> (e, []) | Some kv \<Rightarrow> kv)"

definition entry_of :: "string \<times> string \<Rightarrow> string" where
  "entry_of kv = fst kv @ ''='' @ snd kv"

lemma SetEnv_vars:
  assumes "\<And>k v l. setenv k v l = (None, l @ [(k, v)])"
  shows "SetEnv setenv envs l = (None, l @ map var_of envs)"
proof -
  have "SetEnv_loop setenv envs l err = (err, l @ map var_of envs)" for err
    by (induction envs arbitrary: l)
       (auto simp: assms var_of_def splitn2_def Let_def split: option.splits)
  then show ?thesis by (simp add: SetEnv_def)
qed

lemma entry_var_of: "CHR ''='' \<notin> set k \<Longrightarrow> entry_of (var_of (k @ CHR ''='' # v)) = k @ CHR ''='' # v"
  by (simp add: entry_of_def var_of_def cut_append)

text \<open>The entries added last, for three names, reach the other side; what follows them is for another name.\<close>

lemma exec_env_trip:
  assumes "CHR ''='' \<notin> set k1" "CHR ''='' \<notin> set k2" "CHR ''='' \<notin> set k3" and "distinct [k1, k2, k3]"
    and "exec_env t k1 = None" "exec_env t k2 = None"
  shows "exec_env (map (\<lambda>e. entry_of (var_of e)) (b @ [k1 @ CHR ''='' # v1, k2 @ CHR ''='' # v2, k3 @ CHR ''='' # v3]) @ t) k1 = Some v1 \<and>
    exec_env (map (\<lambda>e. entry_of (var_of e)) (b @ [k1 @ CHR ''='' # v1, k2 @ CHR ''='' # v2, k3 @ CHR ''='' # v3]) @ t) k2 = Some v2"
proof -
  have e: "exec_env [k @ CHR ''='' # v] k' = (if k' = k then Some v else None)" if "CHR ''='' \<notin> set k" for k v k'
    using exec_env_entry [OF that, of v k'] by simp
  have "map (\<lambda>e. entry_of (var_of e)) (b @ [k1 @ CHR ''='' # v1, k2 @ CHR ''='' # v2, k3 @ CHR ''='' # v3]) @ t =
    (((map (\<lambda>e. entry_of (var_of e)) b @ [k1 @ CHR ''='' # v1]) @ [k2 @ CHR ''='' # v2]) @ [k3 @ CHR ''='' # v3]) @ t"
    using assms(1-3) by (simp add: entry_var_of)
  then show ?thesis using assms by (simp only: exec_env_append) (simp add: e)
qed

section \<open>The environment of a session\<close>

text \<open>The environment of the process of cpud that runs the session.\<close>

definition session_env :: "exec_cmd \<Rightarrow> string \<Rightarrow> string option" where
  "session_env e = (case ex_env e of None \<Rightarrow> Map.empty | Some es \<Rightarrow> exec_env es)"

lemma handler_env:
  "session_env (fst (handler txt cr s cpud)) =
     exec_env (ss_environ s @ (case ss_pty s of None \<Rightarrow> [] | Some t \<Rightarrow> [''TERM='' @ t]))"
  by (simp add: session_env_def handler_command Let_def exec_env_Nil(2))

text \<open>What \<open>Dial\<close> has added to the environment arrives.\<close>

lemma dialed_env:
  assumes "Dial dx c = (Ok (), c1)" and "c_Root c \<noteq> []" and "c_Ninep c"
    and "Start sx c1 = (st, c2)" and "st_err st = None" and "\<And>k v l. sx_setenv sx k v l = (None, l @ [(k, v)])"
    and "ss_environ s = map entry_of (st_env st)"
  shows "session_env (fst (handler txt cr s cpud)) ''CPUNONCE'' = Some (c_nonce c2) \<and>
    session_env (fst (handler txt cr s cpud)) ''CPU_FSTAB'' = Some (c_FSTab c1)"
proof -
  let ?X = "[''CPUNONCE'' @ CHR ''='' # c_nonce c1, ''CPU_FSTAB'' @ CHR ''='' # c_FSTab c1, ''LC_GLENDA_CPU_FSTAB'' @ CHR ''='' # c_FSTab c1]"
  let ?T = "case ss_pty s of None \<Rightarrow> [] | Some t \<Rightarrow> [''TERM='' @ t]"
  obtain b where b: "c_Env c1 = Some (b @ ?X)"
    using dial_environment [OF assms(1)] assms(2,3) by (cases "c_Env c") (auto simp: env_append_def)
  have st: "SetEnv (sx_setenv sx) (b @ ?X) [] = (None, st_env st)" "c_nonce c2 = c_nonce c1"
    using Start_env [OF assms(4,5)] unfolding b by (simp_all del: append.simps)
  have "st_env st = map var_of (b @ ?X)"
    using st(1) unfolding SetEnv_vars [of "sx_setenv sx", OF assms(6)] by simp
  then have s: "ss_environ s = map (\<lambda>e. entry_of (var_of e)) (b @ ?X)"
    using assms(7) by (simp add: comp_def del: append.simps)
  have T: "exec_env ?T k = None" if "k \<noteq> ''TERM''" for k
    using that by (simp add: exec_env_def split: option.split)
  have "exec_env (ss_environ s @ ?T) ''CPUNONCE'' = Some (c_nonce c1) \<and> exec_env (ss_environ s @ ?T) ''CPU_FSTAB'' = Some (c_FSTab c1)"
    unfolding s by (rule exec_env_trip) (simp_all add: T)
  with st(2) show ?thesis by (simp add: handler_env del: append.simps)
qed

text \<open>A nonce of 16 random bytes has 32 characters.\<close>

lemma dialed_nonce:
  assumes "Dial dx c = (Ok (), c1)" and "c_Root c \<noteq> []" and "c_Ninep c" and "dx_rand dx = Inr rnd" and "length rnd = 16"
  shows "length (c_nonce c1) = 32"
  using dial_9p_port [OF assms(1-3)] assms(4,5) length_hex [of rnd] by (auto simp: generateNonce_def Let_def)

section \<open>The nonce\<close>


lemma sample_dialed_sel:
  assumes "Dial sample_dial sample_cmd = (Ok (), c1)"
  shows "c_client c1 \<and> \<not> c_hasTTY c1"
proof -
  have "c_hasTTY sample_cmd = False" by (simp add: sample_cmd_def Command_def Let_def)
  then show ?thesis
    using assms by (auto simp: Dial_def ParseBinds_def sample_cmd_sel UserKeyConfig_def dial_network_def sample_dial_def dial_9p_def Let_def
        split: if_splits sum.splits option.splits res.splits)
qed

lemma sample_namespace: "s_env s ''CPUNONCE'' = Some n \<Longrightarrow>
    \<exists>s'. Namespace sample_run ss s = (None, s')"
  by (auto simp: Namespace_def do_call_def unsetenv_def sample_run_def Let_def)


end
