(* ===== verification/ArchiveServers.thy ===== *)
theory ArchiveServers
  imports Cpio9p FsCpio
begin

text \<open>
  One archive, two servers: the 9P server of \<open>client/cpio9p.go\<close> and the files behind the NFS server of
  \<open>client/union.go\<close>, which were written apart and answer alike. A file of the one and a FID of the other are the same
  if they stand for the same record of the same archive; looking up a path in the one gives the same file as
  walking it in the other, and on the same file all that reads them agrees.
\<close>

unbundle bit_operations_syntax

section \<open>The same file\<close>

definition same_file :: "'d cpio_file \<Rightarrow> CPIO9PFID \<Rightarrow> bool" where
  "same_file h l = (fc_recs (fl_fs h) = fs_recs (fid_fs l) \<and> fl_path h = fid_path l)"

lemma same_rec: "same_file h l \<Longrightarrow> file_rec h = CPIO9PFID_rec l"
  by (simp add: same_file_def file_rec_def CPIO9PFID_rec_def)

lemma same_readat: "same_file h l \<Longrightarrow> file_ReadAt h n off = CPIO9PFID_ReadAt l n off"
  by (simp add: file_ReadAt_def CPIO9PFID_ReadAt_def same_rec)

lemma same_readdir: "same_file h l \<Longrightarrow> file_readdir h = CPIO9PFID_readdir l"
  using same_rec [of h l] by (simp add: file_readdir_def CPIO9PFID_readdir_def same_file_def)

text \<open>The kind of a record in the 32 bits that NFS takes of a mode is that in the 64 bits that 9P takes.\<close>

lemma kind_of_mode:
  fixes m :: u64
  shows "(ucast m :: u32) AND 0xf000 = 0x4000 \<longleftrightarrow> m AND 0xf000 = 0x4000"
    and "(ucast m :: u32) AND 0xf000 = 0xa000 \<longleftrightarrow> m AND 0xf000 = 0xa000"
proof -
  have e: "(ucast m :: u32) AND 0xf000 = ucast (m AND 0xf000)" by (simp add: unsigned_and_eq)
  have "m AND 0xf000 \<le> 0xf000" by (rule word_and_le1)
  then have "unat (m AND 0xf000) < 2 ^ 32" by (simp add: word_le_nat_alt)
  then have u: "unat (ucast (m AND 0xf000) :: u32) = unat (m AND 0xf000)" by (simp add: unsigned_ucast_eq take_bit_nat_eq_self)
  show "(ucast m :: u32) AND 0xf000 = 0x4000 \<longleftrightarrow> m AND 0xf000 = 0x4000"
    unfolding e word_unat_eq_iff u by simp
  show "(ucast m :: u32) AND 0xf000 = 0xa000 \<longleftrightarrow> m AND 0xf000 = 0xa000"
    unfolding e word_unat_eq_iff u by simp
qed

lemma same_readlink:
  assumes "same_file h l" and "fid_path l < length (fs_recs (fid_fs l))"
  shows "file_Readlink h =
    (if i_mode (r_info (fs_recs (fid_fs l) ! fid_path l)) AND 0xf000 = 0xa000 then CPIO9PFID_Readlink l else Ok ([], Some ErrInvalid))"
proof -
  let ?r = "fs_recs (fid_fs l) ! fid_path l"
  have "file_rec h = Ok ?r" using same_rec [OF assms(1)] assms(2) by simp
  moreover have "fstat_Mode ?r AND ModeType = ModeSymlink \<longleftrightarrow> i_mode (r_info ?r) AND 0xf000 = 0xa000"
    using uToGo_kind [of "i_mode (r_info ?r)"] by (simp add: fstat_Mode_def kind_of_mode)
  ultimately show ?thesis using assms(2) by (simp add: file_Readlink_def CPIO9PFID_Readlink_def Let_def)
qed

lemma fstat_dir: "fstat_IsDir r \<longleftrightarrow> i_mode (r_info r) AND 0xf000 = 0x4000"
  using uToGo_kind [of "i_mode (r_info r)"] by (simp add: fstat_IsDir_def fstat_Mode_def kind_of_mode)

lemma fstat_attr:
  assumes "CPIO9PFID_GetAttr p l am = Ok (q, m, a)" and "fid_path l < length (fs_recs (fid_fs l))"
  shows "word_of_int (fstat_Size (fs_recs (fid_fs l) ! fid_path l)) = a_size a \<and>
    (fstat_IsDir (fs_recs (fid_fs l) ! fid_path l) \<longrightarrow> q_type q = TypeDir) \<and>
    fstat_Mode (fs_recs (fid_fs l) ! fid_path l) AND ModePerm = a_mode a AND ModePerm"
  using assms uToGo_kind [of "i_mode (r_info (fs_recs (fid_fs l) ! fid_path l))"]
  by (auto simp: CPIO9PFID_GetAttr_def rec_qid_def Let_def fstat_Size_def fstat_dir fstat_Mode_def)

text \<open>A listing from its beginning has the entries that the other shows after the dot.\<close>

lemma same_listing:
  assumes "same_file h l" and "well_formed (fs_recs (fid_fs l))" and "fid_ok l"
    and "CPIO9PFID_Readdir p l 0 cnt = Ok ds"
  shows "\<exists>rs. file_ReadDir h 0 cnt' = Ok rs \<and> map fstat_Name rs = map de_name (tl ds)"
proof -
  let ?recs = "fs_recs (fid_fs l)"
  let ?kids = "filter (is_child ?recs (fid_path l)) [0..<length ?recs]"
  have h: "fc_recs (fl_fs h) = ?recs" "fl_path h = fid_path l" using assms(1) by (simp_all add: same_file_def)
  have "file_ReadDir h 0 cnt' = Ok (map (\<lambda>i. ?recs ! i) ?kids)"
    using fscpio_readdir_offset [of h ?kids 0 cnt'] assms(2,3) h by (simp add: fid_ok_def)
  moreover have "tl ds = map (rec_dirent p ?recs) ?kids"
    using assms(4) Readdir_spec [OF assms(2,3), of p 0 cnt] by auto
  ultimately show ?thesis by (simp add: rec_dirent_def fstat_Name_def)
qed

text \<open>Looking up a path is walking it from the root.\<close>

lemma same_lookup:
  assumes "well_formed recs" and "fc_recs f = recs" and "fc_m f = rec_table recs"
    and "fs_recs s = recs" and "fs_m s = rec_table recs" and "all_proper ns" and "ns \<noteq> []"
  shows "case CPIO9PFID_Walk p \<lparr>fid_fs = s, fid_path = 0\<rparr> ns of
      Ok (qs, l) \<Rightarrow> fsCPIO_lookup f (rel_path ns) = Ok \<lparr>fl_fs = f, fl_path = fid_path l\<rparr> \<and> fid_ok l \<and> fid_fs l = s
    | Fail e \<Rightarrow> e = ErrNotExist \<and> fsCPIO_lookup f (rel_path ns) = Fail ErrNotExist
    | Panic m \<Rightarrow> False"
proof -
  let ?l = "\<lparr>fid_fs = s, fid_path = 0\<rparr>"
  have ok: "fid_ok ?l" using assms(1,4,5) by (auto simp: fid_ok_def well_formed_def)
  have r: "rec_elems recs 0 = []" using assms(1) by (rule wf_root)
  have ne: "rel_path ns \<noteq> []" using assms(6,7) by (simp add: rel_path_def join_proper_ne)
  have sel: "fs_recs (fid_fs ?l) = recs" "fid_path ?l = 0" "fid_fs ?l = s" using assms(4) by simp_all
  note W = Walk_spec [of ?l ns p, unfolded sel(1), OF assms(1) ok assms(6,7), unfolded sel(2) sel(3) r append_Nil]
  show ?thesis
    unfolding W using ne assms rec_table_bound [of recs "rel_path ns"]
    by (auto simp: fsCPIO_lookup_def fid_ok_def split: option.splits)
qed

section \<open>The two servers of an archive\<close>

lemma mount_all_archive: "mount_all f ms = Ok f' \<Longrightarrow> fc_recs f' = fc_recs f \<and> fc_m f' = fc_m f"
  by (induction ms arbitrary: f) (auto simp: bind_res_Ok_iff fsCPIO_mount_def)

lemma NewfsCPIO_archive:
  assumes "NewfsCPIO dir os_open fmt new_reader read_all c ms = Ok f" and "c \<noteq> []"
    and "os_open c = Inr file" and "new_reader file = Inr rr"
  shows "fc_recs f = fst (read_all rr) \<and> fc_m f = rec_table (fc_recs f)"
proof -
  obtain recs where "fst (read_all rr) = recs"
    "mount_all \<lparr>fc_m = rec_table recs, fc_recs = recs, fc_mnts = []\<rparr> ms = Ok f"
    using assms by (auto simp: NewfsCPIO_def bind_res_Ok_iff split: option.splits if_splits prod.splits)
  then show ?thesis using mount_all_archive by fastforce
qed

lemma NewCPIO9PReaderAt_archive: "NewCPIO9PReaderAt fmt ra = Ok s \<Longrightarrow> fs_recs s = fst ra \<and> fs_m s = rec_table (fs_recs s)"
  by (auto simp: NewCPIO9PReaderAt_def split: option.splits prod.splits if_splits)

section \<open>Properties\<close>


definition sample_archive_fs :: "nat fsCPIO" where
  "sample_archive_fs = \<lparr>fc_m = rec_table sample_recs, fc_recs = sample_recs, fc_mnts = []\<rparr>"


end
