(* ===== verification/NfsMount.thy ===== *)
theory NfsMount
  imports FsCpio BindMounts
begin

text \<open>
  The line that \<open>SrvNFS\<close> (\<open>client/union.go\<close>) writes for its NFS server, as the session on the other side mounts it
  (\<open>mount/mount_linux.go\<close>): the options of the mount name the port of the client's listener, and the path is the one that
  the handler of the server lets in.
\<close>

section \<open>The line\<close>

definition nfs_opts :: "nat \<Rightarrow> string list" where
  "nfs_opts port = [''vers=3'', ''rsize=1048576'', ''wsize=1048576'', ''namlen=255'', ''hard'', ''nolock'', ''proto=tcp'',
     ''port='' @ show_nat port, ''timeo=600'', ''retrans=2'', ''sec=sys'', ''mountaddr=127.0.0.1'', ''mountvers=3'',
     ''mountport='' @ show_nat port, ''mountproto=tcp'', ''local_lock=all'', ''addr=127.0.0.1'']"

definition nfs_text :: "string \<Rightarrow> nat \<Rightarrow> string" where
  "nfs_text u port = ''127.0.0.1:'' @ u @ '' /tmp/cpu nfs '' @ join_with '','' ([''rw'', ''relatime''] @ nfs_opts port) @ '' 0 0''"

lemma nfs_fstab_text: "nfs_fstab u port = nfs_text u port @ [NL]"
  by (simp add: nfs_fstab_def nfs_text_def nfs_opts_def)

text \<open>The digits of a port are neither white space nor commas.\<close>

lemma digit_plain: "\<not> is_space (digit_char d) \<and> digit_char d \<noteq> CHR '',''" if "d < 10"
proof -
  have "list_all (\<lambda>d. \<not> is_space (digit_char d) \<and> digit_char d \<noteq> CHR '','') [0..<10]" by code_simp
  moreover from that have "d \<in> set [0..<10]" by simp
  ultimately show ?thesis unfolding list_all_iff by (rule bspec)
qed

lemma show_nat_plain: "c \<in> set (show_nat n) \<Longrightarrow> \<not> is_space c \<and> c \<noteq> CHR '',''"
proof -
  assume "c \<in> set (show_nat n)"
  then obtain d where "d < 10" "c = digit_char d" using set_show_nat by blast
  then show ?thesis using digit_plain [of d] by simp
qed

definition option_like :: "string \<Rightarrow> bool" where
  "option_like p = (p \<noteq> [] \<and> list_all (\<lambda>c. \<not> is_space c \<and> c \<noteq> CHR '','') p)"

lemma option_like_append: "option_like p \<Longrightarrow> option_like (p @ show_nat n)"
  using show_nat_plain [of _ n] by (auto simp: option_like_def list_all_iff)

lemma nfs_opts_plain: "list_all option_like ([''rw'', ''relatime''] @ nfs_opts port)"
proof -
  have "option_like ''port=''" "option_like ''mountport=''" by code_simp+
  then have "option_like (''port='' @ show_nat port)" "option_like (''mountport='' @ show_nat port)"
    using option_like_append by blast+
  moreover have "list_all option_like [''rw'', ''relatime'', ''vers=3'', ''rsize=1048576'', ''wsize=1048576'', ''namlen=255'', ''hard'', ''nolock'',
     ''proto=tcp'', ''timeo=600'', ''retrans=2'', ''sec=sys'', ''mountaddr=127.0.0.1'', ''mountvers=3'', ''mountproto=tcp'', ''local_lock=all'', ''addr=127.0.0.1'']"
    by code_simp
  ultimately show ?thesis by (simp add: nfs_opts_def del: append.simps(2))
qed

lemma options_word: "list_all option_like ps \<Longrightarrow> ps \<noteq> [] \<Longrightarrow> word_like (join_with '','' ps) \<and> split_on CHR '','' (join_with '','' ps) = ps"
proof -
  assume ps: "list_all option_like ps" "ps \<noteq> []"
  have s: "split_on CHR '','' (join_with '','' ps) = ps"
    using ps by (intro split_join) (auto simp: list_all_iff option_like_def)
  have "\<not> is_space c" if c: "c \<in> set (join_with '','' ps)" for c
  proof -
    have "c = CHR '','' \<or> (\<exists>p \<in> set ps. c \<in> set p)" using subsetD [OF set_join_with c] by simp
    then show ?thesis
    proof
      assume "c = CHR '',''"
      then show ?thesis by (simp add: is_space_def)
    next
      assume "\<exists>p \<in> set ps. c \<in> set p"
      then obtain p where p: "p \<in> set ps" "c \<in> set p" by (elim bexE)
      then have "option_like p" using ps(1) by (simp add: list_all_iff)
      with p(2) show ?thesis by (simp add: option_like_def list_all_iff)
    qed
  qed
  moreover have "join_with '','' ps \<noteq> []"
  proof
    assume "join_with '','' ps = []"
    with s have "[] \<in> set ps" by force
    then have "option_like []" using bspec [OF ps(1) [unfolded list_all_iff]] by blast
    then show False by (simp add: option_like_def)
  qed
  ultimately show ?thesis using s by (simp add: word_like_def list_all_iff)
qed

text \<open>What of the options is not a flag.\<close>

lemma known_names: "known_option f \<longleftrightarrow> f \<in> set (''defaults'' # map fst (convert (\<lambda>_. 0)) @ ignored)"
  by (auto simp: known_option_def)

lemma port_options_unknown: "\<not> known_option (''port='' @ v)" "\<not> known_option (''mountport='' @ v)"
  by (simp_all add: known_option_def convert_def ignored_def)

lemma nfs_opts_unknown: "f \<in> set (nfs_opts port) \<Longrightarrow> \<not> known_option f"
proof -
  have "list_all (\<lambda>f. \<not> known_option f) (nfs_opts port)"
    unfolding nfs_opts_def using port_options_unknown [of "show_nat port"]
    by (simp add: known_option_def convert_def ignored_def)
  then show "f \<in> set (nfs_opts port) \<Longrightarrow> \<not> known_option f" by (simp add: list_all_iff)
qed

lemma nfs_unknown: "filter (\<lambda>f. \<not> known_option f) ([''rw'', ''relatime''] @ nfs_opts port) = nfs_opts port"
proof -
  have "known_option ''rw''" "known_option ''relatime''" by (simp_all add: known_option_def convert_def)
  moreover have "filter (\<lambda>f. \<not> known_option f) (nfs_opts port) = nfs_opts port" using nfs_opts_unknown by (simp add: filter_id_conv)
  ultimately show ?thesis by simp
qed

lemma nfs_flags: "or_all (map (option_flag ms) ([''rw'', ''relatime''] @ nfs_opts port)) = ms ''MS_RELATIME''"
proof -
  have "option_flag ms f = 0" if "f \<in> set (nfs_opts port)" for f
    using nfs_opts_unknown [OF that] convert_None_iff [of ms f] by (simp add: known_option_def option_flag_def)
  then have "map (option_flag ms) (nfs_opts port) = replicate (length (nfs_opts port)) 0"
    by (simp add: map_replicate_const [symmetric])
  moreover have "or_all (replicate n 0) = 0" for n by (induction n) (simp_all add: or_all_def)
  moreover have "option_flag ms ''rw'' = 0" "option_flag ms ''relatime'' = ms ''MS_RELATIME''" by (simp_all add: option_flag_def convert_def)
  ultimately show ?thesis by (simp add: or_all_def)
qed

lemma parse_nfs: "parse ms (join_with '','' ([''rw'', ''relatime''] @ nfs_opts port)) = (ms ''MS_RELATIME'', join_with '','' (nfs_opts port))"
proof -
  note w = options_word [OF nfs_opts_plain, of port]
  show ?thesis using w nfs_flags [of ms port] nfs_unknown [of port] by (simp add: parse_spec trim_space_word del: append.simps)
qed

section \<open>Mounting it\<close>

lemma nfs_mount_fields:
  assumes "list_all (\<lambda>c. \<not> is_space c) u"
  shows "mount_fields (nfs_text u port) =
    Some [''127.0.0.1:'' @ u, ''/tmp/cpu'', ''nfs'', join_with '','' ([''rw'', ''relatime''] @ nfs_opts port), ''0'', ''0'']"
proof -
  let ?o = "join_with '','' ([''rw'', ''relatime''] @ nfs_opts port)"
  have sp: "is_space (CHR '' '')" by (simp add: is_space_def)
  have w: "word_like (''127.0.0.1:'' @ u)" "word_like ''/tmp/cpu''" "word_like ''nfs''"
    using assms by (simp_all add: word_like_def is_space_def)
  have o: "word_like ?o" using options_word [OF nfs_opts_plain] by blast
  have t: "nfs_text u port = (''127.0.0.1:'' @ u) @ CHR '' '' # (''/tmp/cpu'' @ CHR '' '' # (''nfs'' @ CHR '' '' # (?o @ CHR '' '' # ''0 0'')))"
    by (simp add: nfs_text_def del: join_with.simps)
  have "GoStrings.fields ''0 0'' = [''0'', ''0'']" by code_simp
  then have "GoStrings.fields (nfs_text u port) = [''127.0.0.1:'' @ u, ''/tmp/cpu'', ''nfs'', ?o, ''0'', ''0'']"
    unfolding t by (simp only: fields_cons_word [OF w(1) sp] fields_cons_word [OF w(2) sp] fields_cons_word [OF w(3) sp] fields_cons_word [OF o sp])
  moreover have "\<not> has_prefix (nfs_text u port) ''#''" by (simp add: nfs_text_def has_prefix_def)
  ultimately show ?thesis by (simp add: mount_fields_def Let_def del: join_with.simps)
qed

lemma nfs_mount_call:
  assumes "list_all (\<lambda>c. \<not> is_space c) u"
  shows "mount_calls ms [nfs_text u port] =
    [(''127.0.0.1:'' @ u, ''/tmp/cpu'', ''nfs'', ms ''MS_RELATIME'', join_with '','' (nfs_opts port))]"
  unfolding mount_calls_Cons nfs_mount_fields [OF assms]
  by (simp add: mount_call_def parse_nfs mount_calls_def List.map_filter_def del: join_with.simps append.simps)

text \<open>The line in front of another fstab.\<close>

lemma scan_lines_first:
  assumes "NL \<notin> set l" and "length l < 65536" and "drop_cr l = l"
  shows "scan_lines (l @ NL # r) = l # scan_lines r"
proof -
  have "raw_lines (l @ NL # r) = l # raw_lines r"
    by (simp add: raw_lines_def split_on_append_sep [OF assms(1)] Let_def)
  then show ?thesis using assms(2,3) by (simp add: scan_lines_def max_scan_token_def)
qed

lemma nfs_text_shape:
  assumes "list_all (\<lambda>c. \<not> is_space c) u"
  shows "NL \<notin> set (nfs_text u port)" and "drop_cr (nfs_text u port) = nfs_text u port"
    and "trim_left NL (trim_right NL (nfs_text u port @ [NL])) = nfs_text u port"
proof -
  let ?o = "join_with '','' ([''rw'', ''relatime''] @ nfs_opts port)"
  have "word_like ?o" using options_word [OF nfs_opts_plain] by blast
  then have "NL \<notin> set ?o" "NL \<notin> set u" using assms by (auto simp: word_like_def list_all_iff is_space_def)
  then show nl: "NL \<notin> set (nfs_text u port)" by (simp add: nfs_text_def del: join_with.simps)
  show "drop_cr (nfs_text u port) = nfs_text u port" by (simp add: drop_cr_def nfs_text_def del: join_with.simps)
  have "hd (nfs_text u port) \<noteq> NL" "nfs_text u port \<noteq> []" by (simp_all add: nfs_text_def)
  moreover have "last (nfs_text u port) \<noteq> NL" by (simp add: nfs_text_def del: join_with.simps)
  moreover have "dropWhile (\<lambda>x. x = NL) s = s" if "hd s \<noteq> NL" for s :: string
    using that by (cases s) simp_all
  ultimately show "trim_left NL (trim_right NL (nfs_text u port @ [NL])) = nfs_text u port"
    by (simp add: trim_right_def trim_left_def hd_rev)
qed

lemma join_nfs_fstab:
  assumes "list_all (\<lambda>c. \<not> is_space c) u"
  shows "JoinFSTab [nfs_fstab u port, rest] = nfs_text u port @ NL # JoinFSTab [rest]"
  unfolding nfs_fstab_text using nfs_text_shape(3) [OF assms, of port] by (simp add: JoinFSTab_def nfs_text_def del: append.simps)

lemma SrvNFS_Ok:
  assumes "SrvNFS listen osfs new_fs uuid dir = Ok (mem, h, m)"
  obtains u addr port where "uuid = Inr u" and "listen ''tcp'' ''127.0.0.1:0'' = Inr addr \<or> listen ''tcp'' ''[::1]:0'' = Inr addr"
    and "parse_uint (last (split_on CHR '':'' addr)) 16 = Inr port" and "m = nfs_fstab u port" and "h = NewNullAuthHandler u"
proof -
  let ?l = "case listen ''tcp'' ''127.0.0.1:0'' of Inr a \<Rightarrow> Inr a | Inl _ \<Rightarrow> listen ''tcp'' ''[::1]:0''"
  obtain d where d: "path_rel ''/'' dir = Inr d" using assms by (cases "path_rel ''/'' dir") (simp_all add: SrvNFS_def)
  obtain addr where l: "?l = Inr addr" using assms d by (cases ?l) (auto simp: SrvNFS_def bind_res_Ok_iff)
  obtain port where p: "parse_uint (last (split_on CHR '':'' addr)) 16 = Inr port"
    using assms d l by (cases "parse_uint (last (split_on CHR '':'' addr)) 16") (auto simp: SrvNFS_def bind_res_Ok_iff Let_def split: if_splits)
  obtain u where u: "uuid = Inr u" using assms d l p by (cases uuid) (auto simp: SrvNFS_def bind_res_Ok_iff Let_def split: if_splits)
  have "m = nfs_fstab u port" "h = NewNullAuthHandler u"
    using assms d l p u by (auto simp: SrvNFS_def bind_res_Ok_iff Let_def split: if_splits)
  moreover have "listen ''tcp'' ''127.0.0.1:0'' = Inr addr \<or> listen ''tcp'' ''[::1]:0'' = Inr addr"
    using l by (auto split: sum.splits)
  ultimately show thesis using that u p by blast
qed

section \<open>Properties\<close>



text \<open>The line names 127.0.0.1 even if the listener could only be opened on \<open>[::1]\<close>, where the code goes on with it.\<close>

lemma nfs_line_ipv4_only:
  assumes "listen ''tcp'' ''127.0.0.1:0'' = Inl e" and "SrvNFS listen osfs new_fs uuid dir = Ok (mem, h, m)"
  shows "(\<exists>addr. listen ''tcp'' ''[::1]:0'' = Inr addr) \<and> (\<exists>u port. m = nfs_text u port @ [NL] \<and> ''addr=127.0.0.1'' \<in> set (nfs_opts port))"
  by (rule SrvNFS_Ok [OF assms(2)]) (use assms(1) in \<open>auto simp: nfs_fstab_text nfs_opts_def\<close>)

end
