(* ===== verification/Decpu.thy ===== *)
theory Decpu
  imports CpuCmd DnsSd
begin

text \<open>
  The decpu command, \<open>cmds/decpu/decpu.go\<close>: it runs a command on the hosts that DNS service discovery
  (theory DnsSd) finds, or on the host that is named, one after the other, with the client of theory ClientCmd.
\<close>

section \<open>Flags and settings\<close>

record decpu_flags =
  df_debug :: bool
  df_dump :: bool
  df_fstab :: string
  df_hostKeyFile :: string
  df_keyFile :: string
  df_namespace :: string
  df_network :: string
  df_numCPUs :: int
  df_sp :: string
  df_root :: string
  df_timeout9P :: string
  df_ninep :: bool

definition decpu_flag_kind :: "string \<Rightarrow> bool option" where
  "decpu_flag_kind n =
     (if n \<in> {''d'', ''dbg9p'', ''dump'', ''9p''} then Some True
      else if n \<in> {''fstab'', ''hk'', ''key'', ''namespace'', ''net'', ''n'', ''sp'', ''root'', ''timeout9p''} then Some False
      else None)"

text \<open>\<open>atoi\<close> is the parser of an integer flag; \<open>None\<close> where a value of \<open>-n\<close> is none.\<close>

definition decpu_read_flags :: "(string \<Rightarrow> goerror + int) \<Rightarrow> (string \<times> string) list \<Rightarrow> decpu_flags option" where
  "decpu_read_flags atoi acc =
     (if list_ex (\<lambda>kv. fst kv = ''n'' \<and> (case atoi (snd kv) of Inl e \<Rightarrow> True | Inr i \<Rightarrow> False)) acc then None
      else Some \<lparr>df_debug = flag_bool acc ''d'' ''false'', df_dump = flag_bool acc ''dump'' ''false'',
        df_fstab = flag_value acc ''fstab'' [], df_hostKeyFile = flag_value acc ''hk'' [], df_keyFile = flag_value acc ''key'' [],
        df_namespace = flag_value acc ''namespace'' ''/lib:/lib64:/usr:/bin:/etc:/home'', df_network = flag_value acc ''net'' [],
        df_numCPUs = (case map_of (rev acc) ''n'' of None \<Rightarrow> 1 | Some v \<Rightarrow> (case atoi v of Inl e \<Rightarrow> 1 | Inr i \<Rightarrow> i)),
        df_sp = flag_value acc ''sp'' [], df_root = flag_value acc ''root'' ''/'',
        df_timeout9P = flag_value acc ''timeout9p'' ''100ms'', df_ninep = flag_bool acc ''9p'' ''true''\<rparr>)"

text \<open>\<open>flags\<close> after parsing: the error the process ends with, if any.\<close>

definition decpu_check_flags :: "goerror option \<Rightarrow> decpu_flags \<Rightarrow> goerror option" where
  "decpu_check_flags dump_file f =
     (if df_dump f \<and> df_debug f then Some (Errorf ''You can only set either dump OR debug'' [])
      else if df_dump f then dump_file else None)"

definition decpu_getKeyFile :: "(string \<Rightarrow> string \<Rightarrow> string) \<Rightarrow> (string \<Rightarrow> string) \<Rightarrow> string \<Rightarrow> string \<Rightarrow> string" where
  "decpu_getKeyFile cfg getenv host kf0 =
     (let kf = (if length kf0 = 0 then
                  (let k = cfg host ''IdentityFile'' in
                   if length k = 0 then path_join [getenv ''HOME'', ''.ssh/cpu_rsa''] else k)
                else kf0)
      in if has_prefix kf ''~'' then path_join [getenv ''HOME'', drop 1 kf] else kf)"

definition decpu_getHostName :: "(string \<Rightarrow> string \<Rightarrow> string) \<Rightarrow> string \<Rightarrow> string" where
  "decpu_getHostName cfg host = (let h = cfg host ''HostName'' in if length h \<noteq> 0 then h else host)"

definition decpu_getPort :: "(string \<Rightarrow> string \<Rightarrow> string) \<Rightarrow> string \<Rightarrow> string \<Rightarrow> string" where
  "decpu_getPort cfg host port =
     (let p = (if length port = 0 then (let cp = cfg host ''Port'' in if length cp \<noteq> 0 then cp else port) else port)
      in if length p = 0 \<or> p = ''22'' then ''17010'' else p)"

section \<open>Running on one host\<close>

definition decpu_options :: "('a, 'd) new_ext \<Rightarrow> decpu_flags \<Rightarrow> string \<Rightarrow> string \<Rightarrow> 'a cset list" where
  "decpu_options x f keyFile port =
     [WithPrivateKeyFile keyFile, WithHostKeyFile (df_hostKeyFile f), WithPort (ne_cfg x) port, WithRoot (df_root f),
      WithNameSpace (df_namespace f), With9P (df_ninep f), WithFSTab (ne_read_file x) (df_fstab f),
      WithNetwork (df_network f), WithTimeout (ne_duration x) (df_timeout9P f)]"

text \<open>An error of the command's end is only logged; \<open>Close\<close> is called when the command has been started.\<close>

definition decpu_newCPU :: "('a, 'd) new_ext \<Rightarrow> decpu_flags \<Rightarrow> string \<Rightarrow> string \<Rightarrow> string \<Rightarrow> string list \<Rightarrow> new_result" where
  "decpu_newCPU x f keyFile host port args =
     (case SetOptions (Command (ne_cfg x) (ext_getenv x) (env_value (ne_environ x) ''SHELL'') (ne_term x) host args)
         (decpu_options x f keyFile port) of
        (Some e, c1) \<Rightarrow> Died 1
      | (None, c1) \<Rightarrow>
          (case Dial (ne_dial x) (c1\<lparr>c_Env := Some (ne_environ x)\<rparr>) of
             (Panic s, c2) \<Rightarrow> Died 1
           | (Fail e, c2) \<Rightarrow> Returned (Some (Errorf ''Dial: %v'' []))
           | (Ok u, c2) \<Rightarrow>
               (case Start (ne_start x) c2 of (st, c3) \<Rightarrow>
                  (case st_err st of
                     Some e \<Rightarrow> Returned (Some (Errorf ''Start: %v'' []))
                   | None \<Rightarrow> Returned (Cmd_Close (ne_close x) c3)))))"

section \<open>main\<close>

text \<open>The hosts and ports; the error of a lookup is only logged.\<close>

fun entry_cpus :: "entry list \<Rightarrow> (string \<times> string) list res" where
  "entry_cpus [] = Ok []"
| "entry_cpus (e # es) =
     bind_res (index_slice (e_ips e) 0) (\<lambda>ip. bind_res (entry_cpus es) (\<lambda>cs. Ok ((ip, itoa (word_of_int (e_port e))) # cs)))"

definition decpu_cpus :: "goerror + Query \<Rightarrow> (Query \<Rightarrow> entry list res) \<Rightarrow> string \<Rightarrow> string \<Rightarrow> (string \<times> string) list res" where
  "decpu_cpus parsed lookup host port =
     (case parsed of
        Inl e \<Rightarrow> Ok [(host, port)]
      | Inr dq \<Rightarrow>
          (case lookup dq of
             Ok es \<Rightarrow> entry_cpus es
           | Fail e \<Rightarrow> entry_cpus []
           | Panic s \<Rightarrow> Panic s))"

text \<open>The loop over the hosts: host name, port and key file of each, and what \<open>newCPU\<close> returned; the
  key file is the variable of the flag, assigned in each round. The process may end in a round.\<close>

fun decpu_loop :: "(string \<Rightarrow> string \<Rightarrow> string) \<Rightarrow> (string \<Rightarrow> string) \<Rightarrow> (string \<Rightarrow> string \<Rightarrow> string \<Rightarrow> new_result)
    \<Rightarrow> string \<Rightarrow> (string \<times> string) list \<Rightarrow> (string \<times> string \<times> string \<times> new_result) list" where
  "decpu_loop cfg getenv run keyFile [] = []"
| "decpu_loop cfg getenv run keyFile ((host, port) # cpus) =
     (let keyFile' = decpu_getKeyFile cfg getenv host keyFile;
          port' = decpu_getPort cfg host port;
          hn = decpu_getHostName cfg host;
          r = run keyFile' hn port'
      in (hn, port', keyFile', r) #
         (case r of Returned e \<Rightarrow> decpu_loop cfg getenv run keyFile' cpus | _ \<Rightarrow> []))"

definition Default_query :: string where
  "Default_query = ''dnssd://?sort=tenants&sort=cpu.pcnt''"

text \<open>What \<open>main\<close> runs; \<open>Inl\<close> the status of a process that ends before. \<open>parse\<close> and \<open>lookup\<close> are those of
  theory DnsSd with their externals.\<close>

definition decpu_main :: "('a, 'd) new_ext \<Rightarrow> (string \<Rightarrow> goerror + int) \<Rightarrow> (string \<Rightarrow> goerror + Query)
    \<Rightarrow> (Query \<Rightarrow> int \<Rightarrow> entry list res) \<Rightarrow> goerror option \<Rightarrow> string list
    \<Rightarrow> int + (string \<times> string \<times> string \<times> new_result) list" where
  "decpu_main x atoi parse lookup dump_file argv =
     (case parse_flags decpu_flag_kind [] (drop 1 argv) of
        FlagsExit m \<Rightarrow> Inl (if m = ''flag: help requested'' then 0 else 2)
      | FlagsOk acc args \<Rightarrow>
          (case decpu_read_flags atoi acc of
             None \<Rightarrow> Inl 2
           | Some f \<Rightarrow>
               if decpu_check_flags dump_file f \<noteq> None then Inl 1
               else (let host0 = (if 0 < length args then args ! 0 else Default_query);
                         a = (if 0 < length args then drop 1 args else []);
                         host = (if host0 = ''.'' then Default_query else host0);
                         shellEnv = ext_getenv x ''SHELL''
                     in if length a = 0 \<and> 1 < df_numCPUs f then Inl 1
                        else (let a' = (if length a = 0 then [if 0 < length shellEnv then shellEnv else ''/bin/sh''] else a)
                              in case decpu_cpus (parse host) (\<lambda>q. lookup q (df_numCPUs f)) host (df_sp f) of
                                   Ok cpus \<Rightarrow> Inr (decpu_loop (ne_cfg x) (ext_getenv x)
                                       (\<lambda>kf hn p. decpu_newCPU x f kf hn p a') (df_keyFile f) cpus)
                                 | _ \<Rightarrow> Inl 2))))"

section \<open>Properties\<close>

lemma decpu_getKeyFile_fixed: "kf \<noteq> [] \<Longrightarrow> \<not> has_prefix kf ''~'' \<Longrightarrow> decpu_getKeyFile cfg getenv host kf = kf"
  by (simp add: decpu_getKeyFile_def Let_def)

lemma decpu_loop_key:
  "kf \<noteq> [] \<Longrightarrow> \<not> has_prefix kf ''~'' \<Longrightarrow>
   (hn, p, k, r) \<in> set (decpu_loop cfg getenv run kf cpus) \<Longrightarrow> k = kf"
  by (induction cfg getenv run kf cpus rule: decpu_loop.induct)
     (auto simp: decpu_getKeyFile_fixed Let_def split: new_result.splits)

text \<open>Every host is logged in to with the key file of the first one: as the key file is kept in the variable of the flag, the
  configuration of the later hosts is not asked, whatever identity it names for them.\<close>

lemma decpu_first_key:
  assumes "decpu_getKeyFile cfg getenv h kf = k0" and "k0 \<noteq> []" and "\<not> has_prefix k0 ''~''"
    and "(hn, p, k, r) \<in> set (decpu_loop cfg getenv run kf ((h, hp) # cpus))"
  shows "k = k0"
proof (cases "(hn, p, k, r) \<in> set (decpu_loop cfg getenv run k0 cpus)")
  case True
  then show ?thesis by (rule decpu_loop_key [OF assms(2,3)])
next
  case False
  then show ?thesis using assms(1,4) by (auto simp: Let_def split: new_result.splits)
qed

theorem decpu_first_key_witness:
  "fst (snd (snd (decpu_loop (\<lambda>h k. if k = ''IdentityFile'' then ''/keys/'' @ h else []) (\<lambda>k. ''/home/u'')
      (\<lambda>k h p. Returned None) [] [(''a'', []), (''b'', [])] ! 1))) = ''/keys/a''"
proof -
  let ?cfg = "\<lambda>h k. if k = ''IdentityFile'' then ''/keys/'' @ h else []"
  let ?l = "decpu_loop ?cfg (\<lambda>k. ''/home/u'') (\<lambda>k h p. Returned None) [] [(''a'', []), (''b'', [])]"
  have k: "decpu_getKeyFile ?cfg (\<lambda>k. ''/home/u'') ''a'' [] = ''/keys/a''" by (simp add: decpu_getKeyFile_def has_prefix_def)
  obtain hn p kf r where e: "?l ! 1 = (hn, p, kf, r)" by (cases "?l ! 1")
  have "1 < length ?l" by (simp add: Let_def)
  then have "(hn, p, kf, r) \<in> set ?l" using e nth_mem by metis
  then have "kf = ''/keys/a''" by (rule decpu_first_key [OF k, rotated 2]) (simp_all add: has_prefix_def)
  with e show ?thesis by simp
qed

lemma decpu_loop_visits:
  "\<forall>k h p. \<exists>e. run k h p = Returned e \<Longrightarrow>
   map (\<lambda>(hn, p, k, r). (hn, p)) (decpu_loop cfg getenv run kf cpus) =
   map (\<lambda>(h, p). (decpu_getHostName cfg h, decpu_getPort cfg h p)) cpus"
proof (induction cpus arbitrary: kf)
  case (Cons c cpus)
  obtain h p where c: "c = (h, p)" by force
  obtain e where "run (decpu_getKeyFile cfg getenv h kf) (decpu_getHostName cfg h) (decpu_getPort cfg h p) = Returned e"
    using Cons.prems by blast
  with Cons c show ?case by (simp add: Let_def)
qed simp

lemma entry_cpus_Ok: "entry_cpus es = Ok cs \<Longrightarrow>
    cs = map (\<lambda>e. (hd (e_ips e), itoa (word_of_int (e_port e)))) es \<and> (\<forall>e \<in> set es. e_ips e \<noteq> [])"
proof (induction es arbitrary: cs)
  case (Cons e es)
  then obtain ip cs' where "index_slice (e_ips e) 0 = Ok ip" "entry_cpus es = Ok cs'" "cs = (ip, itoa (word_of_int (e_port e))) # cs'"
    by (auto simp: bind_res_Ok_iff)
  moreover have "e_ips e \<noteq> []" "ip = hd (e_ips e)" using calculation(1)
    by (auto simp: index_slice_def hd_conv_nth split: if_splits)
  ultimately show ?case using Cons.IH by simp
qed simp

text \<open>A discovered service without an address panics decpu.\<close>

lemma entry_without_address: "e_ips e = [] \<Longrightarrow> entry_cpus (e # es) = Panic ''index out of range''"
  by simp

text \<open>C30: decpu runs on services that answer the query only. With a query whose requirements have values, the hosts are the first
  addresses and the ports of answers that meet every requirement, each answer at most once, as many as \<open>-n\<close> says at most, or one;
  and unless a run ends the process all of them are visited, in the order of the lookup, whether or not the runs before succeeded.\<close>

theorem decpu_runs_on_matches:
  assumes "entry_sorter srt" and "well_valued (q_Text q)"
    and "decpu_cpus (Inr q) (\<lambda>q. Lookup pf srt answers q n) host port = Ok cpus" and "\<forall>k h p. \<exists>e. run k h p = Returned e"
  shows "length cpus \<le> max 1 (nat n) \<and>
    mset cpus \<subseteq># mset (map (\<lambda>e. (hd (e_ips e), itoa (word_of_int (e_port e)))) (filter (answers_query pf q) answers)) \<and>
    map (\<lambda>(hn, p, k, r). (hn, p)) (decpu_loop cfg getenv run kf cpus) =
      map (\<lambda>(h, p). (decpu_getHostName cfg h, decpu_getPort cfg h p)) cpus"
proof -
  let ?f = "\<lambda>e. (hd (e_ips e), itoa (word_of_int (e_port e)))"
  obtain es where "entry_cpus es = Ok cpus" and es: "es = [] \<or> Lookup pf srt answers q n = Ok es"
    using assms(3) by (auto simp: decpu_cpus_def split: res.splits)
  then have c: "cpus = map ?f es" using entry_cpus_Ok by blast
  have "mset es \<subseteq># mset (filter (answers_query pf q) answers)" "length es \<le> max 1 (nat n)"
    using es entry_sorter.lookup_matches [OF assms(1,2)] by auto
  then show ?thesis using c decpu_loop_visits [OF assms(4)] by (simp add: image_mset_subseteq_mono)
qed

theorem decpu_runs_on_matches_witness:
  "length (decpu_loop (\<lambda>h k. []) (\<lambda>k. ''/home/u'') (\<lambda>k h p. Returned None) [] [(''10.0.0.1'', itoa 17010)]) \<le> 1"
proof -
  let ?q = "\<lparr>q_Type = ''_ncpu._tcp'', q_Instance = [], q_Domain = ''local'', q_Text = []\<rparr>"
  let ?L = "\<lambda>q. Lookup nat_parser sort_by [host_entry ''a'' ''4'', host_entry ''b'' ''1''] q 1"
  have L: "?L ?q = Ok [host_entry ''a'' ''4'']"
    by (simp add: Lookup_def add_response_def sortEntries_def)
  have "decpu_cpus (Inr ?q) ?L [] [] = Ok [(''10.0.0.1'', itoa 17010)]"
    by (simp add: decpu_cpus_def L) (simp add: host_entry_def)
  from decpu_runs_on_matches [OF isort.entry_sorter_axioms _ this, of "\<lambda>k h p. Returned None" "\<lambda>h k. []" "\<lambda>k. ''/home/u''" "[]"]
  show ?thesis by (auto simp: well_valued_def dest: arg_cong [of _ _ length])
qed

end
