(* ===== verification/CpudServe.thy ===== *)
theory CpudServe
  imports Cpud DnsSd
begin

text \<open>
  The process of cpud as a server, from its arguments to serving: \<open>main\<close> (\<open>cmds/cpud/main_linux.go\<close>, and the same text in
  \<open>main_freebsd.go\<close>), \<open>initsetup\<close> with the \<open>cpuSetup\<close> of the platform (\<open>init_linux.go\<close>, \<open>init_freebsd.go\<close>), \<open>serve\<close>
  (\<open>serve.go\<close>) and the modifier of a cpud built with mDNS (\<open>main_mdns_linux.go\<close>).
\<close>

section \<open>Setting up the machine\<close>

text \<open>What \<open>cpuSetup\<close> does, in order; it returns nil.\<close>

datatype setup_step = LockOSThread | LibSetEnv | LibCreateRootfs | LibNetInit | StartReaper | UnlockOSThread

definition cpuSetup_linux :: "setup_step list" where
  "cpuSetup_linux = [LockOSThread, LibSetEnv, LibCreateRootfs, LibNetInit, StartReaper, UnlockOSThread]"

definition cpuSetup_bsd :: "setup_step list" where
  "cpuSetup_bsd = [LockOSThread, LibNetInit, StartReaper, UnlockOSThread]"

text \<open>The reaper on FreeBSD, on the answers of \<open>wait4\<close>.\<close>

definition reap_bsd :: "(int \<times> string option) list \<Rightarrow> nat \<Rightarrow> nat \<times> nat" where
  "reap_bsd ws n = reap ws n"

section \<open>The flags of mDNS\<close>

definition mdns_flags :: "string \<Rightarrow> bool option" where
  "mdns_flags n =
     (if n = ''dnssd'' then Some True
      else if n \<in> {''dsInstance'', ''dsDomain'', ''dsService'', ''dsInterface'', ''dsTxt''} then Some False
      else server_flags n)"

text \<open>The modifier, with the values of its flags: what it advertises, or the error. The flag \<open>dnssd\<close> is not asked.\<close>

definition mdns_modifier :: "ds_ext \<Rightarrow> u64 \<Rightarrow> (string \<Rightarrow> goerror + int) \<Rightarrow> (string \<times> string) list \<Rightarrow> ('s \<Rightarrow> 'r)
    \<Rightarrow> goerror + (service_config \<times> ('s \<Rightarrow> 'r \<times> u64 list))" where
  "mdns_modifier ds tenants atoi acc handle =
     servemDNS ds tenants atoi (flag_value acc ''sp'' ''17010'') (flag_value acc ''dsInstance'' []) (flag_value acc ''dsDomain'' ''local'')
       (flag_value acc ''dsService'' ''_ncpu._tcp'') (flag_value acc ''dsInterface'' []) (flag_value acc ''dsTxt'' []) handle"

section \<open>The process\<close>

text \<open>What the system answers: which files do not exist, starting commands, listening, registering, and how serving ended.\<close>

record 'l server_ext =
  sv_missing :: "string \<Rightarrow> bool"
  sv_start :: "string list \<Rightarrow> goerror option"
  sv_vsock :: "nat \<Rightarrow> goerror + 'l"
  sv_listen :: "string \<Rightarrow> string \<Rightarrow> goerror + 'l"
  sv_dial :: "string \<Rightarrow> goerror option"
  sv_write :: "string \<Rightarrow> goerror option"
  sv_closed :: bool

datatype server_event = Setup setup_step | Started "string list" | Slept string | Serve serve_event

text \<open>\<open>mods\<close> are the modifiers the program was built with, as results for the values of the flags. The result is the status
  and the events; \<open>None\<close> is a process that is no server.\<close>

definition cpud_server :: "(string \<Rightarrow> bool option) \<Rightarrow> setup_step list \<Rightarrow> 'l server_ext
    \<Rightarrow> ((string \<times> string) list \<Rightarrow> (string \<times> goerror option) list) \<Rightarrow> string option \<Rightarrow> nat \<Rightarrow> string list
    \<Rightarrow> (int \<times> server_event list) option" where
  "cpud_server sflags setup x mods shell pid argv =
     (case cpud_main_on sflags shell pid argv of
        RunServer acc ini \<Rightarrow>
          (let before = (if ini then map Setup setup @ map Started (snd (initsetup (sv_missing x) (sv_start x))) else []);
               sleep = [Slept (flag_value acc ''sleepBeforeServing'' ''0'')];
               ln = listen (sv_vsock x) (sv_listen x) (flag_value acc ''net'' ''tcp'') (flag_value acc ''sp'' ''17010'');
               reg = register (sv_dial x) (sv_write x) (flag_value acc ''register'' [])
           in case serve ln reg (mods acc) (sv_closed x) of
                (Some e, evs) \<Rightarrow> Some (1, before @ sleep @ map Serve evs)
              | (None, evs) \<Rightarrow> Some (0, before @ sleep @ map Serve evs))
      | _ \<Rightarrow> None)"

section \<open>Facts\<close>

lemma start_cmds_filter: "start_cmds missing start vs = filter (\<lambda>v. \<not> missing (hd v) \<and> start v = None) vs"
  by (induction vs) (auto split: option.splits)

text \<open>A server serves exactly if it can listen, whatever registering and the modifiers answer.\<close>

lemma serve_result:
  "serve ln reg mods closed = (r, evs) \<Longrightarrow>
    (r = None \<longleftrightarrow> (\<exists>l. ln = Inr l)) \<and> (Serving \<in> set evs \<longleftrightarrow> r = None) \<and>
    (r = None \<longrightarrow> takeWhile (\<lambda>e. e \<noteq> Serving) evs = [Listening, Registering] @ map (\<lambda>m. Modifier (fst m)) mods)"
  by (auto simp: serve_def takeWhile_append split: sum.splits)

text \<open>The command line of an init.\<close>

lemma init_is_server:
  "\<lbrakk>1 < length argv \<longrightarrow> argv ! 1 \<notin> {''-remote'', ''-remote=true''}; parse_flags sflags [] (drop 1 argv) = FlagsOk acc args;
    \<not> (flag_true acc ''d'' \<and> flag_true acc ''klog'')\<rbrakk> \<Longrightarrow>
    cpud_main_on sflags shell pid argv = RunServer acc (flag_true acc ''init'' \<or> pid = 1)"
  by (auto simp: cpud_main_on_def is_remote_def)

section \<open>Properties\<close>



text \<open>The flag that turns the advertisement off is read and has no effect.\<close>

lemma dnssd_flag_ignored:
  "mdns_flags ''dnssd'' = Some True \<and> mdns_modifier ds t atoi (acc @ [(''dnssd'', v)]) handle = mdns_modifier ds t atoi acc handle"
  by (simp add: mdns_flags_def mdns_modifier_def flag_value_def)

text \<open>What is advertised is the number of the port that cpud listens on, if that is a number.\<close>

lemma mdns_port:
  assumes "mdns_modifier ds t atoi acc handle = Inr (cfg, h)" and "flag_value acc ''net'' ''tcp'' = ''tcp''"
  shows "\<exists>p. atoi p = Inr (sc_Port cfg) \<and> listen vl nl (flag_value acc ''net'' ''tcp'') (flag_value acc ''sp'' ''17010'') = nl ''tcp'' ('':'' @ p)"
  using servemDNS_registers [OF assms(1) [unfolded mdns_modifier_def]] assms(2)
  by (intro exI [of _ "flag_value acc ''sp'' ''17010''"]) (simp add: listen_def)

end
