(* ===== verification/Discovery.thy ===== *)
theory Discovery
  imports Decpu CpudServe
begin

text \<open>
  A cpud that announces itself (\<open>servemDNS\<close> of \<open>cmds/cpud/main_mdns_linux.go\<close>, \<open>Register\<close> of \<open>ds/ds.go\<close>) and a decpu that
  looks for one (\<open>main\<close> of \<open>cmds/decpu/decpu.go\<close>, \<open>Parse\<close> and \<open>Lookup\<close> of \<open>ds/ds.go\<close>): the address decpu looks up by default asks
  for what cpud announces by default.
\<close>

section \<open>The default query\<close>

text \<open>What \<open>url.Parse\<close> gives of \<open>ds.Default\<close>.\<close>

definition default_url :: url where
  "default_url = \<lparr>u_scheme = ''dnssd'', u_host = [], u_query = [(''sort'', [''tenants'', ''cpu.pcnt''])]\<rparr>"

text \<open>The name of an architecture or of an operating system cannot be taken for a comparison.\<close>

definition plain_value :: "string \<Rightarrow> bool" where
  "plain_value v = (v \<noteq> [] \<and> hd v \<notin> {CHR ''*'', CHR ''<'', CHR ''>'', CHR ''!''})"

lemma Parse_default:
  assumes "url_parse Default_query = Inr default_url"
  shows "Parse url_parse arch os Default_query =
    Inr \<lparr>q_Type = ''_ncpu._tcp'', q_Instance = [], q_Domain = ''local'',
      q_Text = [(''sort'', [''tenants'', ''cpu.pcnt'']), (''arch'', [arch]), (''os'', [os])]\<rparr>"
  using assms by (simp add: Parse_def default_url_def parse_host_def default_req_def)

lemma default_order:
  "sort_funs pf [''tenants'', ''cpu.pcnt''] =
    Ok (Some [genSortTxt pf ''tenants'' CHR ''<'', genSortTxt pf ''cpu.pcnt'' CHR ''<''])"
  "sort_element ''tenants'' = Ok (Some (CHR ''<'', ''tenants''))" "sort_element ''cpu.pcnt'' = Ok (Some (CHR ''<'', ''cpu.pcnt''))"
  by (simp_all add: sort_element_def)

text \<open>Services of the architecture and the system that were asked for.\<close>

lemma meets_plain: "plain_value v \<Longrightarrow> k \<noteq> ''sort'' \<Longrightarrow> meets pf src (k, [v]) \<longleftrightarrow> text_of src k = v"
  by (cases v) (simp_all add: plain_value_def meets_def)

lemma answers_default:
  assumes "plain_value arch" and "plain_value os"
  shows "answers_query pf \<lparr>q_Type = t, q_Instance = [], q_Domain = d,
      q_Text = [(''sort'', els), (''arch'', [arch]), (''os'', [os])]\<rparr> e \<longleftrightarrow>
    text_of (e_Text e) ''arch'' = arch \<and> text_of (e_Text e) ''os'' = os"
proof -
  have "meets pf (e_Text e) (''sort'', els)" by (simp add: meets_def)
  then show ?thesis
    using meets_plain [OF assms(1), of "''arch''" pf "e_Text e"] meets_plain [OF assms(2), of "''os''" pf "e_Text e"]
    by (simp add: answers_query_def)
qed

section \<open>The best of the announced\<close>

text \<open>Numbers under the two keys, as \<open>strconv.ParseFloat\<close> reads them.\<close>

definition has_numbers :: "('n :: linorder) float_parser \<Rightarrow> entry \<Rightarrow> bool" where
  "has_numbers pf e = (\<forall>k \<in> {''tenants'', ''cpu.pcnt''}. \<exists>x. pf (text_of (e_Text e) k) = Some (Num x))"

lemma left_over: "e \<in> set es \<Longrightarrow> e \<noteq> r \<Longrightarrow> e \<in># mset es - {#r#}"
  by (simp add: in_diff_count)

lemma lookup_default:
  assumes srt: "entry_sorter srt" and pl: "plain_value arch" "plain_value os"
    and num: "\<forall>e \<in> set answers. has_numbers pf e"
    and e: "e \<in> set answers" "text_of (e_Text e) ''arch'' = arch" "text_of (e_Text e) ''os'' = os"
  shows "\<exists>r \<in> set answers. Lookup pf srt answers \<lparr>q_Type = t, q_Instance = [], q_Domain = d,
        q_Text = [(''sort'', [''tenants'', ''cpu.pcnt'']), (''arch'', [arch]), (''os'', [os])]\<rparr> 1 = Ok [r] \<and>
      text_of (e_Text r) ''arch'' = arch \<and> text_of (e_Text r) ''os'' = os \<and>
      (\<exists>x y. pf (text_of (e_Text r) ''tenants'') = Some (Num x) \<and> pf (text_of (e_Text e) ''tenants'') = Some (Num y) \<and> x \<le> y)"
proof -
  let ?q = "\<lparr>q_Type = t, q_Instance = [], q_Domain = d,
      q_Text = [(''sort'', [''tenants'', ''cpu.pcnt'']), (''arch'', [arch]), (''os'', [os])]\<rparr>"
  let ?ls = "[genSortTxt pf ''tenants'' CHR ''<'', genSortTxt pf ''cpu.pcnt'' CHR ''<'']"
  let ?m = "filter (answers_query pf ?q) answers"
  have em: "e \<in> set ?m" using e answers_default [OF pl, of pf] by simp
  have wv: "well_valued (q_Text ?q)" using pl by (simp add: well_valued_def plain_value_def)
  have nf: "\<forall>e \<in> set answers. \<forall>el \<in> set [''tenants'', ''cpu.pcnt'']. numeric_for pf el e"
    using num by (simp add: numeric_for_def default_order has_numbers_def)
  obtain rs where rs: "Lookup pf srt answers ?q (int 1) = Ok rs" "length rs = min (max 1 1) (length ?m)"
    "mset rs \<subseteq># mset ?m" "\<forall>r \<in> set rs. \<forall>c \<in># mset ?m - mset rs. \<not> multi_less ?ls c r"
    using lookup_best [OF srt wv _ _ default_order(1) nf refl, of 1] em by fastforce
  have "?m \<noteq> []" using em by force
  then have "0 < length ?m" by blast
  then have "length rs = 1" using rs(2) by linarith
  then obtain r where "rs = [r]" by (cases rs) auto
  then have r: "Lookup pf srt answers ?q 1 = Ok [r]" "r \<in> set ?m" "\<forall>c \<in># mset ?m - {#r#}. \<not> multi_less ?ls c r"
    using rs by (simp_all add: mset_subset_eq_insertD)
  obtain x y where xy: "pf (text_of (e_Text r) ''tenants'') = Some (Num x)" "pf (text_of (e_Text e) ''tenants'') = Some (Num y)"
    using bspec [OF num, of r] bspec [OF num, of e] r(2) e(1) unfolding has_numbers_def by auto
  have "x \<le> y"
  proof (cases "e = r")
    case False
    then have "e \<in># mset ?m - {#r#}" using left_over [OF em] by blast
    then have "\<not> genSortTxt pf ''tenants'' CHR ''<'' e r" using r(3) by auto
    then show ?thesis using xy by (simp add: genSortTxt_def fl_less_def Let_def)
  qed (use xy in simp)
  moreover have "r \<in> set answers" "text_of (e_Text r) ''arch'' = arch" "text_of (e_Text r) ''os'' = os"
    using r(2) answers_default [OF pl, of pf] by simp_all
  ultimately show ?thesis using r(1) xy by blast
qed

section \<open>From the announcement to the command\<close>

lemma decpu_dot:
  "decpu_read_flags atoi [] = Some f \<Longrightarrow> a \<noteq> [] \<Longrightarrow>
   decpu_main x atoi parse lookup dump (prog # ''.'' # a) =
     (case decpu_cpus (parse Default_query) (\<lambda>q. lookup q 1) Default_query [] of
        Ok cpus \<Rightarrow> Inr (decpu_loop (ne_cfg x) (ext_getenv x) (\<lambda>kf hn p. decpu_newCPU x f kf hn p a) [] cpus)
      | _ \<Rightarrow> Inl 2)"
proof -
  assume f: "decpu_read_flags atoi [] = Some f" and a: "a \<noteq> []"
  have p: "parse_flags decpu_flag_kind [] (''.'' # a) = FlagsOk [] (''.'' # a)"
    by (intro parse_flags_stop) (simp add: flag_body_def)
  have s: "df_dump f = False" "df_numCPUs f = 1" "df_sp f = []" "df_keyFile f = []"
    using f by (auto simp: decpu_read_flags_def flag_bool_def flag_value_def parse_bool_def)
  show ?thesis using a by (simp add: decpu_main_def p f s decpu_check_flags_def Let_def del: parse_flags.simps split: res.split)
qed

section \<open>Properties\<close>


definition sample_ds :: ds_ext where
  "sample_ds = \<lparr>de_hostname = Inr ''node'', de_arch = ''arm64'', de_os = ''linux'', de_ncpu = 4,
     de_sysinfo = \<lparr>si_mem = Inl ErrNotExist, si_cpu = Inr ''1''\<rparr>, de_responder = None, de_service = (\<lambda>c. None)\<rparr>"


end
