(* ===== verification/Spec2Isabelle.thy ===== *)
theory Spec2Isabelle
  imports StatAttr Escape ClientRun VmBuild Tenants NonceTrip ArchiveServers NfsMount Discovery
begin

text \<open>
  A verification development of u-root's cpu: a client that runs a command on another machine while the
  machine sees the client's files, and the daemon that serves it.

  THE PROGRAM. The client (\<open>client/\<close>, used by \<open>cmds/cpu\<close> and \<open>cmds/decpu\<close>) connects to an ssh server,
  listens for a 9P or an NFS connection that the server makes back to it, sends a command string with an
  environment, and copies the terminal. The server (\<open>cmds/cpud\<close> with \<open>server/\<close>) runs itself again for each
  command, in a new mount name space; that process parses its flags, makes a session (\<open>session/\<close>), dials
  the client's port, proves with a nonce that it is the one that was asked, mounts what the connection serves, mounts
  the binds of the fstab in its environment (\<open>mount/\<close>), drops its privileges and runs the command. Where the
  server is sshd, \<open>cmds/cpuns\<close> takes the place of cpud. The files served are a local directory (\<open>CPU9P\<close>), a CPIO
  archive (\<open>CPIO9P\<close>), a union of servers (\<open>Union9P\<close>) or an archive with a directory over NFS (\<open>fsCPIO\<close>).
  Servers are found by DNS service discovery (\<open>ds/\<close>), and \<open>vm/\<close> boots virtual machines with a cpud in them.

  THE THEORIES, each on the code it names, from the bottom up:

  Prelude: Go's errors (sentinels, \<open>fmt.Errorf\<close> with and without \<open>%w\<close>, \<open>errors.Join\<close>, \<open>errors.Is\<close>), outcomes that may
  be a value, an error or a panic, slices and machine integers as words.
  GoStrings, GoPath: what the program calls of \<open>strings\<close>, \<open>strconv\<close>, \<open>bufio\<close> and \<open>path/filepath\<close>, on byte strings.
  P9: QIDs, attributes and directory entries of 9P, and the interfaces of a file server as locales: what a walk keeps
  (\<open>p9_walker\<close>), what a listing below some offset may not do (\<open>p9_lister\<close>), at any offset (\<open>p9_server\<close>, of which the former is a
  consequence), and a server without state (\<open>stateless_server\<close>).
  CpioArchive, Cpio9p: \<open>client/cpio9p.go\<close>. The FID of the model is the record number and the archive; every
  operation of the code is a definition with the name of its method. Its interpretation of \<open>stateless_server\<close> discharges
  the laws of the interface.
  Cpu9p: \<open>client/cpu9p.go\<close>, \<open>cpu9p_unix.go\<close>, \<open>getattr_linux.go\<close>, \<open>cpu_linux.go\<close>, over system calls with an explicit state;
  FIDs are mutable and live on a heap. It interprets \<open>p9_lister\<close> with the bound \<open>2 ^ 63\<close>: beyond it a listing panics.
  Union9p: \<open>client/union9p.go\<close>, over any servers that keep the interface; its lemmas are proved in the contexts of the locales
  and used through the interpretations.
  FsCpio: \<open>client/union.go\<close> and \<open>client/osnfs.go\<close>, the file system served over NFS, over any \<open>billy\<close> file systems.
  ClientFns: \<open>client/fns.go\<close> (nonce, host, port, environment, binds, fstabs). Escape: the two loops that copy a terminal and watch
  for the escape. ShellWords: quoting, with the splitting that undoes it.
  ClientCmd: \<open>client/client.go\<close> and \<open>client/srv.go\<close>: the record \<open>Cmd\<close>, the options, \<open>Dial\<close>, \<open>Start\<close>, \<open>Close\<close> and the check of the
  nonce. ClientRun: waiting, signals and the copiers of the output.
  Mount: \<open>mount/mount.go\<close>, \<open>mount/mount_linux.go\<close>. BindMounts: that the fstab the client writes is what the server mounts. NfsMount: that
  the session mounts the client's NFS server. ArchiveServers: that \<open>Cpio9p\<close> and the files of \<open>FsCpio\<close> show one archive alike.
  Server: \<open>server/server.go\<close>. Cpud: \<open>cmds/cpud\<close> and the flag parser. Session: \<open>session/\<close>, as a trace of system calls; what
  depends on the platform is a record of steps, whose contract is the locale \<open>session_platform\<close>, with Linux as its first interpretation.
  EndToEnd: client, ssh server, cpud and session composed, for one command. FreeBSD: the sessions, the mounts and cpuns there (the second
  interpretation), and what there is on other systems. ExitStatus: the way back of the command's status. NonceTrip: the way of
  the client's environment to the session and of its nonce back, over \<open>Dial\<close>, \<open>Start\<close>, the handler, \<open>Namespace\<close> and \<open>srv\<close>.
  DnsSd: \<open>ds/ds.go\<close> and the modifier of cpud that advertises it; the contract of \<open>sort.Sort\<close> is the locale \<open>entry_sorter\<close>.
  CpudServe: the process of a server from its arguments to serving, on Linux and FreeBSD, with or without mDNS. Discovery: cpud with
  mDNS and decpu composed, for the default address.
  Tenants: the goroutines of \<open>ds/ds.go\<close> and of the sessions that share the count of tenants, as a step relation on all interleavings.
  CpuCmd, Decpu, Cpuns: the commands \<open>cmds/cpu/cpu.go\<close>, \<open>cmds/decpu/decpu.go\<close>, \<open>cmds/cpuns/main_linux.go\<close>. Vm: \<open>vm/vm.go\<close>.
  VmBuild: \<open>vm/build.go\<close>, which generates the files that Vm embeds. StatAttr: file attributes on Linux, FreeBSD and Darwin.
  This theory: properties of the union over archives, which rest on both servers.

  CORRESPONDENCE. Structs are records and their methods definitions with the receiver as an argument; the names are those of the
  source, with the type in front where several types have a method of the name. An error is a value of \<open>goerror\<close>, so
  what is wrapped and what is only printed is kept apart; a panic of the run time or of \<open>log.Fatal\<close> inside a library call is
  \<open>Panic\<close>, and the end of a process is its exit status. Go integers are words where they can wrap or change sign. Maps are functions
  into options; a map that the code ranges over is a list in some order, and theorems hold for every order. What mutates shared
  state takes and returns it. Loops are structural recursion on what they range over; goroutines that exchange
  events are functions on a list of events in an arbitrary order, or, where they share a channel, an inductive step relation. The answers of system calls and libraries are arguments,
  mostly the fields of a record of externals (\<open>dial_ext\<close>, \<open>start_ext\<close>, \<open>run_ext\<close>, \<open>os_ops\<close>, \<open>new_ext\<close>).

  WHAT IS SHOWN. File servers: no operation of a server reached from \<open>Attach\<close> panics (with the exceptions that are stated), a walk is
  the lookup of a path and a union's walk that of the first mount that matches, listings are exact, and they agree with
  walks; the two servers of an archive agree. Client: quoting is undone by splitting, what \<open>Dial\<close> adds to the environment, that the file server is started for the
  nonce only, when the escape closes the session, what \<open>CombinedOutput\<close> collects. Server: the order of the calls of a session, the
  options of the 9P mount, the flags of fstab lines, that a machine is set up before it serves. Composition: the command that runs is the client's, and 1 is the status that
  comes back if it fails; its binds and its NFS server become the session's mounts; its nonce reaches the session and only a connection that begins
  with it is served; three passes of cpuns end in the user's command with the environment of the client, the
  results of a lookup are the best matches, decpu runs on matches only and by default finds what cpud by default announces, the announced number
  of tenants follows the sessions, and the images that are booted are those that were generated. Some theorems state what the code does
  where that is not what it means to do: the listing of a union in pages, the second mount of \<open>fsCPIO\<close>, \<open>SetAttr\<close> without a cause, the
  key file of decpu, the fstab that cpu joins, the NFS line without IPv6, the flag of mDNS that is not read; the manifest lists them as findings with the lemmas that
  are not properties of their own.

  BOUNDS AND FUEL. No definition has a fuel argument. \<open>resolvelink\<close> follows at most 21 links in the code, which is its
  measure. A line of 65536 bytes ends a scan of an fstab. A listing of \<open>CPU9P\<close> is stated for offsets below \<open>2 ^ 63\<close>. The count of NFS
  mount requests is a signed counter of 32 bits. A 9P port has 16 bits, a vsock address 32.

  PARAMETERS. The u-root cpio reader, the p9, billy, go-nfs, ssh, ssh_config, dnssd, gopsutil and mountinfo packages, the kernel, the random
  source, time, gzip, \<open>url.Parse\<close> and \<open>strconv.ParseFloat\<close>. Hypotheses on them state documented behaviour and have
  witnesses with concrete functions. Strings are ASCII where Go's functions treat other white space.

  NOT MODELLED. What \<open>mount/mount_freebsd.go\<close> has after its \<open>return\<close>; the constant key of \<open>server/key.go\<close>, which only tests use; logging and verbose output; the loops
  inside the NFS, ssh and DNS libraries; the limits of pipes and windows, by which a process may block; times in file attributes over NFS; tests and documentation.
\<close>

section \<open>The union server over archives\<close>

text \<open>The mounts of archives at the prefixes given with them.\<close>

definition archive_mounts :: "(string list option \<times> CPIO9P) list \<Rightarrow> (string list option \<times> CPIO9PFID) list" where
  "archive_mounts as = map (\<lambda>(bw, s). (bw, \<lparr>fid_fs = s, fid_path = 0\<rparr>)) as"

definition archive_union :: "(string list option \<times> CPIO9P) list \<Rightarrow> CPIO9PFID union9PFID" where
  "archive_union as = \<lparr>uf_u = NewUnion9P (mounts_of (archive_mounts as)), uf_f = RootFID\<rparr>"

definition archive_children :: "p9lib \<Rightarrow> CPIO9P \<Rightarrow> nat \<Rightarrow> dirent list" where
  "archive_children p s off =
     map (rec_dirent p (fs_recs s)) (drop off (filter (is_child (fs_recs s) 0) [0..<length (fs_recs s)]))"

lemma archive_union_ok:
  "\<forall>(bw, s) \<in> set as. fid_ok \<lparr>fid_fs = s, fid_path = 0\<rparr> \<Longrightarrow> union_over fid_ok (archive_union as)"
  by (auto simp: union_over_def archive_union_def NewUnion9P_def mounts_of_def archive_mounts_def
      NewUnionMount_def list_all_iff)

lemma built_ok: "NewCPIO9PReaderAt fmt ra = Ok s \<Longrightarrow> fid_ok \<lparr>fid_fs = s, fid_path = 0\<rparr>"
  using NewCPIO9PReaderAt_Ok [of fmt ra s] by (simp add: fid_ok_def)

lemma root_ok: "well_formed (fs_recs s) \<Longrightarrow> fs_m s = rec_table (fs_recs s) \<Longrightarrow>
    fid_ok \<lparr>fid_fs = s, fid_path = 0\<rparr>"
  by (simp add: fid_ok_def well_formed_def)

text \<open>C29: a union of archive servers never panics. If every mounted server was built by
  \<open>NewCPIO9PReaderAt\<close>, then walking the union, walking with attributes and listing it return a
  value or an error for all names, offsets and counts.\<close>

theorem union_of_archives_safe:
  assumes "\<forall>(bw, s) \<in> set as. \<exists>fmt ra. NewCPIO9PReaderAt fmt ra = Ok s"
  shows "\<not> panics (fst (union9PFID_Walk (cpio_ops p) (archive_union as) names w)) \<and>
    \<not> panics (fst (union9PFID_WalkGetAttr p (cpio_ops p) (archive_union as) names w)) \<and>
    \<not> panics (fst (union9PFID_Readdir (cpio_ops p) (archive_union as) off cnt w))"
proof -
  have "union_over fid_ok (archive_union as)"
    using assms built_ok by (intro archive_union_ok) blast
  then show ?thesis
    by (simp add: cpio.union_walk_safe cpio.union_walk_getattr_safe cpio.union_readdir_safe)
qed

theorem union_of_archives_safe_witness:
  "\<not> panics (fst (union9PFID_Walk (cpio_ops sample_p9)
      (archive_union [(Some [''a''], sample_server), (Some [], sample_server)]) [''a'', ''..''] ()))"
proof -
  have "\<forall>(bw, s) \<in> set [(Some [''a''], sample_server), (Some [], sample_server)].
      \<exists>fmt ra. NewCPIO9PReaderAt fmt ra = Ok s"
    using sample_new by auto
  from union_of_archives_safe [OF this, of sample_p9 _ "()"] show ?thesis by blast
qed

lemma archive_listing:
  assumes "well_formed (fs_recs s)" and "fs_m s = rec_table (fs_recs s)" and "mode_is_read_only p 0"
  shows "mount_listing (cpio_ops p) off cnt w \<lparr>fid_fs = s, fid_path = 0\<rparr> =
    (if length (archive_children p s 0) < off then ([], Some EOF_err)
     else (dot_dirent p (fs_recs s) 0 # archive_children p s off, None))"
proof -
  let ?l = "\<lparr>fid_fs = s, fid_path = 0\<rparr>"
  have "fs_recs s \<noteq> []" using assms(1) by (simp add: well_formed_def)
  then have ok: "fid_ok ?l" using assms(2) by (simp add: fid_ok_def)
  have op: "CPIO9PFID_Open p ?l 0 = Ok (rec_qid p (fs_recs s) 0, 0, None)"
    using ok assms(3) by (simp add: CPIO9PFID_Open_def fid_ok_def)
  have rd: "CPIO9PFID_Readdir p ?l off cnt =
     (if length (archive_children p s 0) < off then Fail EOF_err
      else Ok (dot_dirent p (fs_recs s) 0 # archive_children p s off))"
    using Readdir_spec [of ?l p off cnt] assms(1) ok by (simp add: archive_children_def)
  show ?thesis
    by (simp add: mount_listing_def cpio_ops_def Walk_Nil [OF ok] op rd)
qed

lemma archive_children_no_dot:
  assumes "well_formed (fs_recs s)"
  shows "\<not> list_ex is_dot (archive_children p s off)"
proof -
  have n: "0 < length (fs_recs s)" using assms by (simp add: well_formed_def)
  have "de_name d \<noteq> DOT" if "d \<in> set (archive_children p s off)" for d
    using that child_rec(1) [OF assms n] by (auto simp: archive_children_def rec_dirent_def proper_def
        dest!: in_set_dropD)
  then show ?thesis by (auto simp: list_ex_iff is_dot_def)
qed

lemma elide_dots_roots:
  assumes "\<forall>(bw, s) \<in> set as. \<not> list_ex is_dot (archive_children p s 0)"
  shows "elide_dots True (concat (map (\<lambda>(bw, s). dot_dirent p (fs_recs s) 0 # archive_children p s 0) as)) =
    concat (map (\<lambda>(bw, s). archive_children p s 0) as)"
  using assms
proof (induction as)
  case (Cons a as)
  have "is_dot (dot_dirent p r i)" for r i by (simp add: is_dot_def dot_dirent_def)
  with Cons show ?case by (auto simp: elide_dots_append elide_dots_no_dot)
qed simp

text \<open>The listings of the roots, in order, with one dot.\<close>

lemma elide_roots:
  assumes "\<forall>(bw, s) \<in> set ((bw0, s0) # as). well_formed (fs_recs s)"
  shows "elide_dots False (concat (map (\<lambda>(bw, s). dot_dirent p (fs_recs s) 0 # archive_children p s 0) ((bw0, s0) # as))) =
    dot_dirent p (fs_recs s0) 0 # concat (map (\<lambda>(bw, s). archive_children p s 0) ((bw0, s0) # as))"
proof -
  have "\<not> list_ex is_dot (archive_children p s0 0)"
    and "\<forall>(bw, s) \<in> set as. \<not> list_ex is_dot (archive_children p s 0)"
    using archive_children_no_dot assms by fastforce+
  moreover have "is_dot (dot_dirent p r i)" for r i by (simp add: is_dot_def dot_dirent_def)
  ultimately show ?thesis
    using elide_dots_roots [of "as" p] by (simp add: elide_dots_append elide_dots_no_dot)
qed

lemma join_no_errs: "join_errs None (map (\<lambda>_. None) xs) = None"
  by (induction xs) (simp_all add: join_errs_def)

text \<open>C4: the listing of a union of well-formed archives is complete: one dot, that of the
  first archive, then the root entries of every archive, archive by archive in the order of
  the mounts, each in archive order, with nothing left out and duplicates kept, whatever the
  prefixes of the mounts are.\<close>

theorem union_of_archives_listing:
  assumes "\<forall>(bw, s) \<in> set ((bw0, s0) # as). well_formed (fs_recs s) \<and> fs_m s = rec_table (fs_recs s)"
    and "mode_is_read_only p 0"
  shows "union9PFID_Readdir (cpio_ops p) (archive_union ((bw0, s0) # as)) 0 cnt w =
    (Ok (dot_dirent p (fs_recs s0) 0 #
         concat (map (\<lambda>(bw, s). archive_children p s 0) ((bw0, s0) # as)), None), w)"
proof -
  let ?as = "(bw0, s0) # as"
  let ?l = "mount_listing (cpio_ops p) 0 cnt w"
  have wf: "well_formed (fs_recs s)" "fs_m s = rec_table (fs_recs s)" if "(bw, s) \<in> set ?as" for bw s
    using assms(1) that by fast+
  have ls: "?l \<lparr>fid_fs = s, fid_path = 0\<rparr> =
      (dot_dirent p (fs_recs s) 0 # archive_children p s 0, None)" if "(bw, s) \<in> set ?as" for bw s
    using archive_listing [OF wf [OF that] assms(2), where off = 0 and cnt = cnt and w = w] by simp
  have "fid_ok \<lparr>fid_fs = s, fid_path = 0\<rparr>" if "(bw, s) \<in> set ?as" for bw s
    using root_ok [OF wf [OF that]] .
  then have val: "\<forall>b \<in> set (archive_mounts ?as). fid_ok (snd b)"
    by (fastforce simp: archive_mounts_def)
  have errs: "map (snd \<circ> ?l \<circ> snd) (archive_mounts ?as) = map (\<lambda>_. None) ?as"
    using ls by (fastforce simp: archive_mounts_def)
  have "map (fst \<circ> ?l) (map snd (archive_mounts ?as)) =
      map (\<lambda>(bw, s). dot_dirent p (fs_recs s) 0 # archive_children p s 0) ?as"
    using ls by (fastforce simp: archive_mounts_def)
  then have lst: "union_listing (cpio_ops p) 0 cnt w (map snd (archive_mounts ?as)) =
      dot_dirent p (fs_recs s0) 0 # concat (map (\<lambda>(bw, s). archive_children p s 0) ?as)"
    using elide_roots [of bw0 s0 "as" p] wf(1) by (fastforce simp: union_listing_def)
  have u: "uf_u (archive_union ?as) = NewUnion9P (mounts_of (archive_mounts ?as))"
    by (simp add: archive_union_def)
  show ?thesis
    unfolding cpio.union_readdir_stateless [OF val u] lst errs join_no_errs by (simp add: Let_def)
qed

theorem union_of_archives_listing_witness:
  "union9PFID_Readdir (cpio_ops sample_p9) (archive_union [(Some [''a''], sample_server), (None, sample_server)]) 0 9 () =
    (Ok (dot_dirent sample_p9 sample_recs 0 #
         map (rec_dirent sample_p9 sample_recs) [1, 3, 1, 3], None), ())"
proof -
  have kids: "filter (is_child sample_recs 0) [0..<length sample_recs] = [1, 3]" by code_simp
  have "\<forall>(bw, s) \<in> set [(Some [''a''], sample_server), (None, sample_server)].
      well_formed (fs_recs s) \<and> fs_m s = rec_table (fs_recs s)"
    by (simp add: sample_server_def sample_wf)
  from union_of_archives_listing [OF this, of sample_p9 9 "()"] show ?thesis
    by (simp add: archive_children_def sample_server_def kids sample_p9_def)
qed

text \<open>C37: paging through a union loses entries. The offset goes to every server, which skips
  that many entries, and is then compared with the number of entries they returned: over one
  well-formed archive whose root has \<open>n\<close> entries, \<open>Readdir\<close> at offset \<open>off\<close> answers
  \<open>io.EOF\<close> as soon as \<open>n + 1 \<le> 2 * off\<close>, though the archive itself still has \<open>n - off\<close>
  entries to return there.\<close>

theorem union_readdir_paging_stops_early:
  assumes "well_formed (fs_recs s)" and "fs_m s = rec_table (fs_recs s)" and "mode_is_read_only p 0"
    and "n = length (archive_children p s 0)" and "off \<le> n"
  shows "fst (union9PFID_Readdir (cpio_ops p) (archive_union [(bw, s)]) off cnt w) =
      (if n + 1 \<le> 2 * off then Ok ([], Some EOF_err)
       else Ok (dot_dirent p (fs_recs s) 0 # archive_children p s off, None))
    \<and> CPIO9PFID_Readdir p \<lparr>fid_fs = s, fid_path = 0\<rparr> off cnt =
        Ok (dot_dirent p (fs_recs s) 0 # archive_children p s off)
    \<and> length (archive_children p s off) = n - off"
proof -
  let ?ms = "archive_mounts [(bw, s)]"
  have ok: "fid_ok \<lparr>fid_fs = s, fid_path = 0\<rparr>"
    using assms(1,2) by (simp add: fid_ok_def well_formed_def)
  have ls: "mount_listing (cpio_ops p) off cnt w \<lparr>fid_fs = s, fid_path = 0\<rparr> =
      (dot_dirent p (fs_recs s) 0 # archive_children p s off, None)"
    using archive_listing [OF assms(1-3), where off = off and cnt = cnt and w = w] assms(4,5) by simp
  have len: "length (archive_children p s off) = n - off"
    using assms(4) by (simp add: archive_children_def)
  have lst: "union_listing (cpio_ops p) off cnt w (map snd ?ms) =
      dot_dirent p (fs_recs s) 0 # archive_children p s off"
    using archive_children_no_dot [OF assms(1)] ls
    by (simp add: union_listing_def archive_mounts_def elide_dots_no_dot)
  have rd: "CPIO9PFID_Readdir p \<lparr>fid_fs = s, fid_path = 0\<rparr> off cnt =
      Ok (dot_dirent p (fs_recs s) 0 # archive_children p s off)"
    using Readdir_spec [of "\<lparr>fid_fs = s, fid_path = 0\<rparr>" p off cnt] assms ok
    by (simp add: archive_children_def)
  have u: "uf_u (archive_union [(bw, s)]) = NewUnion9P (mounts_of ?ms)" by (simp add: archive_union_def)
  have v: "\<forall>b \<in> set ?ms. fid_ok (snd b)" using ok by (simp add: archive_mounts_def)
  have je: "join_errs None (map (snd \<circ> mount_listing (cpio_ops p) off cnt w \<circ> snd) ?ms) = None"
    by (simp add: archive_mounts_def ls join_errs_def)
  show ?thesis
    unfolding cpio.union_readdir_stateless [OF v u] lst je using rd len assms(5) by (auto simp: Let_def)
qed

theorem union_readdir_paging_stops_early_witness:
  "fst (union9PFID_Readdir (cpio_ops sample_p9) (archive_union [(Some [], sample_server)]) 2 9 ()) =
     Ok ([], Some EOF_err)"
proof -
  have kids: "filter (is_child sample_recs 0) [0..<length sample_recs] = [1, 3]" by code_simp
  have "well_formed (fs_recs sample_server)" "fs_m sample_server = rec_table (fs_recs sample_server)"
    "mode_is_read_only sample_p9 0" "(2::nat) = length (archive_children sample_p9 sample_server 0)" "(2::nat) \<le> 2"
    by (simp_all add: archive_children_def sample_server_def sample_wf sample_p9_def kids)
  from union_readdir_paging_stops_early [OF this, of "Some []" 9 "()"] show ?thesis by simp
qed

end
